theory Spec2Isabelle
  imports Complex_Main "HOL-Library.Multiset"
begin

section \<open>Python runtime pieces used by both scripts\<close>

text \<open>
  The two scripts under \<^verbatim>\<open>src/change-detection\<close> are
  \<^verbatim>\<open>change_detection_modified_Qian.py\<close> (the discrete task, suffix \<open>_Qian\<close> below) and
  \<^verbatim>\<open>continous_change_detection.py\<close> (the continuous-report task, suffix \<open>_cont\<close>).
  Exceptions of the Python runtime are values of \<open>error\<close>; a function that can raise
  returns \<open>error + result\<close>.
\<close>

datatype error = ValueError | IndexError | NameError

text \<open>
  The state of the module \<^verbatim>\<open>random\<close> is the sequence of raw values the generator will
  yield, read from the left; a sequence that has been used up yields 0 for ever.
  \<^verbatim>\<open>int(random() * n)\<close> is the next raw value reduced modulo \<open>n\<close>, so every result in
  \<open>[0, n)\<close> is possible and nothing else is assumed about the generator.
\<close>

type_synonym rng = "nat list"

fun randbelow :: "nat \<Rightarrow> rng \<Rightarrow> nat \<times> rng" where
  "randbelow n [] = (0, [])"
| "randbelow n (d # ds) = (d mod n, ds)"

text \<open>\<^verbatim>\<open>x[i], x[j] = x[j], x[i]\<close>\<close>

definition swap :: "'a list \<Rightarrow> nat \<Rightarrow> nat \<Rightarrow> 'a list" where
  "swap xs i j = xs[i := xs ! j, j := xs ! i]"

text \<open>
  \<^verbatim>\<open>random.shuffle(x)\<close>:
  \<^verbatim>\<open>for i in reversed(xrange(1, len(x))): j = int(random() * (i+1)); x[i], x[j] = x[j], x[i]\<close>.
  \<open>shuffle_from i\<close> runs the iterations \<open>i, i - 1, ..., 1\<close>.
\<close>

fun shuffle_from :: "nat \<Rightarrow> 'a list \<Rightarrow> rng \<Rightarrow> 'a list \<times> rng" where
  "shuffle_from 0 xs g = (xs, g)"
| "shuffle_from (Suc i) xs g =
     (case randbelow (Suc (Suc i)) g of
        (j, g') \<Rightarrow> shuffle_from i (swap xs (Suc i) j) g')"

definition shuffle :: "'a list \<Rightarrow> rng \<Rightarrow> 'a list \<times> rng" where
  "shuffle xs g = shuffle_from (length xs - 1) xs g"

text \<open>
  \<^verbatim>\<open>random.randint(a, b)\<close> is \<^verbatim>\<open>randrange(a, b + 1)\<close>: with \<open>width = b + 1 - a\<close> it returns
  \<^verbatim>\<open>a + int(random() * width)\<close> when \<open>width > 0\<close> and raises
  \<^verbatim>\<open>ValueError("empty range for randrange()")\<close> otherwise.
\<close>

definition randint :: "int \<Rightarrow> int \<Rightarrow> rng \<Rightarrow> error + (int \<times> rng)" where
  "randint a b g =
     (if 0 < b + 1 - a
      then (case randbelow (nat (b + 1 - a)) g of (k, g') \<Rightarrow> Inr (a + int k, g'))
      else Inl ValueError)"

text \<open>
  \<^verbatim>\<open>xs[i]\<close> and \<^verbatim>\<open>xs[i] = v\<close> for an integer index: a negative index counts from the end,
  an index outside the list raises IndexError.
\<close>

definition py_getitem :: "'a list \<Rightarrow> int \<Rightarrow> error + 'a" where
  "py_getitem xs i =
     (let n = int (length xs); k = (if i < 0 then i + n else i)
      in if 0 \<le> k \<and> k < n then Inr (xs ! nat k) else Inl IndexError)"

definition py_setitem :: "'a list \<Rightarrow> int \<Rightarrow> 'a \<Rightarrow> error + 'a list" where
  "py_setitem xs i v =
     (let n = int (length xs); k = (if i < 0 then i + n else i)
      in if 0 \<le> k \<and> k < n then Inr (xs[nat k := v]) else Inl IndexError)"

text \<open>A \<^verbatim>\<open>for\<close> loop whose body can raise and that appends one result per round.\<close>

fun for_each :: "('a \<Rightarrow> 's \<Rightarrow> error + ('b \<times> 's)) \<Rightarrow> 'a list \<Rightarrow> 's \<Rightarrow> error + ('b list \<times> 's)" where
  "for_each f [] s = Inr ([], s)"
| "for_each f (a # as) s =
     (case f a s of
        Inl e \<Rightarrow> Inl e
      | Inr (b, s') \<Rightarrow>
          (case for_each f as s' of
             Inl e \<Rightarrow> Inl e
           | Inr (bs, s'') \<Rightarrow> Inr (b # bs, s'')))"

section \<open>The Trial class\<close>

text \<open>
  The fields of \<^verbatim>\<open>Trial\<close>, the same in both scripts. A position is the pair of its
  coordinates; the type of a colour is a parameter (three integers in the
  discrete script, three reals in the continuous one).
\<close>

record 'c Trial =
  rep_num :: int
  trial_num :: int
  num_stimuli :: nat
  stim_positions :: "(real \<times> real) list"
  change :: bool
  stim_colors :: "'c list"
  probe_colors :: "'c list"

text \<open>\<^verbatim>\<open>Trial.__init__\<close> of the discrete script: the load of each trial type, 0 when no branch applies.\<close>

definition Trial_Qian :: "int \<Rightarrow> int \<Rightarrow> 'c Trial" where
  "Trial_Qian trial rep =
     \<lparr> rep_num = rep, trial_num = trial,
       num_stimuli =
         (if trial = 0 then 1
          else if trial = 1 then 2
          else if trial = 2 then 3
          else if trial = 3 then 4
          else if trial = 4 then 8
          else if trial = 5 then 12
          else 0),
       stim_positions = [], change = False, stim_colors = [], probe_colors = [] \<rparr>"

text \<open>\<^verbatim>\<open>Trial.__init__\<close> of the continuous script.\<close>

definition Trial_cont :: "int \<Rightarrow> int \<Rightarrow> 'c Trial" where
  "Trial_cont trial rep =
     \<lparr> rep_num = rep, trial_num = trial,
       num_stimuli =
         (if trial = 0 then 2
          else if trial = 1 then 4
          else if trial = 2 then 6
          else 0),
       stim_positions = [], change = False, stim_colors = [], probe_colors = [] \<rparr>"

definition STIM_POS_RADIUS :: real where
  "STIM_POS_RADIUS = 4"

text \<open>\<^verbatim>\<open>math.radians\<close>\<close>

definition radians :: "real \<Rightarrow> real" where
  "radians d = d * pi / 180"

text \<open>
  The position appended for \<^verbatim>\<open>pos\<close>:
  \<^verbatim>\<open>angle = math.radians(360 / 12 * pos)\<close>,
  \<^verbatim>\<open>[math.cos(angle)*STIM_POS_RADIUS, math.sin(angle)*STIM_POS_RADIUS]\<close>, over the reals.
\<close>

definition ring_position :: "nat \<Rightarrow> real \<times> real" where
  "ring_position pos =
     (cos (radians (360 / 12 * real pos)) * STIM_POS_RADIUS,
      sin (radians (360 / 12 * real pos)) * STIM_POS_RADIUS)"

text \<open>\<^verbatim>\<open>Trial.set_positions\<close> (the same text in both scripts).\<close>

definition set_positions :: "'c Trial \<Rightarrow> rng \<Rightarrow> 'c Trial \<times> rng" where
  "set_positions t g =
     (case shuffle (stim_positions t @ map ring_position [0..<12]) g of
        (ps, g') \<Rightarrow> (t\<lparr>stim_positions := take (num_stimuli t) ps\<rparr>, g'))"

section \<open>The discrete script\<close>

text \<open>
  The module state the generator reads and writes: the state of \<^verbatim>\<open>random\<close> and the two
  palettes \<^verbatim>\<open>TRIAL_colorS1\<close>, \<^verbatim>\<open>TRIAL_colorS2\<close>, which \<^verbatim>\<open>set_colors\<close> shuffles in place.
\<close>

record 'c state_Qian =
  random_Qian :: rng
  TRIAL_colorS1 :: "'c list"
  TRIAL_colorS2 :: "'c list"

text \<open>A colour of the discrete script, \<^verbatim>\<open>[r, g, b]\<close> with integer entries.\<close>

type_synonym color_Qian = "int \<times> int \<times> int"

definition palette_Qian :: "color_Qian list" where
  "palette_Qian =
     [(-1, -1, -1), (-1, -1, 1), (-1, 1, -1), (-1, 1, 1),
      (1, -1, -1), (1, -1, 1), (1, 1, -1), (1, 1, 1)]"

text \<open>The module state after \<^verbatim>\<open>random.seed\<close> has left the generator in state \<open>g\<close>.\<close>

definition init_Qian :: "rng \<Rightarrow> color_Qian state_Qian" where
  "init_Qian g = \<lparr> random_Qian = g, TRIAL_colorS1 = palette_Qian, TRIAL_colorS2 = palette_Qian \<rparr>"

text \<open>
  The change branch shared by both \<^verbatim>\<open>set_colors\<close>:
  \<^verbatim>\<open>rand_1 = random.randint(0, self.num_stimuli-1)\<close>,
  \<^verbatim>\<open>rand_2 = random.randint(self.num_stimuli, hi)\<close>, with \<open>hi\<close> the literal of the script
  (13 in the discrete one, 7 in the continuous one).
\<close>

definition draw_change :: "nat \<Rightarrow> int \<Rightarrow> rng \<Rightarrow> error + ((int \<times> int) \<times> rng)" where
  "draw_change n hi g =
     (case randint 0 (int n - 1) g of
        Inl e \<Rightarrow> Inl e
      | Inr (rand_1, g1) \<Rightarrow>
          (case randint (int n) hi g1 of
             Inl e \<Rightarrow> Inl e
           | Inr (rand_2, g2) \<Rightarrow> Inr ((rand_1, rand_2), g2)))"

text \<open>\<^verbatim>\<open>self.probe_colors[rand_1] = self.probe_colors[rand_2]\<close>\<close>

definition replace_probe :: "'c list \<Rightarrow> int \<Rightarrow> int \<Rightarrow> error + 'c list" where
  "replace_probe probe rand_1 rand_2 =
     (case py_getitem probe rand_2 of
        Inl e \<Rightarrow> Inl e
      | Inr c \<Rightarrow> py_setitem probe rand_1 c)"

text \<open>
  The part of \<^verbatim>\<open>set_colors\<close> after the pool \<^verbatim>\<open>TRIAL_colorS\<close> is known, the same in both
  scripts up to the literal \<open>hi\<close>: append the pool to both lists, make the change when
  \<^verbatim>\<open>rep_num % 2 == 0\<close>, cut both lists to \<^verbatim>\<open>num_stimuli\<close>.
\<close>

definition assign_colors :: "int \<Rightarrow> 'c list \<Rightarrow> 'c Trial \<Rightarrow> rng \<Rightarrow> error + ('c Trial \<times> rng)" where
  "assign_colors hi pool t g =
     (let stim = stim_colors t @ pool; probe = probe_colors t @ pool
      in if rep_num t mod 2 = 0
         then (case draw_change (num_stimuli t) hi g of
                 Inl e \<Rightarrow> Inl e
               | Inr ((rand_1, rand_2), g') \<Rightarrow>
                   (case replace_probe probe rand_1 rand_2 of
                      Inl e \<Rightarrow> Inl e
                    | Inr probe' \<Rightarrow>
                        Inr (t\<lparr>change := True,
                               stim_colors := take (num_stimuli t) stim,
                               probe_colors := take (num_stimuli t) probe'\<rparr>, g')))
         else Inr (t\<lparr>stim_colors := take (num_stimuli t) stim,
                     probe_colors := take (num_stimuli t) probe\<rparr>, g))"

text \<open>\<^verbatim>\<open>Trial.set_colors\<close> of the discrete script.\<close>

definition set_colors_Qian :: "'c Trial \<Rightarrow> 'c state_Qian \<Rightarrow> error + ('c Trial \<times> 'c state_Qian)" where
  "set_colors_Qian t s =
     (case shuffle (TRIAL_colorS1 s) (random_Qian s) of
        (c1, g1) \<Rightarrow>
          (case shuffle (TRIAL_colorS2 s) g1 of
             (c2, g2) \<Rightarrow>
               (case assign_colors 13 (c1 @ c2) t g2 of
                  Inl e \<Rightarrow> Inl e
                | Inr (t', g3) \<Rightarrow>
                    Inr (t', \<lparr> random_Qian = g3, TRIAL_colorS1 = c1, TRIAL_colorS2 = c2 \<rparr>))))"

text \<open>
  The body of the loops of \<^verbatim>\<open>set_trials\<close>:
  \<^verbatim>\<open>set_trial = Trial(trial, rep); set_trial.set_positions(); set_trial.set_colors()\<close>.
\<close>

definition new_trial_Qian :: "int \<times> int \<Rightarrow> 'c state_Qian \<Rightarrow> error + ('c Trial \<times> 'c state_Qian)" where
  "new_trial_Qian = (\<lambda>(rep, trial) s.
     (case set_positions (Trial_Qian trial rep) (random_Qian s) of
        (t, g) \<Rightarrow> set_colors_Qian t (s\<lparr>random_Qian := g\<rparr>)))"

text \<open>
  The pairs the nested loops
  \<^verbatim>\<open>for rep in xrange(NUM_REPS): for trial in xrange(NUM_TYPE):\<close> visit, in order.
\<close>

definition loop_pairs :: "nat \<Rightarrow> nat \<Rightarrow> (int \<times> int) list" where
  "loop_pairs NUM_REPS NUM_TYPE =
     concat (map (\<lambda>rep. map (\<lambda>trial. (int rep, int trial)) [0..<NUM_TYPE]) [0..<NUM_REPS])"

text \<open>\<^verbatim>\<open>set_trials\<close> up to the final shuffle: the list \<^verbatim>\<open>test_set\<close> the loops build.\<close>

definition build_test_set_Qian ::
  "nat \<Rightarrow> nat \<Rightarrow> 'c state_Qian \<Rightarrow> error + ('c Trial list \<times> 'c state_Qian)" where
  "build_test_set_Qian NUM_REPS NUM_TYPE s = for_each new_trial_Qian (loop_pairs NUM_REPS NUM_TYPE) s"

text \<open>\<^verbatim>\<open>set_trials\<close> of the discrete script; \<^verbatim>\<open>NUM_REPS\<close> and \<^verbatim>\<open>NUM_TYPE\<close> are the module globals it reads.\<close>

definition set_trials_Qian ::
  "nat \<Rightarrow> nat \<Rightarrow> 'c state_Qian \<Rightarrow> error + ('c Trial list \<times> 'c state_Qian)" where
  "set_trials_Qian NUM_REPS NUM_TYPE s =
     (case build_test_set_Qian NUM_REPS NUM_TYPE s of
        Inl e \<Rightarrow> Inl e
      | Inr (test_set, s') \<Rightarrow>
          (case shuffle test_set (random_Qian s') of
             (test_set', g) \<Rightarrow> Inr (test_set', s'\<lparr>random_Qian := g\<rparr>)))"

section \<open>The continuous script: the generator\<close>

record 'c state_cont =
  random_cont :: rng
  TRIAL_colorS :: "'c list"

text \<open>A colour of the continuous script, \<^verbatim>\<open>[r, g, b]\<close> with float entries, over the reals.\<close>

type_synonym color_cont = "real \<times> real \<times> real"

definition palette_cont :: "color_cont list" where
  "palette_cont =
     [(-1, -1, -1), (-1, -1, 1), (-1, 1, -1), (-1, 1, 1),
      (1, -1, -1), (1, -1, 1), (1, 1, -1), (1, 0.296, -1)]"

definition init_cont :: "rng \<Rightarrow> color_cont state_cont" where
  "init_cont g = \<lparr> random_cont = g, TRIAL_colorS = palette_cont \<rparr>"

text \<open>\<^verbatim>\<open>Trial.set_colors\<close> of the continuous script.\<close>

definition set_colors_cont :: "'c Trial \<Rightarrow> 'c state_cont \<Rightarrow> error + ('c Trial \<times> 'c state_cont)" where
  "set_colors_cont t s =
     (case shuffle (TRIAL_colorS s) (random_cont s) of
        (c, g1) \<Rightarrow>
          (case assign_colors 7 c t g1 of
             Inl e \<Rightarrow> Inl e
           | Inr (t', g2) \<Rightarrow> Inr (t', \<lparr> random_cont = g2, TRIAL_colorS = c \<rparr>)))"

definition new_trial_cont :: "int \<times> int \<Rightarrow> 'c state_cont \<Rightarrow> error + ('c Trial \<times> 'c state_cont)" where
  "new_trial_cont = (\<lambda>(rep, trial) s.
     (case set_positions (Trial_cont trial rep) (random_cont s) of
        (t, g) \<Rightarrow> set_colors_cont t (s\<lparr>random_cont := g\<rparr>)))"

definition build_test_set_cont ::
  "nat \<Rightarrow> nat \<Rightarrow> 'c state_cont \<Rightarrow> error + ('c Trial list \<times> 'c state_cont)" where
  "build_test_set_cont NUM_REPS NUM_TYPE s = for_each new_trial_cont (loop_pairs NUM_REPS NUM_TYPE) s"

definition set_trials_cont ::
  "nat \<Rightarrow> nat \<Rightarrow> 'c state_cont \<Rightarrow> error + ('c Trial list \<times> 'c state_cont)" where
  "set_trials_cont NUM_REPS NUM_TYPE s =
     (case build_test_set_cont NUM_REPS NUM_TYPE s of
        Inl e \<Rightarrow> Inl e
      | Inr (test_set, s') \<Rightarrow>
          (case shuffle test_set (random_cont s') of
             (test_set', g) \<Rightarrow> Inr (test_set', s'\<lparr>random_cont := g\<rparr>)))"

section \<open>The subject dialog and the start of a session\<close>

text \<open>
  What the experimenter does with one subject dialog: cancel it, or confirm it with the
  text typed into the field \<^verbatim>\<open>Subject Number\<close>.
\<close>

datatype dialog = Cancelled | Entered string

text \<open>How \<^verbatim>\<open>setup_subject\<close> ends: \<^verbatim>\<open>core.quit()\<close>, or a return value.\<close>

datatype 'a finished = Quit | Done 'a

text \<open>\<^verbatim>\<open>str.isdigit\<close> on an ASCII string: not empty, and every character a decimal digit.\<close>

definition isdigit :: "string \<Rightarrow> bool" where
  "isdigit s \<longleftrightarrow> s \<noteq> [] \<and> list_all (\<lambda>c. 48 \<le> (of_char c :: nat) \<and> (of_char c :: nat) \<le> 57) s"

text \<open>\<^verbatim>\<open>int(s)\<close> for a string of decimal digits.\<close>

definition int_of_digits :: "string \<Rightarrow> int" where
  "int_of_digits s = foldl (\<lambda>a c. 10 * a + (int (of_char c) - 48)) 0 s"

text \<open>
  \<^verbatim>\<open>setup_subject\<close> (the same text in both scripts). Each round of its \<^verbatim>\<open>while True\<close> shows
  one dialog, so the loop is a recursion over the dialogs the experimenter answers;
  \<open>None\<close> means that the dialog is still open when they end. \<open>isfile\<close> tells whether
  \<^verbatim>\<open>os.path.isfile\<close> holds of the file of that name under \<^verbatim>\<open>SAVE_PATH\<close>. The result is
  the subject number, the file name and the value of the global \<^verbatim>\<open>NUM_REPS\<close> on return.
\<close>

fun setup_subject ::
  "(string \<Rightarrow> bool) \<Rightarrow> nat \<Rightarrow> dialog list \<Rightarrow> (string \<times> string \<times> nat) finished option" where
  "setup_subject isfile NUM_REPS [] = None"
| "setup_subject isfile NUM_REPS (Cancelled # ds) = Some Quit"
| "setup_subject isfile NUM_REPS (Entered subj # ds) =
     (if isdigit subj
      then (let file_name = subj @ ''.csv''
            in if int_of_digits subj = 999 then Some (Done (subj, file_name, 2))
               else if \<not> isfile file_name then Some (Done (subj, file_name, NUM_REPS))
               else setup_subject isfile NUM_REPS ds)
      else setup_subject isfile NUM_REPS ds)"

definition NUM_TYPE_Qian :: nat where
  "NUM_TYPE_Qian = 6"

definition NUM_REPS_Qian :: nat where
  "NUM_REPS_Qian = 50"

definition NUM_TYPE_cont :: nat where
  "NUM_TYPE_cont = 3"

definition NUM_REPS_cont :: nat where
  "NUM_REPS_cont = 50"

text \<open>
  The experiment setup of the discrete script up to \<^verbatim>\<open>test_set = set_trials()\<close>:
  \<^verbatim>\<open>subj_num, subj_file = setup_subject()\<close>, \<^verbatim>\<open>random.seed(int(subj_num))\<close>, \<^verbatim>\<open>set_trials()\<close>.
  \<open>seed\<close> is the state in which \<^verbatim>\<open>random.seed\<close> of the Python library leaves the
  generator; the calls between seeding and \<^verbatim>\<open>set_trials\<close> (writing the header, opening the
  window) are taken not to draw from \<^verbatim>\<open>random\<close>.
\<close>

definition experiment_setup_Qian ::
  "(int \<Rightarrow> rng) \<Rightarrow> (string \<Rightarrow> bool) \<Rightarrow> dialog list \<Rightarrow>
     (error + (color_Qian Trial list \<times> color_Qian state_Qian)) finished option" where
  "experiment_setup_Qian seed isfile ds =
     (case setup_subject isfile NUM_REPS_Qian ds of
        None \<Rightarrow> None
      | Some Quit \<Rightarrow> Some Quit
      | Some (Done (subj_num, subj_file, NUM_REPS)) \<Rightarrow>
          Some (Done (set_trials_Qian NUM_REPS NUM_TYPE_Qian (init_Qian (seed (int_of_digits subj_num))))))"

definition experiment_setup_cont ::
  "(int \<Rightarrow> rng) \<Rightarrow> (string \<Rightarrow> bool) \<Rightarrow> dialog list \<Rightarrow>
     (error + (color_cont Trial list \<times> color_cont state_cont)) finished option" where
  "experiment_setup_cont seed isfile ds =
     (case setup_subject isfile NUM_REPS_cont ds of
        None \<Rightarrow> None
      | Some Quit \<Rightarrow> Some Quit
      | Some (Done (subj_num, subj_file, NUM_REPS)) \<Rightarrow>
          Some (Done (set_trials_cont NUM_REPS NUM_TYPE_cont (init_cont (seed (int_of_digits subj_num))))))"

section \<open>The continuous script: probe and response\<close>

type_synonym point = "real \<times> real"

definition n_circ :: nat where
  "n_circ = 360"

definition loop_radius :: real where
  "loop_radius = 8"

text \<open>\<^verbatim>\<open>np.linspace(start, stop, num, endpoint=False)\<close>\<close>

definition linspace_open :: "real \<Rightarrow> real \<Rightarrow> nat \<Rightarrow> real list" where
  "linspace_open start stop num = map (\<lambda>k. start + real k * ((stop - start) / real num)) [0..<num]"

text \<open>
  The wheel points:
  \<^verbatim>\<open>for theta in np.linspace(0,360,n_circ, endpoint = False):
    xys.append((loop_radius * np.cos(theta*np.pi/180), loop_radius * np.sin(theta*np.pi/180)))\<close>
\<close>

definition xys :: "point list" where
  "xys = map (\<lambda>theta. (loop_radius * cos (theta * pi / 180), loop_radius * sin (theta * pi / 180)))
           (linspace_open 0 360 n_circ)"

text \<open>The Euclidean distance of two points, and of two colours.\<close>

definition point_distance :: "point \<Rightarrow> point \<Rightarrow> real" where
  "point_distance p q = sqrt ((fst p - fst q)\<^sup>2 + (snd p - snd q)\<^sup>2)"

definition color_distance :: "color_cont \<Rightarrow> color_cont \<Rightarrow> real" where
  "color_distance c d =
     (case c of (r1, g1, b1) \<Rightarrow> case d of (r2, g2, b2) \<Rightarrow>
        sqrt ((r1 - r2)\<^sup>2 + (g1 - g2)\<^sup>2 + (b1 - b2)\<^sup>2))"

text \<open>
  \<^verbatim>\<open>np.argmin\<close> of a sequence: the first index of a least entry, ValueError on an empty one.
  \<open>argmin_from best v i ds\<close> scans \<open>ds\<close>, whose first entry has index \<open>i\<close>, with the least
  entry so far \<open>v\<close> at index \<open>best\<close>.
\<close>

fun argmin_from :: "nat \<Rightarrow> real \<Rightarrow> nat \<Rightarrow> real list \<Rightarrow> nat" where
  "argmin_from best v i [] = best"
| "argmin_from best v i (d # ds) =
     (if d < v then argmin_from i d (Suc i) ds else argmin_from best v (Suc i) ds)"

definition argmin :: "real list \<Rightarrow> error + nat" where
  "argmin ds = (case ds of [] \<Rightarrow> Inl ValueError | d # ds' \<Rightarrow> Inr (argmin_from 0 d 1 ds'))"

text \<open>\<^verbatim>\<open>loc = np.argmin(euclidean_distances(stim.xys,[mousePos]))\<close>\<close>

definition nearest :: "point \<Rightarrow> error + nat" where
  "nearest mousePos = argmin (map (\<lambda>p. point_distance p mousePos) xys)"


text \<open>
  What the mouse reports during one round of \<^verbatim>\<open>while pressed\<close>: the position read by
  \<^verbatim>\<open>mouse.getPos()\<close> in round \<open>target\<close> of the inner loop, the positions
  \<^verbatim>\<open>mask1.contains(mouse)\<close> and \<^verbatim>\<open>mask2.contains(mouse)\<close> read, and the buttons read by
  \<^verbatim>\<open>mouse.getPressed()\<close> after the flip.
\<close>

record frame =
  mouse_at :: "nat \<Rightarrow> point"
  mouse_mask1 :: point
  mouse_mask2 :: point
  buttons :: "bool list"

text \<open>
  The loop over the targets inside \<^verbatim>\<open>while pressed\<close>. Its variables are \<^verbatim>\<open>loc\<close> (unbound
  before the first assignment) and the fill colour of the probed square (\<open>None\<close> for
  \<^verbatim>\<open>setFillColor(None)\<close>). \<open>rgb k\<close> is \<^verbatim>\<open>rgb[k,:,:][0]\<close>, the colour of wheel point \<open>k\<close> as
  \<^verbatim>\<open>misc.hsv2rgb\<close> of PsychoPy computed it; \<open>mask1\<close> and \<open>mask2\<close> are the \<^verbatim>\<open>contains\<close>
  tests of the two circles of radius \<^verbatim>\<open>loop_radius-0.5\<close> and \<^verbatim>\<open>loop_radius+0.5\<close>. The
  calls that only draw are left out.
\<close>

fun poll_targets ::
  "(nat \<Rightarrow> color_cont) \<Rightarrow> (point \<Rightarrow> bool) \<Rightarrow> (point \<Rightarrow> bool) \<Rightarrow> nat \<Rightarrow> frame \<Rightarrow> nat list \<Rightarrow>
     nat option \<times> color_cont option \<Rightarrow> error + (nat option \<times> color_cont option)" where
  "poll_targets rgb mask1 mask2 probe f [] st = Inr st"
| "poll_targets rgb mask1 mask2 probe f (target # ts) (loc, fill) =
     (case nearest (mouse_at f target) of
        Inl e \<Rightarrow> Inl e
      | Inr loc' \<Rightarrow>
          poll_targets rgb mask1 mask2 probe f ts
            (Some loc',
             if target = probe
             then (if \<not> mask1 (mouse_mask1 f) \<and> mask2 (mouse_mask2 f) then Some (rgb loc') else None)
             else fill))"

text \<open>
  The loop \<^verbatim>\<open>while pressed\<close>, one round per frame. The result is the fill colour of the
  probed square at each flip and, when a round saw a button pressed,
  \<^verbatim>\<open>(sub_resp_Color, judgement_Error)\<close>; the second part is \<open>None\<close> when the frames end
  with the loop still polling.
\<close>

fun response_loop ::
  "(nat \<Rightarrow> color_cont) \<Rightarrow> (point \<Rightarrow> bool) \<Rightarrow> (point \<Rightarrow> bool) \<Rightarrow> nat \<Rightarrow> nat \<Rightarrow> color_cont \<Rightarrow>
     nat option \<times> color_cont option \<Rightarrow> frame list \<Rightarrow>
     error + (color_cont option list \<times> (color_cont \<times> real) option)" where
  "response_loop rgb mask1 mask2 n probe probe_Color st [] = Inr ([], None)"
| "response_loop rgb mask1 mask2 n probe probe_Color st (f # fs) =
     (case poll_targets rgb mask1 mask2 probe f [0..<n] st of
        Inl e \<Rightarrow> Inl e
      | Inr (loc, fill) \<Rightarrow>
          if list_ex (\<lambda>b. b) (buttons f)
          then (case loc of
                  None \<Rightarrow> Inl NameError
                | Some l \<Rightarrow> Inr ([fill], Some (rgb l, color_distance (rgb l) probe_Color)))
          else (case response_loop rgb mask1 mask2 n probe probe_Color (loc, fill) fs of
                  Inl e \<Rightarrow> Inl e
                | Inr (fills, r) \<Rightarrow> Inr (fill # fills, r)))"


text \<open>A disc of radius \<open>r\<close> around the centre, the region a circle stimulus stands for.\<close>

definition disc :: "real \<Rightarrow> point \<Rightarrow> bool" where
  "disc r p \<longleftrightarrow> (fst p)\<^sup>2 + (snd p)\<^sup>2 \<le> r\<^sup>2"

section \<open>Predicates used in the proofs\<close>

definition trial_spec :: "nat \<Rightarrow> int \<Rightarrow> 'c list \<Rightarrow> int \<Rightarrow> int \<Rightarrow> 'c Trial \<Rightarrow> bool" where
  "trial_spec n hi pool rep trial t \<longleftrightarrow>
     rep_num t = rep \<and> trial_num t = trial \<and> num_stimuli t = n \<and>
     (\<exists>ps. mset ps = mset (map ring_position [0..<12]) \<and> stim_positions t = take n ps) \<and>
     stim_colors t = take n pool \<and>
     (if rep mod 2 = 0
      then change t \<and>
           (\<exists>i j. i < n \<and> n \<le> j \<and> int j \<le> hi \<and> probe_colors t = take n (pool[i := pool ! j]))
      else \<not> change t \<and> probe_colors t = take n pool)"

definition inv_Qian :: "color_Qian state_Qian \<Rightarrow> bool" where
  "inv_Qian s \<longleftrightarrow>
     mset (TRIAL_colorS1 s) = mset palette_Qian \<and> mset (TRIAL_colorS2 s) = mset palette_Qian"

definition colors_spec :: "int \<Rightarrow> 'c list \<Rightarrow> 'c Trial \<Rightarrow> 'c Trial \<Rightarrow> bool" where
  "colors_spec hi pool t t' \<longleftrightarrow>
     (if rep_num t mod 2 = 0
      then \<exists>i j. i < num_stimuli t \<and> num_stimuli t \<le> j \<and> int j \<le> hi \<and>
             t' = t\<lparr>change := True, stim_colors := take (num_stimuli t) pool,
                    probe_colors := take (num_stimuli t) (pool[i := pool ! j])\<rparr>
      else t' = t\<lparr>stim_colors := take (num_stimuli t) pool,
                  probe_colors := take (num_stimuli t) pool\<rparr>)"

definition inv_cont :: "color_cont state_cont \<Rightarrow> bool" where
  "inv_cont s \<longleftrightarrow> mset (TRIAL_colorS s) = mset palette_cont"

definition made_Qian :: "int \<times> int \<Rightarrow> color_Qian Trial \<Rightarrow> bool" where
  "made_Qian p t \<longleftrightarrow>
     (\<exists>c1 c2. mset c1 = mset palette_Qian \<and> mset c2 = mset palette_Qian \<and>
        trial_spec (num_stimuli (Trial_Qian (snd p) (fst p) :: color_Qian Trial)) 13 (c1 @ c2) (fst p) (snd p) t)"

definition made_cont :: "int \<times> int \<Rightarrow> color_cont Trial \<Rightarrow> bool" where
  "made_cont p t \<longleftrightarrow>
     (\<exists>c. mset c = mset palette_cont \<and>
        trial_spec (num_stimuli (Trial_cont (snd p) (fst p) :: color_cont Trial)) 7 c (fst p) (snd p) t)"

text \<open>The wheel index \<^verbatim>\<open>loc\<close> computed for a pointer position (the search never fails).\<close>

definition wheel_index :: "point \<Rightarrow> nat" where
  "wheel_index p = (case nearest p of Inr loc \<Rightarrow> loc | Inl e \<Rightarrow> 0)"

text \<open>The fill of the probed square after one round of \<^verbatim>\<open>while pressed\<close>.\<close>

definition shown_fill ::
  "(nat \<Rightarrow> color_cont) \<Rightarrow> (point \<Rightarrow> bool) \<Rightarrow> (point \<Rightarrow> bool) \<Rightarrow> nat \<Rightarrow> frame \<Rightarrow> color_cont option" where
  "shown_fill rgb mask1 mask2 probe f =
     (if \<not> mask1 (mouse_mask1 f) \<and> mask2 (mouse_mask2 f)
      then Some (rgb (wheel_index (mouse_at f probe))) else None)"

text \<open>\<^verbatim>\<open>any(buttons)\<close>\<close>

definition any_button :: "frame \<Rightarrow> bool" where
  "any_button f = list_ex (\<lambda>b. b) (buttons f)"

text \<open>A round of \<^verbatim>\<open>while pressed\<close> during which the pointer rests at \<open>p\<close>, with buttons \<open>bs\<close>.\<close>

definition still_frame :: "point \<Rightarrow> bool list \<Rightarrow> frame" where
  "still_frame p bs = \<lparr> mouse_at = (\<lambda>target. p), mouse_mask1 = p, mouse_mask2 = p, buttons = bs \<rparr>"




section \<open>Facts about the runtime pieces\<close>

lemma randbelow_less: "0 < n \<Longrightarrow> fst (randbelow n g) < n"
  by (cases g) simp_all

lemma length_swap: "length (swap xs i j) = length xs"
  by (simp add: swap_def)

lemma mset_swap_list: "i < length xs \<Longrightarrow> j < length xs \<Longrightarrow> mset (swap xs i j) = mset xs"
  unfolding swap_def by (rule mset_swap)

lemma mset_shuffle_from: "i < length xs \<Longrightarrow> mset (fst (shuffle_from i xs g)) = mset xs"
proof (induction i arbitrary: xs g)
  case 0
  then show ?case by simp
next
  case (Suc i)
  obtain j g' where r: "randbelow (Suc (Suc i)) g = (j, g')"
    by (cases "randbelow (Suc (Suc i)) g")
  have "j < Suc (Suc i)"
    using randbelow_less [of "Suc (Suc i)" g] r by simp
  with Suc.prems have j: "j < length xs" by simp
  have "mset (fst (shuffle_from i (swap xs (Suc i) j) g')) = mset (swap xs (Suc i) j)"
    using Suc.prems by (intro Suc.IH) (simp add: length_swap)
  also have "\<dots> = mset xs"
    using Suc.prems j by (rule mset_swap_list)
  finally show ?case by (simp add: r)
qed

lemma mset_shuffle: "mset (fst (shuffle xs g)) = mset xs"
proof (cases xs)
  case Nil
  then show ?thesis by (simp add: shuffle_def)
next
  case (Cons x ys)
  then show ?thesis
    unfolding shuffle_def by (intro mset_shuffle_from) simp
qed

lemma length_shuffle: "length (fst (shuffle xs g)) = length xs"
  by (metis mset_shuffle size_mset)

lemma set_shuffle: "set (fst (shuffle xs g)) = set xs"
  by (metis mset_shuffle set_mset_mset)

lemma distinct_shuffle: "distinct (fst (shuffle xs g)) = distinct xs"
  by (rule mset_eq_imp_distinct_iff) (rule mset_shuffle)

lemma snd_randbelow: "snd (randbelow n g) = drop 1 g"
  by (cases g) simp_all

lemma snd_shuffle_from: "snd (shuffle_from i xs g) = drop i g"
proof (induction i arbitrary: xs g)
  case 0
  then show ?case by simp
next
  case (Suc i)
  show ?case
    using Suc.IH [of "swap xs (Suc i) (fst (randbelow (Suc (Suc i)) g))" "snd (randbelow (Suc (Suc i)) g)"]
    by (simp add: case_prod_beta snd_randbelow)
qed

lemma snd_shuffle: "snd (shuffle xs g) = drop (length xs - 1) g"
  by (simp add: shuffle_def snd_shuffle_from)

lemma set_positions_eq:
  "set_positions t g =
     (t\<lparr>stim_positions := take (num_stimuli t) (fst (shuffle (stim_positions t @ map ring_position [0..<12]) g))\<rparr>,
      snd (shuffle (stim_positions t @ map ring_position [0..<12]) g))"
  by (simp add: set_positions_def case_prod_beta)

lemma ring_position_inj:
  assumes "a < 12" "b < 12" "ring_position a = ring_position b"
  shows "a = b"
proof -
  have c: "cos (real a * pi / 6) = cos (real b * pi / 6)"
    and s: "sin (real a * pi / 6) = sin (real b * pi / 6)"
    using assms(3) by (simp_all add: ring_position_def radians_def STIM_POS_RADIUS_def mult.commute)
  from s c obtain n :: int where n: "real a * pi / 6 = real b * pi / 6 + 2 * pi * real_of_int n"
    using sin_cos_eq_iff [of "real a * pi / 6" "real b * pi / 6"] by auto
  have "pi * real a = pi * (real b + 12 * real_of_int n)"
    using n by (simp add: algebra_simps)
  then have "real a = real b + 12 * real_of_int n"
    by simp
  then have "int a = int b + 12 * n"
    by (metis (mono_tags) of_int_add of_int_eq_iff of_int_mult of_int_numeral of_int_of_nat_eq)
  with assms(1,2) show ?thesis by presburger
qed

lemma distinct_ring: "distinct (map ring_position [0..<12])"
  by (auto simp: distinct_map inj_on_def dest: ring_position_inj)

lemma randint_Inr:
  "randint a b g = Inr (r, g') \<Longrightarrow> a \<le> r \<and> r \<le> b \<and> g' = drop 1 g"
  using randbelow_less [of "nat (b + 1 - a)" g] snd_randbelow [of "nat (b + 1 - a)" g]
  by (auto simp: randint_def case_prod_beta split: if_splits)

lemma randint_ok:
  "a \<le> b \<Longrightarrow> \<exists>r. randint a b g = Inr (r, drop 1 g) \<and> a \<le> r \<and> r \<le> b"
  using randbelow_less [of "nat (b + 1 - a)" g] snd_randbelow [of "nat (b + 1 - a)" g]
  by (auto simp: randint_def case_prod_beta)

lemma randint_empty: "b < a \<Longrightarrow> randint a b g = Inl ValueError"
  by (simp add: randint_def)

lemma randint_Inl: "randint a b g = Inl e \<Longrightarrow> e = ValueError \<and> b < a"
  by (auto simp: randint_def case_prod_beta split: if_splits)


lemma draw_change_ok:
  assumes "0 < n" "int n \<le> hi"
  shows "\<exists>r1 r2. draw_change n hi g = Inr ((r1, r2), drop 2 g) \<and>
           0 \<le> r1 \<and> r1 < int n \<and> int n \<le> r2 \<and> r2 \<le> hi"
proof -
  obtain r1 where r1: "randint 0 (int n - 1) g = Inr (r1, drop 1 g)" "0 \<le> r1" "r1 \<le> int n - 1"
    using randint_ok [of 0 "int n - 1" g] assms(1) by auto
  obtain r2 where r2: "randint (int n) hi (drop 1 g) = Inr (r2, drop 1 (drop 1 g))" "int n \<le> r2" "r2 \<le> hi"
    using randint_ok [of "int n" hi "drop 1 g"] assms(2) by auto
  show ?thesis
    using r1 r2 by (simp add: draw_change_def numeral_2_eq_2)
qed

lemma draw_change_Inl:
  "n = 0 \<or> hi < int n \<Longrightarrow> draw_change n hi g = Inl ValueError"
  by (auto simp: draw_change_def randint_empty split: sum.splits dest!: randint_Inr randint_Inl)

lemma replace_probe_ok:
  "0 \<le> r1 \<Longrightarrow> r1 < int (length probe) \<Longrightarrow> 0 \<le> r2 \<Longrightarrow> r2 < int (length probe) \<Longrightarrow>
     replace_probe probe r1 r2 = Inr (probe[nat r1 := probe ! nat r2])"
  by (simp add: replace_probe_def py_getitem_def py_setitem_def)

lemma assign_colors_odd:
  "rep_num t mod 2 \<noteq> 0 \<Longrightarrow>
     assign_colors hi pool t g =
       Inr (t\<lparr>stim_colors := take (num_stimuli t) (stim_colors t @ pool),
              probe_colors := take (num_stimuli t) (probe_colors t @ pool)\<rparr>, g)"
  by (simp add: assign_colors_def)

lemma assign_colors_even_Inl:
  "rep_num t mod 2 = 0 \<Longrightarrow> num_stimuli t = 0 \<or> hi < int (num_stimuli t) \<Longrightarrow>
     assign_colors hi pool t g = Inl ValueError"
  by (simp add: assign_colors_def draw_change_Inl)

lemma assign_colors_even_ok:
  assumes "rep_num t mod 2 = 0" "0 < num_stimuli t" "int (num_stimuli t) \<le> hi"
    and "hi < int (length (probe_colors t @ pool))"
  shows "\<exists>i j. i < num_stimuli t \<and> num_stimuli t \<le> j \<and> int j \<le> hi \<and>
           assign_colors hi pool t g =
             Inr (t\<lparr>change := True,
                    stim_colors := take (num_stimuli t) (stim_colors t @ pool),
                    probe_colors := take (num_stimuli t)
                      ((probe_colors t @ pool)[i := (probe_colors t @ pool) ! j])\<rparr>, drop 2 g)"
proof -
  obtain r1 r2 where d: "draw_change (num_stimuli t) hi g = Inr ((r1, r2), drop 2 g)"
    and r: "0 \<le> r1" "r1 < int (num_stimuli t)" "int (num_stimuli t) \<le> r2" "r2 \<le> hi"
    using draw_change_ok [OF assms(2,3), of g] by blast
  have "replace_probe (probe_colors t @ pool) r1 r2 =
          Inr ((probe_colors t @ pool)[nat r1 := (probe_colors t @ pool) ! nat r2])"
    using r assms(3,4) by (intro replace_probe_ok) linarith+
  then have "assign_colors hi pool t g =
      Inr (t\<lparr>change := True,
             stim_colors := take (num_stimuli t) (stim_colors t @ pool),
             probe_colors := take (num_stimuli t)
               ((probe_colors t @ pool)[nat r1 := (probe_colors t @ pool) ! nat r2])\<rparr>, drop 2 g)"
    using assms(1) d by (simp add: assign_colors_def)
  moreover have "nat r1 < num_stimuli t" "num_stimuli t \<le> nat r2" "int (nat r2) \<le> hi"
    using r by linarith+
  ultimately show ?thesis by blast
qed

lemma assign_colors_ok:
  assumes "stim_colors t = []" "probe_colors t = []"
    and "rep_num t mod 2 = 0 \<Longrightarrow> 0 < num_stimuli t \<and> int (num_stimuli t) \<le> hi \<and> hi < int (length pool)"
  shows "\<exists>t' g'. assign_colors hi pool t g = Inr (t', g') \<and> colors_spec hi pool t t'"
proof (cases "rep_num t mod 2 = 0")
  case True
  then show ?thesis
    using assign_colors_even_ok [of t hi pool g] assms
    by (auto simp: colors_spec_def)
next
  case False
  then show ?thesis
    using assign_colors_odd [of t hi pool g] assms(1,2)
    by (simp add: colors_spec_def)
qed

lemma set_colors_Qian_ok:
  assumes "inv_Qian s" "stim_colors t = []" "probe_colors t = []"
    and "rep_num t mod 2 = 0 \<Longrightarrow> 0 < num_stimuli t \<and> num_stimuli t \<le> 13"
  shows "\<exists>t' s' c1 c2. set_colors_Qian t s = Inr (t', s') \<and> inv_Qian s' \<and>
           mset c1 = mset palette_Qian \<and> mset c2 = mset palette_Qian \<and>
           colors_spec 13 (c1 @ c2) t t'"
proof -
  obtain c1 g1 where s1: "shuffle (TRIAL_colorS1 s) (random_Qian s) = (c1, g1)"
    by (cases "shuffle (TRIAL_colorS1 s) (random_Qian s)")
  obtain c2 g2 where s2: "shuffle (TRIAL_colorS2 s) g1 = (c2, g2)"
    by (cases "shuffle (TRIAL_colorS2 s) g1")
  have c1: "mset c1 = mset palette_Qian"
    using mset_shuffle [of "TRIAL_colorS1 s" "random_Qian s"] assms(1) s1 by (simp add: inv_Qian_def)
  have c2: "mset c2 = mset palette_Qian"
    using mset_shuffle [of "TRIAL_colorS2 s" g1] assms(1) s2 by (simp add: inv_Qian_def)
  have "length c1 = length palette_Qian" "length c2 = length palette_Qian"
    using c1 c2 by (metis size_mset)+
  then have len: "length (c1 @ c2) = 16"
    by (simp add: palette_Qian_def)
  obtain t' g' where a: "assign_colors 13 (c1 @ c2) t g2 = Inr (t', g')"
    and spec: "colors_spec 13 (c1 @ c2) t t'"
    using assign_colors_ok [of t 13 "c1 @ c2" g2] assms(2,3,4) len by auto
  have "set_colors_Qian t s = Inr (t', \<lparr> random_Qian = g', TRIAL_colorS1 = c1, TRIAL_colorS2 = c2 \<rparr>)"
    by (simp add: set_colors_Qian_def s1 s2 a)
  moreover have "inv_Qian \<lparr> random_Qian = g', TRIAL_colorS1 = c1, TRIAL_colorS2 = c2 \<rparr>"
    using c1 c2 by (simp add: inv_Qian_def)
  ultimately show ?thesis
    using c1 c2 spec by blast
qed

lemma colors_spec_trial_spec:
  assumes "colors_spec hi pool t t'" "\<not> change t"
    and "mset ps = mset (map ring_position [0..<12])" "stim_positions t = take (num_stimuli t) ps"
  shows "trial_spec (num_stimuli t) hi pool (rep_num t) (trial_num t) t'"
proof (cases "rep_num t mod 2 = 0")
  case True
  then obtain i j where ij: "i < num_stimuli t" "num_stimuli t \<le> j" "int j \<le> hi"
    and t': "t' = t\<lparr>change := True, stim_colors := take (num_stimuli t) pool,
                    probe_colors := take (num_stimuli t) (pool[i := pool ! j])\<rparr>"
    using assms(1) unfolding colors_spec_def by auto
  have "\<exists>i j. i < num_stimuli t \<and> num_stimuli t \<le> j \<and> int j \<le> hi \<and>
          probe_colors t' = take (num_stimuli t) (pool[i := pool ! j])"
    using ij t' by auto
  moreover have "\<exists>ps. mset ps = mset (map ring_position [0..<12]) \<and>
      stim_positions t' = take (num_stimuli t) ps"
    using assms(3,4) t' by auto
  ultimately show ?thesis
    unfolding trial_spec_def using True t' by simp
next
  case False
  then have t': "t' = t\<lparr>stim_colors := take (num_stimuli t) pool,
                  probe_colors := take (num_stimuli t) pool\<rparr>"
    using assms(1) unfolding colors_spec_def by simp
  have "\<exists>ps. mset ps = mset (map ring_position [0..<12]) \<and>
      stim_positions t' = take (num_stimuli t) ps"
    using assms(3,4) t' by auto
  then show ?thesis
    unfolding trial_spec_def using False t' assms(2) by simp
qed

lemma new_trial_Qian_ok:
  assumes "inv_Qian s" "0 \<le> trial" "trial < 6"
  shows "\<exists>t s' c1 c2. new_trial_Qian (rep, trial) s = Inr (t, s') \<and> inv_Qian s' \<and>
           mset c1 = mset palette_Qian \<and> mset c2 = mset palette_Qian \<and>
           trial_spec (num_stimuli (Trial_Qian trial rep :: color_Qian Trial)) 13 (c1 @ c2) rep trial t"
proof -
  define T0 :: "color_Qian Trial" where "T0 = Trial_Qian trial rep"
  define n where "n = num_stimuli T0"
  define ps where "ps = fst (shuffle (map ring_position [0..<12]) (random_Qian s))"
  define g1 where "g1 = snd (shuffle (map ring_position [0..<12]) (random_Qian s))"
  define t1 where "t1 = T0\<lparr>stim_positions := take n ps\<rparr>"
  have n_cases: "n \<in> {1, 2, 3, 4, 8, 12}"
    using assms(2,3) unfolding n_def T0_def Trial_Qian_def by auto
  have T0: "rep_num T0 = rep" "trial_num T0 = trial" "stim_positions T0 = []"
    "stim_colors T0 = []" "probe_colors T0 = []" "\<not> change T0"
    by (simp_all add: T0_def Trial_Qian_def)
  have pos: "set_positions T0 (random_Qian s) = (t1, g1)"
    by (simp add: set_positions_eq T0 t1_def g1_def ps_def n_def)
  have step: "new_trial_Qian (rep, trial) s = set_colors_Qian t1 (s\<lparr>random_Qian := g1\<rparr>)"
    by (simp add: new_trial_Qian_def pos T0_def [symmetric])
  have t1: "rep_num t1 = rep" "trial_num t1 = trial" "num_stimuli t1 = n"
    "stim_positions t1 = take n ps" "stim_colors t1 = []" "probe_colors t1 = []" "\<not> change t1"
    by (simp_all add: t1_def T0 n_def)
  have ps: "mset ps = mset (map ring_position [0..<12])"
    unfolding ps_def by (rule mset_shuffle)
  have "inv_Qian (s\<lparr>random_Qian := g1\<rparr>)"
    using assms(1) by (simp add: inv_Qian_def)
  moreover have "0 < num_stimuli t1 \<and> num_stimuli t1 \<le> 13"
    using n_cases by (auto simp: t1)
  ultimately obtain t' s' c1 c2 where r: "set_colors_Qian t1 (s\<lparr>random_Qian := g1\<rparr>) = Inr (t', s')"
    "inv_Qian s'" "mset c1 = mset palette_Qian" "mset c2 = mset palette_Qian"
    "colors_spec 13 (c1 @ c2) t1 t'"
    using set_colors_Qian_ok [of "s\<lparr>random_Qian := g1\<rparr>" t1] t1(5,6) by blast
  have "trial_spec n 13 (c1 @ c2) rep trial t'"
    using colors_spec_trial_spec [OF r(5) t1(7) ps] by (simp add: t1)
  then show ?thesis
    unfolding step n_def T0_def using r(1-4) by blast
qed

lemma set_colors_cont_ok:
  assumes "inv_cont s" "stim_colors t = []" "probe_colors t = []"
    and "rep_num t mod 2 = 0 \<Longrightarrow> 0 < num_stimuli t \<and> num_stimuli t \<le> 7"
  shows "\<exists>t' s' c. set_colors_cont t s = Inr (t', s') \<and> inv_cont s' \<and>
           mset c = mset palette_cont \<and> colors_spec 7 c t t'"
proof -
  obtain c g1 where s1: "shuffle (TRIAL_colorS s) (random_cont s) = (c, g1)"
    by (cases "shuffle (TRIAL_colorS s) (random_cont s)")
  have c: "mset c = mset palette_cont"
    using mset_shuffle [of "TRIAL_colorS s" "random_cont s"] assms(1) s1 by (simp add: inv_cont_def)
  have "length c = length palette_cont"
    using c by (metis size_mset)
  then have len: "length c = 8"
    by (simp add: palette_cont_def)
  obtain t' g' where a: "assign_colors 7 c t g1 = Inr (t', g')"
    and spec: "colors_spec 7 c t t'"
    using assign_colors_ok [of t 7 c g1] assms(2,3,4) len by auto
  have "set_colors_cont t s = Inr (t', \<lparr> random_cont = g', TRIAL_colorS = c \<rparr>)"
    by (simp add: set_colors_cont_def s1 a)
  moreover have "inv_cont \<lparr> random_cont = g', TRIAL_colorS = c \<rparr>"
    using c by (simp add: inv_cont_def)
  ultimately show ?thesis
    using c spec by blast
qed

lemma new_trial_cont_ok:
  assumes "inv_cont s" "0 \<le> trial" "trial < 3"
  shows "\<exists>t s' c. new_trial_cont (rep, trial) s = Inr (t, s') \<and> inv_cont s' \<and>
           mset c = mset palette_cont \<and>
           trial_spec (num_stimuli (Trial_cont trial rep :: color_cont Trial)) 7 c rep trial t"
proof -
  define T0 :: "color_cont Trial" where "T0 = Trial_cont trial rep"
  define n where "n = num_stimuli T0"
  define ps where "ps = fst (shuffle (map ring_position [0..<12]) (random_cont s))"
  define g1 where "g1 = snd (shuffle (map ring_position [0..<12]) (random_cont s))"
  define t1 where "t1 = T0\<lparr>stim_positions := take n ps\<rparr>"
  have n_cases: "n \<in> {2, 4, 6}"
    using assms(2,3) unfolding n_def T0_def Trial_cont_def by auto
  have T0: "rep_num T0 = rep" "trial_num T0 = trial" "stim_positions T0 = []"
    "stim_colors T0 = []" "probe_colors T0 = []" "\<not> change T0"
    by (simp_all add: T0_def Trial_cont_def)
  have pos: "set_positions T0 (random_cont s) = (t1, g1)"
    by (simp add: set_positions_eq T0 t1_def g1_def ps_def n_def)
  have step: "new_trial_cont (rep, trial) s = set_colors_cont t1 (s\<lparr>random_cont := g1\<rparr>)"
    by (simp add: new_trial_cont_def pos T0_def [symmetric])
  have t1: "rep_num t1 = rep" "trial_num t1 = trial" "num_stimuli t1 = n"
    "stim_positions t1 = take n ps" "stim_colors t1 = []" "probe_colors t1 = []" "\<not> change t1"
    by (simp_all add: t1_def T0 n_def)
  have ps: "mset ps = mset (map ring_position [0..<12])"
    unfolding ps_def by (rule mset_shuffle)
  have "inv_cont (s\<lparr>random_cont := g1\<rparr>)"
    using assms(1) by (simp add: inv_cont_def)
  moreover have "0 < num_stimuli t1 \<and> num_stimuli t1 \<le> 7"
    using n_cases by (auto simp: t1)
  ultimately obtain t' s' c where r: "set_colors_cont t1 (s\<lparr>random_cont := g1\<rparr>) = Inr (t', s')"
    "inv_cont s'" "mset c = mset palette_cont" "colors_spec 7 c t1 t'"
    using set_colors_cont_ok [of "s\<lparr>random_cont := g1\<rparr>" t1] t1(5,6) by blast
  have "trial_spec n 7 c rep trial t'"
    using colors_spec_trial_spec [OF r(4) t1(7) ps] by (simp add: t1)
  then show ?thesis
    unfolding step n_def T0_def using r(1-3) by blast
qed

text \<open>A loop whose body keeps an invariant and succeeds under it succeeds.\<close>

lemma for_each_ok:
  assumes "I s"
    and "\<And>a s. a \<in> set as \<Longrightarrow> I s \<Longrightarrow> \<exists>b s'. f a s = Inr (b, s') \<and> I s' \<and> Q a b"
  shows "\<exists>bs s'. for_each f as s = Inr (bs, s') \<and> I s' \<and> list_all2 Q as bs"
  using assms
proof (induction as arbitrary: s)
  case Nil
  then show ?case by simp
next
  case (Cons a as)
  obtain b s1 where b: "f a s = Inr (b, s1)" "I s1" "Q a b"
    using Cons.prems(2) [of a s] Cons.prems(1) by auto
  obtain bs s2 where bs: "for_each f as s1 = Inr (bs, s2)" "I s2" "list_all2 Q as bs"
    using Cons.IH [OF b(2)] Cons.prems(2) by (metis list.set_intros(2))
  show ?case
    using b bs by simp
qed

lemma for_each_stops:
  assumes "for_each f as s = Inr (bs, s')" "f a s' = Inl e"
  shows "for_each f (as @ a # cs) s = Inl e"
  using assms
proof (induction as arbitrary: s bs)
  case Nil
  then show ?case by simp
next
  case (Cons x xs)
  then show ?case
    by (auto split: sum.splits prod.splits)
qed

lemma loop_pairs_set:
  "(rep, trial) \<in> set (loop_pairs R T) \<Longrightarrow> 0 \<le> trial \<and> trial < int T \<and> 0 \<le> rep \<and> rep < int R"
  by (auto simp: loop_pairs_def)


lemma build_test_set_Qian_ok:
  assumes "T \<le> 6" "inv_Qian s"
  shows "\<exists>ts s'. build_test_set_Qian R T s = Inr (ts, s') \<and> inv_Qian s' \<and>
           list_all2 made_Qian (loop_pairs R T) ts"
  unfolding build_test_set_Qian_def
proof (rule for_each_ok [where I = inv_Qian, OF assms(2)])
  fix a s
  assume a: "a \<in> set (loop_pairs R T)" and s: "inv_Qian s"
  obtain rep trial where p: "a = (rep, trial)" by (cases a)
  have "0 \<le> trial" "trial < 6"
    using loop_pairs_set [of rep trial R T] a assms(1) by (auto simp: p)
  from new_trial_Qian_ok [OF s this, of rep]
  show "\<exists>b s'. new_trial_Qian a s = Inr (b, s') \<and> inv_Qian s' \<and> made_Qian a b"
    unfolding made_Qian_def p by auto
qed

lemma build_test_set_cont_ok:
  assumes "T \<le> 3" "inv_cont s"
  shows "\<exists>ts s'. build_test_set_cont R T s = Inr (ts, s') \<and> inv_cont s' \<and>
           list_all2 made_cont (loop_pairs R T) ts"
  unfolding build_test_set_cont_def
proof (rule for_each_ok [where I = inv_cont, OF assms(2)])
  fix a s
  assume a: "a \<in> set (loop_pairs R T)" and s: "inv_cont s"
  obtain rep trial where p: "a = (rep, trial)" by (cases a)
  have "0 \<le> trial" "trial < 3"
    using loop_pairs_set [of rep trial R T] a assms(1) by (auto simp: p)
  from new_trial_cont_ok [OF s this, of rep]
  show "\<exists>b s'. new_trial_cont a s = Inr (b, s') \<and> inv_cont s' \<and> made_cont a b"
    unfolding made_cont_def p by auto
qed

lemma inv_init_Qian: "inv_Qian (init_Qian g)"
  by (simp add: inv_Qian_def init_Qian_def)

lemma inv_init_cont: "inv_cont (init_cont g)"
  by (simp add: inv_cont_def init_cont_def)

lemma set_trials_Qian_ok:
  assumes "T \<le> 6"
  shows "\<exists>built s1 ts s'. build_test_set_Qian R T (init_Qian g) = Inr (built, s1) \<and>
           list_all2 made_Qian (loop_pairs R T) built \<and>
           set_trials_Qian R T (init_Qian g) = Inr (ts, s') \<and> mset ts = mset built"
proof -
  obtain built s1 where b: "build_test_set_Qian R T (init_Qian g) = Inr (built, s1)"
    "list_all2 made_Qian (loop_pairs R T) built"
    using build_test_set_Qian_ok [OF assms inv_init_Qian, of R g] by blast
  have "set_trials_Qian R T (init_Qian g) =
      Inr (fst (shuffle built (random_Qian s1)),
           s1\<lparr>random_Qian := snd (shuffle built (random_Qian s1))\<rparr>)"
    by (simp add: set_trials_Qian_def b case_prod_beta)
  then show ?thesis
    using b mset_shuffle [of built "random_Qian s1"] by blast
qed

lemma set_trials_cont_ok:
  assumes "T \<le> 3"
  shows "\<exists>built s1 ts s'. build_test_set_cont R T (init_cont g) = Inr (built, s1) \<and>
           list_all2 made_cont (loop_pairs R T) built \<and>
           set_trials_cont R T (init_cont g) = Inr (ts, s') \<and> mset ts = mset built"
proof -
  obtain built s1 where b: "build_test_set_cont R T (init_cont g) = Inr (built, s1)"
    "list_all2 made_cont (loop_pairs R T) built"
    using build_test_set_cont_ok [OF assms inv_init_cont, of R g] by blast
  have "set_trials_cont R T (init_cont g) =
      Inr (fst (shuffle built (random_cont s1)),
           s1\<lparr>random_cont := snd (shuffle built (random_cont s1))\<rparr>)"
    by (simp add: set_trials_cont_def b case_prod_beta)
  then show ?thesis
    using b mset_shuffle [of built "random_cont s1"] by blast
qed

lemma list_all2_mset_set:
  assumes "list_all2 Q as bs" "mset ts = mset bs" "t \<in> set ts"
  shows "\<exists>a\<in>set as. Q a t"
proof -
  have "t \<in> set bs"
    using assms(2,3) by (metis set_mset_mset)
  then obtain i where "i < length bs" "bs ! i = t"
    by (auto simp: in_set_conv_nth)
  then have "as ! i \<in> set as" "Q (as ! i) t"
    using assms(1) by (auto simp: list_all2_conv_all_nth)
  then show ?thesis by blast
qed

lemma made_Qian_pair: "made_Qian p t \<Longrightarrow> (rep_num t, trial_num t) = p"
  by (auto simp: made_Qian_def trial_spec_def)








lemma ring_position_angle:
  "ring_position k =
     (STIM_POS_RADIUS * cos (2 * pi * real k / 12), STIM_POS_RADIUS * sin (2 * pi * real k / 12))"
proof -
  have "radians (360 / 12 * real k) = 2 * pi * real k / 12"
    by (simp add: radians_def)
  then show ?thesis
    unfolding ring_position_def by (simp only: mult.commute)
qed

lemma trial_spec_positions:
  assumes "trial_spec n hi pool rep trial t" "n \<le> 12"
  shows "length (stim_positions t) = n \<and> distinct (stim_positions t) \<and>
         (\<forall>p\<in>set (stim_positions t). \<exists>k<12. p = ring_position k)"
proof -
  obtain ps where ps: "mset ps = mset (map ring_position [0..<12])" "stim_positions t = take n ps"
    using assms(1) unfolding trial_spec_def by blast
  have "length ps = length (map ring_position [0..<12])"
    using ps(1) by (metis size_mset)
  then have l: "length ps = 12" by simp
  have d: "distinct ps"
    using ps(1) distinct_ring by (metis mset_eq_imp_distinct_iff)
  have "set ps = set (map ring_position [0..<12])"
    using ps(1) by (metis set_mset_mset)
  then have s: "\<forall>p\<in>set ps. \<exists>k<12. p = ring_position k"
    by auto
  have "set (take n ps) \<subseteq> set ps"
    by (rule set_take_subset)
  then show ?thesis
    using l d s assms(2) ps(2) by auto
qed

lemma trial_spec_lengths:
  assumes "trial_spec n hi pool rep trial t" "n \<le> length pool"
  shows "num_stimuli t = n \<and> length (stim_colors t) = n \<and> length (probe_colors t) = n"
  using assms unfolding trial_spec_def by (auto split: if_splits)

lemma load_Qian: "0 \<le> trial \<Longrightarrow> trial < 6 \<Longrightarrow>
    num_stimuli (Trial_Qian trial rep :: 'c Trial) \<in> {1, 2, 3, 4, 8, 12}"
  unfolding Trial_Qian_def by auto

lemma load_cont: "0 \<le> trial \<Longrightarrow> trial < 3 \<Longrightarrow>
    num_stimuli (Trial_cont trial rep :: 'c Trial) \<in> {2, 4, 6}"
  unfolding Trial_cont_def by auto

lemma length_mset_palette_Qian: "mset c = mset palette_Qian \<Longrightarrow> length c = 8"
proof -
  assume "mset c = mset palette_Qian"
  then have "length c = length palette_Qian" by (metis size_mset)
  then show ?thesis by (simp add: palette_Qian_def)
qed

lemma length_mset_palette_cont: "mset c = mset palette_cont \<Longrightarrow> length c = 8"
proof -
  assume "mset c = mset palette_cont"
  then have "length c = length palette_cont" by (metis size_mset)
  then show ?thesis by (simp add: palette_cont_def)
qed

lemma distinct_palette_Qian: "distinct palette_Qian"
  by (simp add: palette_Qian_def)

lemma distinct_palette_cont: "distinct palette_cont"
  by (simp add: palette_cont_def)

lemma made_Qian_shape:
  assumes "made_Qian (rep, trial) t" "0 \<le> trial" "trial < 6"
  shows "length (stim_positions t) = num_stimuli t \<and> length (stim_colors t) = num_stimuli t \<and>
         length (probe_colors t) = num_stimuli t \<and> distinct (stim_positions t) \<and>
         (\<forall>p\<in>set (stim_positions t). \<exists>k<12. p = ring_position k)"
proof -
  define n where "n = num_stimuli (Trial_Qian trial rep :: color_Qian Trial)"
  obtain c1 c2 where c: "mset c1 = mset palette_Qian" "mset c2 = mset palette_Qian"
    and sp: "trial_spec n 13 (c1 @ c2) rep trial t"
    using assms(1) unfolding made_Qian_def n_def by auto
  have n: "n \<in> {1, 2, 3, 4, 8, 12}"
    unfolding n_def using assms(2,3) by (rule load_Qian)
  have len: "length (c1 @ c2) = 16"
    using c by (simp add: length_mset_palette_Qian)
  have "n \<le> 12" "n \<le> length (c1 @ c2)"
    using n len by auto
  then show ?thesis
    using trial_spec_positions [OF sp] trial_spec_lengths [OF sp] by simp
qed

lemma made_cont_shape:
  assumes "made_cont (rep, trial) t" "0 \<le> trial" "trial < 3"
  shows "length (stim_positions t) = num_stimuli t \<and> length (stim_colors t) = num_stimuli t \<and>
         length (probe_colors t) = num_stimuli t \<and> distinct (stim_positions t) \<and>
         (\<forall>p\<in>set (stim_positions t). \<exists>k<12. p = ring_position k)"
proof -
  define n where "n = num_stimuli (Trial_cont trial rep :: color_cont Trial)"
  obtain c where c: "mset c = mset palette_cont"
    and sp: "trial_spec n 7 c rep trial t"
    using assms(1) unfolding made_cont_def n_def by auto
  have n: "n \<in> {2, 4, 6}"
    unfolding n_def using assms(2,3) by (rule load_cont)
  have len: "length c = 8"
    using c by (simp add: length_mset_palette_cont)
  have "n \<le> 12" "n \<le> length c"
    using n len by auto
  then show ?thesis
    using trial_spec_positions [OF sp] trial_spec_lengths [OF sp] by simp
qed

text \<open>Every trial \<^verbatim>\<open>set_trials\<close> returns was made by the loop body for a pair the loops visit.\<close>

lemma set_trials_Qian_made:
  assumes "T \<le> 6"
  shows "\<exists>ts s'. set_trials_Qian R T (init_Qian g) = Inr (ts, s') \<and>
           (\<forall>t\<in>set ts. \<exists>rep trial. 0 \<le> trial \<and> trial < 6 \<and> made_Qian (rep, trial) t)"
proof -
  obtain built s1 ts s' where b: "list_all2 made_Qian (loop_pairs R T) built"
    "set_trials_Qian R T (init_Qian g) = Inr (ts, s')" "mset ts = mset built"
    using set_trials_Qian_ok [OF assms, of R g] by blast
  have "\<exists>rep trial. 0 \<le> trial \<and> trial < 6 \<and> made_Qian (rep, trial) t" if t: "t \<in> set ts" for t
  proof -
    obtain p where p: "p \<in> set (loop_pairs R T)" "made_Qian p t"
      using list_all2_mset_set [OF b(1) b(3) t] by blast
    obtain rep trial where pp: "p = (rep, trial)" by (cases p)
    have "0 \<le> trial \<and> trial < int T"
      using p(1) loop_pairs_set [of rep trial R T] by (simp add: pp)
    then have "0 \<le> trial \<and> trial < 6"
      using assms by linarith
    then show ?thesis
      using p(2) pp by blast
  qed
  then show ?thesis using b(2) by blast
qed

lemma set_trials_cont_made:
  assumes "T \<le> 3"
  shows "\<exists>ts s'. set_trials_cont R T (init_cont g) = Inr (ts, s') \<and>
           (\<forall>t\<in>set ts. \<exists>rep trial. 0 \<le> trial \<and> trial < 3 \<and> made_cont (rep, trial) t)"
proof -
  obtain built s1 ts s' where b: "list_all2 made_cont (loop_pairs R T) built"
    "set_trials_cont R T (init_cont g) = Inr (ts, s')" "mset ts = mset built"
    using set_trials_cont_ok [OF assms, of R g] by blast
  have "\<exists>rep trial. 0 \<le> trial \<and> trial < 3 \<and> made_cont (rep, trial) t" if t: "t \<in> set ts" for t
  proof -
    obtain p where p: "p \<in> set (loop_pairs R T)" "made_cont p t"
      using list_all2_mset_set [OF b(1) b(3) t] by blast
    obtain rep trial where pp: "p = (rep, trial)" by (cases p)
    have "0 \<le> trial \<and> trial < int T"
      using p(1) loop_pairs_set [of rep trial R T] by (simp add: pp)
    then have "0 \<le> trial \<and> trial < 3"
      using assms by linarith
    then show ?thesis
      using p(2) pp by blast
  qed
  then show ?thesis using b(2) by blast
qed

lemma made_Qian_colors:
  assumes "made_Qian (rep, trial) t" "0 \<le> trial" "trial < 6"
  shows "(num_stimuli t \<le> 8 \<longrightarrow> distinct (stim_colors t)) \<and>
         (num_stimuli t = 12 \<longrightarrow>
            length (stim_colors t) = 12 \<and> distinct (take 8 (stim_colors t)) \<and>
            distinct (drop 8 (stim_colors t)) \<and>
            set (drop 8 (stim_colors t)) \<subseteq> set (take 8 (stim_colors t)))"
proof -
  define n where "n = num_stimuli (Trial_Qian trial rep :: color_Qian Trial)"
  obtain c1 c2 where c: "mset c1 = mset palette_Qian" "mset c2 = mset palette_Qian"
    and sp: "trial_spec n 13 (c1 @ c2) rep trial t"
    using assms(1) unfolding made_Qian_def n_def by auto
  have l: "length c1 = 8" "length c2 = 8"
    using c by (simp_all add: length_mset_palette_Qian)
  have d: "distinct c1" "distinct c2"
    using c distinct_palette_Qian by (metis mset_eq_imp_distinct_iff)+
  have s: "set c2 = set c1"
    using c by (metis set_mset_mset)
  have t: "num_stimuli t = n" "stim_colors t = take n (c1 @ c2)"
    using sp unfolding trial_spec_def by auto
  have small: "distinct (stim_colors t)" if "n \<le> 8"
    using that d(1) l by (simp add: t)
  have big: "length (stim_colors t) = 12 \<and> distinct (take 8 (stim_colors t)) \<and>
            distinct (drop 8 (stim_colors t)) \<and>
            set (drop 8 (stim_colors t)) \<subseteq> set (take 8 (stim_colors t))" if "n = 12"
  proof -
    have "stim_colors t = c1 @ take 4 c2"
      using that l by (simp add: t)
    moreover have "set (take 4 c2) \<subseteq> set c1"
      using set_take_subset [of 4 c2] s by simp
    ultimately show ?thesis
      using l d by simp
  qed
  show ?thesis
    using small big t(1) by blast
qed

lemma made_cont_colors:
  assumes "made_cont (rep, trial) t" "0 \<le> trial" "trial < 3"
  shows "distinct (stim_colors t)"
proof -
  define n where "n = num_stimuli (Trial_cont trial rep :: color_cont Trial)"
  obtain c where c: "mset c = mset palette_cont"
    and sp: "trial_spec n 7 c rep trial t"
    using assms(1) unfolding made_cont_def n_def by auto
  have "distinct c"
    using c distinct_palette_cont by (metis mset_eq_imp_distinct_iff)
  moreover have "stim_colors t = take n c"
    using sp unfolding trial_spec_def by auto
  ultimately show ?thesis by simp
qed

lemma made_Qian_12_repeats:
  assumes "made_Qian (rep, 5) t"
  shows "num_stimuli t = 12 \<and> \<not> distinct (stim_colors t)"
proof -
  have n: "num_stimuli (Trial_Qian 5 rep :: color_Qian Trial) = 12"
    by (simp add: Trial_Qian_def)
  obtain c1 c2 where c: "mset c1 = mset palette_Qian" "mset c2 = mset palette_Qian"
    and sp: "trial_spec 12 13 (c1 @ c2) rep 5 t"
    using assms unfolding made_Qian_def by (auto simp: n)
  have l: "length c1 = 8" "length c2 = 8"
    using c by (simp_all add: length_mset_palette_Qian)
  have s: "set c2 = set c1"
    using c by (metis set_mset_mset)
  have t: "num_stimuli t = 12" "stim_colors t = take 12 (c1 @ c2)"
    using sp unfolding trial_spec_def by auto
  have e: "stim_colors t = c1 @ take 4 c2"
    using l by (simp add: t)
  have "c2 ! 0 \<in> set (take 4 c2)"
    using l by (simp add: in_set_conv_nth) (metis nth_take zero_less_numeral length_take min.absorb2
        numeral_le_iff semiring_norm(69,72) order_refl)
  moreover have "c2 ! 0 \<in> set c1"
    using l s by (metis nth_mem zero_less_numeral)
  ultimately have "\<not> distinct (c1 @ take 4 c2)"
    by auto
  then show ?thesis
    using t(1) e by simp
qed

lemma loop_pairs_Cons:
  assumes "0 < R" "0 < T"
  shows "\<exists>rest. loop_pairs R T = (0, 0) # rest"
proof -
  have "[0..<R] = 0 # [1..<R]" "[0..<T] = 0 # [1..<T]"
    using assms by (simp_all add: upt_conv_Cons)
  then show ?thesis
    by (simp add: loop_pairs_def)
qed

lemma loop_pairs_mem:
  assumes "r < R" "k < T"
  shows "(int r, int k) \<in> set (loop_pairs R T)"
  using assms by (force simp: loop_pairs_def)

lemma set_trials_Qian_has:
  assumes "T \<le> 6" "r < R" "k < T"
  shows "\<exists>ts s'. set_trials_Qian R T (init_Qian g) = Inr (ts, s') \<and>
           (\<exists>t\<in>set ts. made_Qian (int r, int k) t)"
proof -
  obtain built s1 ts s' where b: "list_all2 made_Qian (loop_pairs R T) built"
    "set_trials_Qian R T (init_Qian g) = Inr (ts, s')" "mset ts = mset built"
    using set_trials_Qian_ok [OF assms(1), of R g] by blast
  obtain i where i: "i < length (loop_pairs R T)" "loop_pairs R T ! i = (int r, int k)"
    using loop_pairs_mem [OF assms(2,3)] by (auto simp: in_set_conv_nth)
  have "made_Qian (int r, int k) (built ! i)" "i < length built"
    using b(1) i by (auto simp: list_all2_conv_all_nth)
  moreover have "set ts = set built"
    using b(3) by (metis set_mset_mset)
  ultimately show ?thesis
    using b(2) by (metis nth_mem)
qed

lemma assign_colors_positions:
  "assign_colors hi pool t g = Inr (t', g') \<Longrightarrow>
     assign_colors hi pool (t\<lparr>stim_positions := ps\<rparr>) g = Inr (t'\<lparr>stim_positions := ps\<rparr>, g')"
  by (auto simp: assign_colors_def Let_def split: if_splits sum.splits prod.splits)

lemma set_colors_Qian_positions:
  "set_colors_Qian t s = Inr (t', s') \<Longrightarrow>
     set_colors_Qian (t\<lparr>stim_positions := ps\<rparr>) s = Inr (t'\<lparr>stim_positions := ps\<rparr>, s')"
proof -
  assume a: "set_colors_Qian t s = Inr (t', s')"
  obtain c1 g1 where s1: "shuffle (TRIAL_colorS1 s) (random_Qian s) = (c1, g1)"
    by (cases "shuffle (TRIAL_colorS1 s) (random_Qian s)")
  obtain c2 g2 where s2: "shuffle (TRIAL_colorS2 s) g1 = (c2, g2)"
    by (cases "shuffle (TRIAL_colorS2 s) g1")
  obtain g3 where b: "assign_colors 13 (c1 @ c2) t g2 = Inr (t', g3)"
    and s': "s' = \<lparr> random_Qian = g3, TRIAL_colorS1 = c1, TRIAL_colorS2 = c2 \<rparr>"
    using a by (auto simp: set_colors_Qian_def s1 s2 split: sum.splits prod.splits)
  show ?thesis
    using assign_colors_positions [OF b, of ps] by (simp add: set_colors_Qian_def s1 s2 s')
qed

lemma new_trial_Qian_eval:
  assumes "set_colors_Qian (Trial_Qian trial rep) (s\<lparr>random_Qian := drop 11 (random_Qian s)\<rparr>) = Inr (t', s')"
  shows "new_trial_Qian (rep, trial) s =
    Inr (t'\<lparr>stim_positions := take (num_stimuli (Trial_Qian trial rep :: color_Qian Trial))
              (fst (shuffle (map ring_position [0..<12]) (random_Qian s)))\<rparr>, s')"
proof -
  have "snd (shuffle (map ring_position [0..<12]) (random_Qian s)) = drop 11 (random_Qian s)"
    by (simp add: snd_shuffle)
  then show ?thesis
    using set_colors_Qian_positions [OF assms]
    by (simp add: new_trial_Qian_def set_positions_eq Trial_Qian_def)
qed

lemma set_trials_Qian_first:
  assumes "T \<le> 6" "0 < R" "0 < T" "new_trial_Qian (0, 0) (init_Qian g) = Inr (t0, s0)"
  shows "\<exists>ts s'. set_trials_Qian R T (init_Qian g) = Inr (ts, s') \<and> t0 \<in> set ts"
proof -
  obtain rest where p: "loop_pairs R T = (0, 0) # rest"
    using loop_pairs_Cons [OF assms(2,3)] by blast
  obtain built s1 ts s' where b: "build_test_set_Qian R T (init_Qian g) = Inr (built, s1)"
    "set_trials_Qian R T (init_Qian g) = Inr (ts, s')" "mset ts = mset built"
    using set_trials_Qian_ok [OF assms(1), of R g] by blast
  have "t0 \<in> set built"
    using b(1) assms(4) unfolding build_test_set_Qian_def p
    by (auto split: sum.splits prod.splits)
  moreover have "set ts = set built"
    using b(3) by (metis set_mset_mset)
  ultimately show ?thesis
    using b(2) by blast
qed

lemma colliding_colors:
  "set_colors_Qian (Trial_Qian 0 0) (init_Qian (replicate 15 0 @ [7])) =
    Inr (\<lparr>rep_num = 0, trial_num = 0, num_stimuli = 1, stim_positions = [], change = True,
           stim_colors = [(- 1, - 1, 1)], probe_colors = [(- 1, - 1, 1)]\<rparr>,
         \<lparr>random_Qian = [],
            TRIAL_colorS1 = [(- 1, - 1, 1), (- 1, 1, - 1), (- 1, 1, 1), (1, - 1, - 1),
                             (1, - 1, 1), (1, 1, - 1), (1, 1, 1), (- 1, - 1, - 1)],
            TRIAL_colorS2 = [(- 1, - 1, 1), (- 1, 1, - 1), (- 1, 1, 1), (1, - 1, - 1),
                             (1, - 1, 1), (1, 1, - 1), (1, 1, 1), (- 1, - 1, - 1)]\<rparr>)"
  by code_simp


lemma set_colors_Qian_odd:
  assumes "rep_num t mod 2 \<noteq> 0"
  shows "\<exists>c1 c2 g'. length c1 = length (TRIAL_colorS1 s) \<and> length c2 = length (TRIAL_colorS2 s) \<and>
     set_colors_Qian t s =
       Inr (t\<lparr>stim_colors := take (num_stimuli t) (stim_colors t @ c1 @ c2),
              probe_colors := take (num_stimuli t) (probe_colors t @ c1 @ c2)\<rparr>,
            \<lparr> random_Qian = g', TRIAL_colorS1 = c1, TRIAL_colorS2 = c2 \<rparr>)"
proof -
  obtain c1 g1 where s1: "shuffle (TRIAL_colorS1 s) (random_Qian s) = (c1, g1)"
    by (cases "shuffle (TRIAL_colorS1 s) (random_Qian s)")
  obtain c2 g2 where s2: "shuffle (TRIAL_colorS2 s) g1 = (c2, g2)"
    by (cases "shuffle (TRIAL_colorS2 s) g1")
  have "length c1 = length (TRIAL_colorS1 s)"
    using length_shuffle [of "TRIAL_colorS1 s" "random_Qian s"] s1 by simp
  moreover have "length c2 = length (TRIAL_colorS2 s)"
    using length_shuffle [of "TRIAL_colorS2 s" g1] s2 by simp
  moreover have "set_colors_Qian t s =
       Inr (t\<lparr>stim_colors := take (num_stimuli t) (stim_colors t @ c1 @ c2),
              probe_colors := take (num_stimuli t) (probe_colors t @ c1 @ c2)\<rparr>,
            \<lparr> random_Qian = g2, TRIAL_colorS1 = c1, TRIAL_colorS2 = c2 \<rparr>)"
    by (simp add: set_colors_Qian_def s1 s2 assign_colors_odd [OF assms])
  ultimately show ?thesis by blast
qed

lemma set_colors_cont_odd:
  assumes "rep_num t mod 2 \<noteq> 0"
  shows "\<exists>c g'. length c = length (TRIAL_colorS s) \<and>
     set_colors_cont t s =
       Inr (t\<lparr>stim_colors := take (num_stimuli t) (stim_colors t @ c),
              probe_colors := take (num_stimuli t) (probe_colors t @ c)\<rparr>,
            \<lparr> random_cont = g', TRIAL_colorS = c \<rparr>)"
proof -
  obtain c g1 where s1: "shuffle (TRIAL_colorS s) (random_cont s) = (c, g1)"
    by (cases "shuffle (TRIAL_colorS s) (random_cont s)")
  have "length c = length (TRIAL_colorS s)"
    using length_shuffle [of "TRIAL_colorS s" "random_cont s"] s1 by simp
  moreover have "set_colors_cont t s =
       Inr (t\<lparr>stim_colors := take (num_stimuli t) (stim_colors t @ c),
              probe_colors := take (num_stimuli t) (probe_colors t @ c)\<rparr>,
            \<lparr> random_cont = g1, TRIAL_colorS = c \<rparr>)"
    by (simp add: set_colors_cont_def s1 assign_colors_odd [OF assms])
  ultimately show ?thesis by blast
qed

lemma set_colors_Qian_even_Inl:
  "rep_num t mod 2 = 0 \<Longrightarrow> num_stimuli t = 0 \<or> 13 < num_stimuli t \<Longrightarrow>
     set_colors_Qian t s = Inl ValueError"
  by (auto simp: set_colors_Qian_def case_prod_beta assign_colors_even_Inl)

lemma set_colors_cont_even_Inl:
  "rep_num t mod 2 = 0 \<Longrightarrow> num_stimuli t = 0 \<or> 7 < num_stimuli t \<Longrightarrow>
     set_colors_cont t s = Inl ValueError"
  by (auto simp: set_colors_cont_def case_prod_beta assign_colors_even_Inl)

lemma new_trial_Qian_outside:
  fixes s :: "'c state_Qian"
  assumes "trial < 0 \<or> 6 \<le> trial"
  shows "(rep mod 2 = 0 \<longrightarrow> new_trial_Qian (rep, trial) s = Inl ValueError) \<and>
         (rep mod 2 \<noteq> 0 \<longrightarrow>
            (\<exists>t s'. new_trial_Qian (rep, trial) s = Inr (t, s') \<and> rep_num t = rep \<and>
               trial_num t = trial \<and> num_stimuli t = 0 \<and> stim_positions t = [] \<and>
               stim_colors t = [] \<and> probe_colors t = [] \<and> \<not> change t))"
proof -
  define t1 :: "'c Trial" where "t1 = fst (set_positions (Trial_Qian trial rep) (random_Qian s))"
  define s1 where "s1 = s\<lparr>random_Qian := snd (set_positions (Trial_Qian trial rep :: 'c Trial) (random_Qian s))\<rparr>"
  have step: "new_trial_Qian (rep, trial) s = set_colors_Qian t1 s1"
    by (simp add: new_trial_Qian_def case_prod_beta t1_def s1_def)
  have t1: "rep_num t1 = rep" "trial_num t1 = trial" "num_stimuli t1 = 0" "stim_positions t1 = []"
    "stim_colors t1 = []" "probe_colors t1 = []" "\<not> change t1"
    using assms by (auto simp: t1_def set_positions_eq Trial_Qian_def)
  show ?thesis
  proof (intro conjI impI)
    assume "rep mod 2 = 0"
    then show "new_trial_Qian (rep, trial) s = Inl ValueError"
      unfolding step by (intro set_colors_Qian_even_Inl) (simp_all add: t1)
  next
    assume "rep mod 2 \<noteq> 0"
    then obtain c1 c2 g' where "set_colors_Qian t1 s1 =
       Inr (t1\<lparr>stim_colors := take (num_stimuli t1) (stim_colors t1 @ c1 @ c2),
              probe_colors := take (num_stimuli t1) (probe_colors t1 @ c1 @ c2)\<rparr>,
            \<lparr> random_Qian = g', TRIAL_colorS1 = c1, TRIAL_colorS2 = c2 \<rparr>)"
      using set_colors_Qian_odd [of t1 s1] by (auto simp: t1)
    then show "\<exists>t s'. new_trial_Qian (rep, trial) s = Inr (t, s') \<and> rep_num t = rep \<and>
               trial_num t = trial \<and> num_stimuli t = 0 \<and> stim_positions t = [] \<and>
               stim_colors t = [] \<and> probe_colors t = [] \<and> \<not> change t"
      unfolding step by (simp add: t1)
  qed
qed

lemma new_trial_cont_outside:
  fixes s :: "'c state_cont"
  assumes "trial < 0 \<or> 3 \<le> trial"
  shows "(rep mod 2 = 0 \<longrightarrow> new_trial_cont (rep, trial) s = Inl ValueError) \<and>
         (rep mod 2 \<noteq> 0 \<longrightarrow>
            (\<exists>t s'. new_trial_cont (rep, trial) s = Inr (t, s') \<and> rep_num t = rep \<and>
               trial_num t = trial \<and> num_stimuli t = 0 \<and> stim_positions t = [] \<and>
               stim_colors t = [] \<and> probe_colors t = [] \<and> \<not> change t))"
proof -
  define t1 :: "'c Trial" where "t1 = fst (set_positions (Trial_cont trial rep) (random_cont s))"
  define s1 where "s1 = s\<lparr>random_cont := snd (set_positions (Trial_cont trial rep :: 'c Trial) (random_cont s))\<rparr>"
  have step: "new_trial_cont (rep, trial) s = set_colors_cont t1 s1"
    by (simp add: new_trial_cont_def case_prod_beta t1_def s1_def)
  have t1: "rep_num t1 = rep" "trial_num t1 = trial" "num_stimuli t1 = 0" "stim_positions t1 = []"
    "stim_colors t1 = []" "probe_colors t1 = []" "\<not> change t1"
    using assms by (auto simp: t1_def set_positions_eq Trial_cont_def)
  show ?thesis
  proof (intro conjI impI)
    assume "rep mod 2 = 0"
    then show "new_trial_cont (rep, trial) s = Inl ValueError"
      unfolding step by (intro set_colors_cont_even_Inl) (simp_all add: t1)
  next
    assume "rep mod 2 \<noteq> 0"
    then obtain c g' where "set_colors_cont t1 s1 =
       Inr (t1\<lparr>stim_colors := take (num_stimuli t1) (stim_colors t1 @ c),
              probe_colors := take (num_stimuli t1) (probe_colors t1 @ c)\<rparr>,
            \<lparr> random_cont = g', TRIAL_colorS = c \<rparr>)"
      using set_colors_cont_odd [of t1 s1] by (auto simp: t1)
    then show "\<exists>t s'. new_trial_cont (rep, trial) s = Inr (t, s') \<and> rep_num t = rep \<and>
               trial_num t = trial \<and> num_stimuli t = 0 \<and> stim_positions t = [] \<and>
               stim_colors t = [] \<and> probe_colors t = [] \<and> \<not> change t"
      unfolding step by (simp add: t1)
  qed
qed

lemma loop_pairs_split:
  assumes "0 < R" "k < T"
  shows "\<exists>rest. loop_pairs R T = map (\<lambda>trial. (0, int trial)) [0..<k] @ (0, int k) # rest"
proof -
  have "[0..<R] = 0 # [1..<R]"
    using assms(1) by (simp add: upt_conv_Cons)
  moreover have "[0..<T] = [0..<k] @ k # [Suc k..<T]"
    using assms(2) by (metis le_add1 less_imp_add_positive upt_add_eq_append upt_conv_Cons
        add.left_neutral le0 less_or_eq_imp_le upt_rec zero_less_iff_neq_zero)
  ultimately show ?thesis
    by (simp add: loop_pairs_def)
qed

lemma set_trials_Qian_stops:
  assumes "0 < R" "6 < T"
  shows "set_trials_Qian R T (init_Qian g) = Inl ValueError"
proof -
  obtain rest where p: "loop_pairs R T = map (\<lambda>trial. (0, int trial)) [0..<6] @ (0, int 6) # rest"
    using loop_pairs_split [OF assms(1), of 6 T] assms(2) by blast
  have "map (\<lambda>trial. (0, int trial)) [0..<6] = loop_pairs 1 6"
    by (simp add: loop_pairs_def)
  then obtain ts s' where a: "for_each new_trial_Qian (map (\<lambda>trial. (0, int trial)) [0..<6]) (init_Qian g) = Inr (ts, s')"
    using build_test_set_Qian_ok [of 6 "init_Qian g" 1] inv_init_Qian
    by (auto simp: build_test_set_Qian_def)
  have "new_trial_Qian (0, int 6) s' = Inl ValueError"
    using new_trial_Qian_outside [of "int 6" 0 s'] by simp
  then have "build_test_set_Qian R T (init_Qian g) = Inl ValueError"
    unfolding build_test_set_Qian_def p using a by (rule for_each_stops [rotated])
  then show ?thesis
    by (simp add: set_trials_Qian_def)
qed

lemma set_trials_cont_stops:
  assumes "0 < R" "3 < T"
  shows "set_trials_cont R T (init_cont g) = Inl ValueError"
proof -
  obtain rest where p: "loop_pairs R T = map (\<lambda>trial. (0, int trial)) [0..<3] @ (0, int 3) # rest"
    using loop_pairs_split [OF assms(1), of 3 T] assms(2) by blast
  have "map (\<lambda>trial. (0, int trial)) [0..<3] = loop_pairs 1 3"
    by (simp add: loop_pairs_def)
  then obtain ts s' where a: "for_each new_trial_cont (map (\<lambda>trial. (0, int trial)) [0..<3]) (init_cont g) = Inr (ts, s')"
    using build_test_set_cont_ok [of 3 "init_cont g" 1] inv_init_cont
    by (auto simp: build_test_set_cont_def)
  have "new_trial_cont (0, int 3) s' = Inl ValueError"
    using new_trial_cont_outside [of "int 3" 0 s'] by simp
  then have "build_test_set_cont R T (init_cont g) = Inl ValueError"
    unfolding build_test_set_cont_def p using a by (rule for_each_stops [rotated])
  then show ?thesis
    by (simp add: set_trials_cont_def)
qed

lemma set_colors_Qian_odd_lengths:
  assumes "rep_num t mod 2 \<noteq> 0"
  shows "\<exists>t' s'. set_colors_Qian t s = Inr (t', s') \<and>
           length (stim_colors t') =
             min (num_stimuli t) (length (stim_colors t) + length (TRIAL_colorS1 s) + length (TRIAL_colorS2 s)) \<and>
           length (probe_colors t') =
             min (num_stimuli t) (length (probe_colors t) + length (TRIAL_colorS1 s) + length (TRIAL_colorS2 s))"
proof -
  obtain c1 c2 g' where l: "length c1 = length (TRIAL_colorS1 s)" "length c2 = length (TRIAL_colorS2 s)"
    and e: "set_colors_Qian t s =
       Inr (t\<lparr>stim_colors := take (num_stimuli t) (stim_colors t @ c1 @ c2),
              probe_colors := take (num_stimuli t) (probe_colors t @ c1 @ c2)\<rparr>,
            \<lparr> random_Qian = g', TRIAL_colorS1 = c1, TRIAL_colorS2 = c2 \<rparr>)"
    using set_colors_Qian_odd [OF assms, of s] by blast
  show ?thesis
    unfolding e using l by (simp del: take_append add: min.commute add.assoc)
qed

lemma set_colors_cont_odd_lengths:
  assumes "rep_num t mod 2 \<noteq> 0"
  shows "\<exists>t' s'. set_colors_cont t s = Inr (t', s') \<and>
           length (stim_colors t') = min (num_stimuli t) (length (stim_colors t) + length (TRIAL_colorS s)) \<and>
           length (probe_colors t') = min (num_stimuli t) (length (probe_colors t) + length (TRIAL_colorS s))"
proof -
  obtain c g' where l: "length c = length (TRIAL_colorS s)"
    and e: "set_colors_cont t s =
       Inr (t\<lparr>stim_colors := take (num_stimuli t) (stim_colors t @ c),
              probe_colors := take (num_stimuli t) (probe_colors t @ c)\<rparr>,
            \<lparr> random_cont = g', TRIAL_colorS = c \<rparr>)"
    using set_colors_cont_odd [OF assms, of s] by blast
  show ?thesis
    unfolding e using l by (simp del: take_append add: min.commute)
qed

lemma setup_subject_reps:
  "setup_subject isfile n ds = Some (Done (subj, file, R)) \<Longrightarrow>
     isdigit subj \<and> R = (if int_of_digits subj = 999 then 2 else n)"
proof (induction isfile n ds rule: setup_subject.induct)
  case (1 isfile NUM_REPS)
  then show ?case by simp
next
  case (2 isfile NUM_REPS ds)
  then show ?case by simp
next
  case (3 isfile NUM_REPS subj' ds)
  then show ?case
    by (auto simp: Let_def split: if_splits)
qed

lemma experiment_setup_Qian_Done:
  assumes "setup_subject isfile NUM_REPS_Qian ds = Some (Done (subj, file, R))"
  shows "experiment_setup_Qian seed isfile ds =
     Some (Done (set_trials_Qian (if int_of_digits subj = 999 then 2 else NUM_REPS_Qian) NUM_TYPE_Qian
       (init_Qian (seed (int_of_digits subj)))))"
  using setup_subject_reps [OF assms] assms by (simp add: experiment_setup_Qian_def)

lemma experiment_setup_cont_Done:
  assumes "setup_subject isfile NUM_REPS_cont ds = Some (Done (subj, file, R))"
  shows "experiment_setup_cont seed isfile ds =
     Some (Done (set_trials_cont (if int_of_digits subj = 999 then 2 else NUM_REPS_cont) NUM_TYPE_cont
       (init_cont (seed (int_of_digits subj)))))"
  using setup_subject_reps [OF assms] assms by (simp add: experiment_setup_cont_def)

lemma setup_first_run:
  "setup_subject (\<lambda>f. f = ''12.csv'') 50 [Entered ''12'', Entered ''x7'', Entered ''007''] =
     Some (Done (''007'', ''007.csv'', 50))"
  by (simp add: isdigit_def int_of_digits_def)

lemma setup_second_run:
  "setup_subject (\<lambda>f. False) 50 [Entered ''7'', Cancelled] = Some (Done (''7'', ''7.csv'', 50))"
  by (simp add: isdigit_def int_of_digits_def)

lemma same_number: "int_of_digits ''007'' = int_of_digits ''7''"
  by (simp add: int_of_digits_def)

lemma argmin_from_spec:
  assumes "length pre = i" "b < i" "v = (pre @ ds) ! b"
    and "\<forall>k<i. v \<le> (pre @ ds) ! k" "\<forall>k<b. v < (pre @ ds) ! k"
  shows "argmin_from b v i ds < length (pre @ ds) \<and>
         (\<forall>k<length (pre @ ds). (pre @ ds) ! argmin_from b v i ds \<le> (pre @ ds) ! k) \<and>
         (\<forall>k<argmin_from b v i ds. (pre @ ds) ! argmin_from b v i ds < (pre @ ds) ! k)"
  using assms
proof (induction ds arbitrary: pre i b v)
  case Nil
  then show ?case by simp
next
  case (Cons d ds)
  have all: "pre @ d # ds = (pre @ [d]) @ ds" by simp
  have di: "(pre @ d # ds) ! i = d"
    using Cons.prems(1) by (simp add: nth_append)
  show ?case
  proof (cases "d < v")
    case True
    have "argmin_from i d (Suc i) ds < length ((pre @ [d]) @ ds) \<and>
         (\<forall>k<length ((pre @ [d]) @ ds). ((pre @ [d]) @ ds) ! argmin_from i d (Suc i) ds \<le> ((pre @ [d]) @ ds) ! k) \<and>
         (\<forall>k<argmin_from i d (Suc i) ds. ((pre @ [d]) @ ds) ! argmin_from i d (Suc i) ds < ((pre @ [d]) @ ds) ! k)"
    proof (rule Cons.IH)
      show "length (pre @ [d]) = Suc i" using Cons.prems(1) by simp
      show "i < Suc i" by simp
      show "d = ((pre @ [d]) @ ds) ! i" using di by simp
      show "\<forall>k<Suc i. d \<le> ((pre @ [d]) @ ds) ! k"
        using Cons.prems(4) True di by (auto simp: less_Suc_eq)
      show "\<forall>k<i. d < ((pre @ [d]) @ ds) ! k"
        using Cons.prems(4) True by auto
    qed
    then show ?thesis
      using True by simp
  next
    case False
    have "argmin_from b v (Suc i) ds < length ((pre @ [d]) @ ds) \<and>
         (\<forall>k<length ((pre @ [d]) @ ds). ((pre @ [d]) @ ds) ! argmin_from b v (Suc i) ds \<le> ((pre @ [d]) @ ds) ! k) \<and>
         (\<forall>k<argmin_from b v (Suc i) ds. ((pre @ [d]) @ ds) ! argmin_from b v (Suc i) ds < ((pre @ [d]) @ ds) ! k)"
    proof (rule Cons.IH)
      show "length (pre @ [d]) = Suc i" using Cons.prems(1) by simp
      show "b < Suc i" using Cons.prems(2) by simp
      show "v = ((pre @ [d]) @ ds) ! b" using Cons.prems(3) by simp
      show "\<forall>k<Suc i. v \<le> ((pre @ [d]) @ ds) ! k"
        using Cons.prems(4) False di by (auto simp: less_Suc_eq)
      show "\<forall>k<b. v < ((pre @ [d]) @ ds) ! k"
        using Cons.prems(5) by simp
    qed
    then show ?thesis
      using False by simp
  qed
qed

lemma argmin_spec:
  assumes "ds \<noteq> []"
  shows "\<exists>loc. argmin ds = Inr loc \<and> loc < length ds \<and> (\<forall>k<length ds. ds ! loc \<le> ds ! k) \<and>
           (\<forall>k<loc. ds ! loc < ds ! k)"
proof -
  obtain d ds' where ds: "ds = d # ds'"
    using assms by (cases ds) auto
  have "argmin_from 0 d 1 ds' < length ([d] @ ds') \<and>
         (\<forall>k<length ([d] @ ds'). ([d] @ ds') ! argmin_from 0 d 1 ds' \<le> ([d] @ ds') ! k) \<and>
         (\<forall>k<argmin_from 0 d 1 ds'. ([d] @ ds') ! argmin_from 0 d 1 ds' < ([d] @ ds') ! k)"
    by (rule argmin_from_spec) simp_all
  then show ?thesis
    by (simp add: argmin_def ds)
qed

lemma length_xys: "length xys = 360"
  by (simp add: xys_def linspace_open_def n_circ_def)

lemma nth_xys:
  "k < 360 \<Longrightarrow> xys ! k = (8 * cos (real k * pi / 180), 8 * sin (real k * pi / 180))"
  by (simp add: xys_def linspace_open_def n_circ_def loop_radius_def)

lemma nearest_spec:
  "\<exists>loc. nearest p = Inr loc \<and> loc < 360 \<and>
     (\<forall>k<360. point_distance (xys ! loc) p \<le> point_distance (xys ! k) p) \<and>
     (\<forall>k<loc. point_distance (xys ! loc) p < point_distance (xys ! k) p)"
proof -
  have "map (\<lambda>q. point_distance q p) xys \<noteq> []"
    using length_xys by auto
  from argmin_spec [OF this] obtain loc where l: "nearest p = Inr loc" "loc < 360"
    "\<forall>k<360. map (\<lambda>q. point_distance q p) xys ! loc \<le> map (\<lambda>q. point_distance q p) xys ! k"
    "\<forall>k<loc. map (\<lambda>q. point_distance q p) xys ! loc < map (\<lambda>q. point_distance q p) xys ! k"
    by (auto simp: nearest_def length_xys)
  show ?thesis
    using l by (auto simp: length_xys)
qed

lemma nearest_wheel_index: "nearest p = Inr (wheel_index p)"
  using nearest_spec [of p] by (auto simp: wheel_index_def)

lemma wheel_index_less: "wheel_index p < 360"
  using nearest_spec [of p] by (auto simp: wheel_index_def)

lemma wheel_index_least:
  "k < 360 \<Longrightarrow> point_distance (xys ! wheel_index p) p \<le> point_distance (xys ! k) p"
  using nearest_spec [of p] by (auto simp: wheel_index_def)

lemma wheel_index_first:
  "k < wheel_index p \<Longrightarrow> point_distance (xys ! wheel_index p) p < point_distance (xys ! k) p"
  using nearest_spec [of p] by (auto simp: wheel_index_def)

lemma point_distance_zero: "point_distance p q = 0 \<longleftrightarrow> p = q"
proof -
  have "(fst p - fst q)\<^sup>2 + (snd p - snd q)\<^sup>2 = 0 \<longleftrightarrow> fst p = fst q \<and> snd p = snd q"
    by (simp add: sum_power2_eq_zero_iff)
  then show ?thesis
    by (simp add: point_distance_def prod_eq_iff)
qed

lemma point_distance_nonneg: "0 \<le> point_distance p q"
  by (simp add: point_distance_def)

lemma xys_inj:
  assumes "a < 360" "b < 360" "xys ! a = xys ! b"
  shows "a = b"
proof -
  have c: "cos (real a * pi / 180) = cos (real b * pi / 180)"
    and s: "sin (real a * pi / 180) = sin (real b * pi / 180)"
    using assms by (simp_all add: nth_xys)
  from s c obtain n :: int where n: "real a * pi / 180 = real b * pi / 180 + 2 * pi * real_of_int n"
    using sin_cos_eq_iff [of "real a * pi / 180" "real b * pi / 180"] by auto
  have "pi * real a = pi * (real b + 360 * real_of_int n)"
    using n by (simp add: algebra_simps)
  then have "real a = real b + 360 * real_of_int n"
    by simp
  then have e: "int a = int b + 360 * n"
    by (metis (mono_tags) of_int_add of_int_eq_iff of_int_mult of_int_numeral of_int_of_nat_eq)
  have "\<not> 1 \<le> n" "\<not> n \<le> - 1"
    using e assms(1,2) by linarith+
  then have "n = 0" by linarith
  then show ?thesis using e by simp
qed

lemma wheel_index_on_wheel:
  assumes "k < 360"
  shows "wheel_index (xys ! k) = k"
proof -
  have "point_distance (xys ! wheel_index (xys ! k)) (xys ! k) \<le> point_distance (xys ! k) (xys ! k)"
    using assms by (rule wheel_index_least)
  moreover have "point_distance (xys ! k) (xys ! k) = 0"
    by (simp add: point_distance_zero)
  ultimately have "point_distance (xys ! wheel_index (xys ! k)) (xys ! k) = 0"
    using point_distance_nonneg [of "xys ! wheel_index (xys ! k)" "xys ! k"]
    by linarith
  then have "xys ! wheel_index (xys ! k) = xys ! k"
    by (simp add: point_distance_zero)
  then show ?thesis
    using xys_inj [OF wheel_index_less assms] by simp
qed

lemma distance_from_far_point:
  assumes "k < 360"
  shows "point_distance (xys ! 0) (12, 0) \<le> point_distance (xys ! k) (12, 0)"
proof -
  define c where "c = cos (real k * pi / 180)"
  define s where "s = sin (real k * pi / 180)"
  have cs: "c\<^sup>2 + s\<^sup>2 = 1"
    unfolding c_def s_def by (simp add: add.commute)
  have "c \<le> 1"
    unfolding c_def by simp
  have "(8 * c - 12)\<^sup>2 + (8 * s)\<^sup>2 = 64 * (c\<^sup>2 + s\<^sup>2) - 192 * c + 144"
    by (simp add: power2_eq_square algebra_simps)
  also have "\<dots> = 208 - 192 * c"
    by (simp add: cs)
  finally have e: "(8 * c - 12)\<^sup>2 + (8 * s)\<^sup>2 = 208 - 192 * c" .
  have "(16::real) \<le> 208 - 192 * c"
    using \<open>c \<le> 1\<close> by simp
  then have "sqrt 16 \<le> sqrt ((8 * c - 12)\<^sup>2 + (8 * s)\<^sup>2)"
    unfolding e by (rule real_sqrt_le_mono)
  moreover have "point_distance (xys ! 0) (12, 0) = sqrt 16"
    by (simp add: nth_xys point_distance_def)
  moreover have "point_distance (xys ! k) (12, 0) = sqrt ((8 * c - 12)\<^sup>2 + (8 * s)\<^sup>2)"
    using assms by (simp add: nth_xys point_distance_def c_def s_def)
  ultimately show ?thesis by simp
qed

lemma wheel_index_far_point: "wheel_index (12, 0) = 0"
proof (rule ccontr)
  assume "wheel_index (12, 0) \<noteq> 0"
  then have "0 < wheel_index (12, 0)" by simp
  then have "point_distance (xys ! wheel_index (12, 0)) (12, 0) < point_distance (xys ! 0) (12, 0)"
    by (rule wheel_index_first)
  moreover have "point_distance (xys ! 0) (12, 0) \<le> point_distance (xys ! wheel_index (12, 0)) (12, 0)"
    using wheel_index_less by (rule distance_from_far_point)
  ultimately show False by simp
qed

lemma poll_targets_eq:
  "poll_targets rgb mask1 mask2 probe f ts (loc, fill) =
     Inr (if ts = [] then loc else Some (wheel_index (mouse_at f (last ts))),
          if probe \<in> set ts then shown_fill rgb mask1 mask2 probe f else fill)"
proof (induction ts arbitrary: loc fill)
  case Nil
  then show ?case by simp
next
  case (Cons target ts)
  show ?case
    by (simp add: nearest_wheel_index Cons.IH shown_fill_def)
qed

lemma poll_all_targets:
  assumes "probe < n"
  shows "poll_targets rgb mask1 mask2 probe f [0..<n] st =
     Inr (Some (wheel_index (mouse_at f (n - 1))), shown_fill rgb mask1 mask2 probe f)"
proof -
  obtain n' where n: "n = Suc n'"
    using assms by (cases n) auto
  have "[0..<n] \<noteq> []" "last [0..<n] = n - 1" "probe \<in> set [0..<n]"
    using assms by (auto simp: n)
  then show ?thesis
    using poll_targets_eq [of rgb mask1 mask2 probe f "[0..<n]" "fst st" "snd st"] by simp
qed

lemma response_loop_waiting:
  assumes "probe < n" "\<not> list_ex any_button fs"
  shows "response_loop rgb mask1 mask2 n probe probe_Color st fs =
     Inr (map (shown_fill rgb mask1 mask2 probe) fs, None)"
  using assms(2)
proof (induction fs arbitrary: st)
  case Nil
  then show ?case by simp
next
  case (Cons f fs)
  then show ?case
    by (simp add: poll_all_targets [OF assms(1)] any_button_def)
qed

lemma response_loop_press:
  assumes "probe < n" "\<not> list_ex any_button pre" "any_button f"
  shows "response_loop rgb mask1 mask2 n probe probe_Color st (pre @ f # post) =
     Inr (map (shown_fill rgb mask1 mask2 probe) (pre @ [f]),
          Some (rgb (wheel_index (mouse_at f (n - 1))),
                color_distance (rgb (wheel_index (mouse_at f (n - 1)))) probe_Color))"
  using assms(2)
proof (induction pre arbitrary: st)
  case Nil
  then show ?case
    using assms(3) by (simp add: poll_all_targets [OF assms(1)] any_button_def)
next
  case (Cons p pre)
  then show ?case
    by (simp add: poll_all_targets [OF assms(1)] any_button_def)
qed

lemma color_distance_self: "color_distance c c = 0"
  by (simp add: color_distance_def split: prod.splits)





lemma mouse_at_still: "mouse_at (still_frame p bs) k = p"
  by (simp add: still_frame_def)

lemma press_outside_annulus:
  "response_loop rgb (disc (15 / 2)) (disc (17 / 2)) 2 0 probe_Color st
       [still_frame (12, 0) [True, False, False]] =
     Inr ([None], Some (rgb 0, color_distance (rgb 0) probe_Color))"
proof -
  have p: "(0::nat) < 2" by simp
  have w: "\<not> list_ex any_button []" by simp
  have b: "any_button (still_frame (12, 0) [True, False, False])"
    by (simp add: any_button_def still_frame_def)
  have m: "mouse_at (still_frame (12, 0) [True, False, False]) (2 - 1) = (12, 0)"
    by (simp add: still_frame_def)
  have s: "shown_fill rgb (disc (15 / 2)) (disc (17 / 2)) 0 (still_frame (12, 0) [True, False, False]) = None"
    by (simp add: shown_fill_def still_frame_def disc_def power2_eq_square)
  show ?thesis
    using response_loop_press [OF p w b, of rgb "disc (15 / 2)" "disc (17 / 2)" probe_Color st "[]"]
    by (simp del: response_loop.simps add: mouse_at_still s wheel_index_far_point)
qed




lemma color_distance_triple:
  "color_distance (r, g, b) (pr, pg, pb) = sqrt ((r - pr)\<^sup>2 + (g - pg)\<^sup>2 + (b - pb)\<^sup>2)"
  by (simp add: color_distance_def)

lemma nth_xys_radius:
  "k < n_circ \<Longrightarrow>
     xys ! k = (loop_radius * cos (real k * pi / 180), loop_radius * sin (real k * pi / 180))"
  by (simp add: nth_xys n_circ_def loop_radius_def)

lemma py_getitem_outside:
  "0 \<le> i \<Longrightarrow> int (length xs) \<le> i \<Longrightarrow> py_getitem xs i = Inl IndexError"
  by (simp add: py_getitem_def)

lemma assign_colors_even_cases:
  assumes "rep_num t mod 2 = 0"
  shows "assign_colors hi pool t g = Inl ValueError \<or>
         assign_colors hi pool t g = Inl IndexError \<or>
         (\<exists>i j. i < num_stimuli t \<and> num_stimuli t \<le> j \<and> j < length (probe_colors t @ pool) \<and>
            assign_colors hi pool t g =
              Inr (t\<lparr>change := True,
                     stim_colors := take (num_stimuli t) (stim_colors t @ pool),
                     probe_colors := take (num_stimuli t)
                       ((probe_colors t @ pool)[i := (probe_colors t @ pool) ! j])\<rparr>, drop 2 g))"
proof (cases "num_stimuli t = 0 \<or> hi < int (num_stimuli t)")
  case True
  then show ?thesis
    using assign_colors_even_Inl [OF assms, of hi pool g] by simp
next
  case False
  then have n: "0 < num_stimuli t" "int (num_stimuli t) \<le> hi" by auto
  obtain r1 r2 where d: "draw_change (num_stimuli t) hi g = Inr ((r1, r2), drop 2 g)"
    and r: "0 \<le> r1" "r1 < int (num_stimuli t)" "int (num_stimuli t) \<le> r2" "r2 \<le> hi"
    using draw_change_ok [OF n, of g] by blast
  show ?thesis
  proof (cases "r2 < int (length (probe_colors t @ pool))")
    case True
    have "replace_probe (probe_colors t @ pool) r1 r2 =
          Inr ((probe_colors t @ pool)[nat r1 := (probe_colors t @ pool) ! nat r2])"
      using r True by (intro replace_probe_ok) linarith+
    then have "assign_colors hi pool t g =
      Inr (t\<lparr>change := True,
             stim_colors := take (num_stimuli t) (stim_colors t @ pool),
             probe_colors := take (num_stimuli t)
               ((probe_colors t @ pool)[nat r1 := (probe_colors t @ pool) ! nat r2])\<rparr>, drop 2 g)"
      using assms d by (simp add: assign_colors_def)
    moreover have "nat r1 < num_stimuli t" "num_stimuli t \<le> nat r2"
      "nat r2 < length (probe_colors t @ pool)"
      using r True by linarith+
    ultimately show ?thesis by blast
  next
    case False
    then have "py_getitem (probe_colors t @ pool) r2 = Inl IndexError"
      using r by (intro py_getitem_outside) linarith+
    then have "assign_colors hi pool t g = Inl IndexError"
      using assms d by (simp add: assign_colors_def replace_probe_def)
    then show ?thesis by simp
  qed
qed

lemma assign_colors_even_result:
  assumes "rep_num t mod 2 = 0"
  shows "(\<exists>e. assign_colors hi pool t g = Inl e \<and> (e = ValueError \<or> e = IndexError)) \<or>
         (\<exists>t' g'. assign_colors hi pool t g = Inr (t', g') \<and>
            0 < num_stimuli t \<and> num_stimuli t < length (probe_colors t) + length pool \<and>
            length (probe_colors t') = num_stimuli t \<and>
            length (stim_colors t') = min (num_stimuli t) (length (stim_colors t) + length pool))"
proof -
  from assign_colors_even_cases [OF assms, of hi pool g]
  consider "assign_colors hi pool t g = Inl ValueError" | "assign_colors hi pool t g = Inl IndexError"
    | i j where "i < num_stimuli t" "num_stimuli t \<le> j" "j < length (probe_colors t @ pool)"
        "assign_colors hi pool t g =
              Inr (t\<lparr>change := True,
                     stim_colors := take (num_stimuli t) (stim_colors t @ pool),
                     probe_colors := take (num_stimuli t)
                       ((probe_colors t @ pool)[i := (probe_colors t @ pool) ! j])\<rparr>, drop 2 g)"
    by blast
  then show ?thesis
  proof cases
    case 1
    then show ?thesis by simp
  next
    case 2
    then show ?thesis by simp
  next
    case 3
    have "length (take (num_stimuli t) ((probe_colors t @ pool)[i := (probe_colors t @ pool) ! j])) =
        num_stimuli t"
      using 3(2,3) by simp
    moreover have "length (take (num_stimuli t) (stim_colors t @ pool)) =
        min (num_stimuli t) (length (stim_colors t) + length pool)"
      by (simp del: take_append add: min.commute)
    ultimately show ?thesis
      using 3 by (simp del: take_append)
  qed
qed

lemma assign_colors_even_short:
  assumes "rep_num t mod 2 = 0" "length (probe_colors t) + length pool \<le> num_stimuli t"
  shows "\<exists>e. assign_colors hi pool t g = Inl e \<and> (e = ValueError \<or> e = IndexError)"
  using assign_colors_even_result [OF assms(1), of hi pool g] assms(2) by auto

lemma assign_colors_even_zero:
  assumes "rep_num t mod 2 = 0" "num_stimuli t = 0"
  shows "assign_colors hi pool t g = Inl ValueError"
  using assign_colors_even_Inl [OF assms(1), of hi pool g] assms(2) by simp

lemma assign_colors_even_drawn:
  assumes "rep_num t mod 2 = 0" "0 < num_stimuli t" "int (num_stimuli t) \<le> hi"
  shows "\<exists>r1 r2. draw_change (num_stimuli t) hi g = Inr ((r1, r2), drop 2 g) \<and>
           0 \<le> r1 \<and> r1 < int (num_stimuli t) \<and> int (num_stimuli t) \<le> r2 \<and> r2 \<le> hi \<and>
           (int (length (probe_colors t @ pool)) \<le> r2 \<longrightarrow>
              assign_colors hi pool t g = Inl IndexError) \<and>
           (r2 < int (length (probe_colors t @ pool)) \<longrightarrow>
              assign_colors hi pool t g =
                Inr (t\<lparr>change := True,
                       stim_colors := take (num_stimuli t) (stim_colors t @ pool),
                       probe_colors := take (num_stimuli t)
                         ((probe_colors t @ pool)[nat r1 := (probe_colors t @ pool) ! nat r2])\<rparr>,
                     drop 2 g))"
proof -
  obtain r1 r2 where d: "draw_change (num_stimuli t) hi g = Inr ((r1, r2), drop 2 g)"
    and r: "0 \<le> r1" "r1 < int (num_stimuli t)" "int (num_stimuli t) \<le> r2" "r2 \<le> hi"
    using draw_change_ok [OF assms(2,3), of g] by blast
  have a: "assign_colors hi pool t g = Inl IndexError"
    if "int (length (probe_colors t @ pool)) \<le> r2"
  proof -
    have "py_getitem (probe_colors t @ pool) r2 = Inl IndexError"
      using r that by (intro py_getitem_outside) linarith+
    then show ?thesis
      using assms(1) d by (simp add: assign_colors_def replace_probe_def)
  qed
  have b: "assign_colors hi pool t g =
                Inr (t\<lparr>change := True,
                       stim_colors := take (num_stimuli t) (stim_colors t @ pool),
                       probe_colors := take (num_stimuli t)
                         ((probe_colors t @ pool)[nat r1 := (probe_colors t @ pool) ! nat r2])\<rparr>,
                     drop 2 g)"
    if "r2 < int (length (probe_colors t @ pool))"
  proof -
    have "replace_probe (probe_colors t @ pool) r1 r2 =
          Inr ((probe_colors t @ pool)[nat r1 := (probe_colors t @ pool) ! nat r2])"
      using r that by (intro replace_probe_ok) linarith+
    then show ?thesis
      using assms(1) d by (simp add: assign_colors_def)
  qed
  show ?thesis
    using d r a b by blast
qed

lemma set_colors_Qian_unfold:
  "set_colors_Qian t s =
     (case assign_colors 13
             (fst (shuffle (TRIAL_colorS1 s) (random_Qian s)) @
              fst (shuffle (TRIAL_colorS2 s) (drop (length (TRIAL_colorS1 s) - 1) (random_Qian s))))
             t (drop (length (TRIAL_colorS2 s) - 1) (drop (length (TRIAL_colorS1 s) - 1) (random_Qian s))) of
        Inl e \<Rightarrow> Inl e
      | Inr (t', g3) \<Rightarrow>
          Inr (t', \<lparr> random_Qian = g3,
                     TRIAL_colorS1 = fst (shuffle (TRIAL_colorS1 s) (random_Qian s)),
                     TRIAL_colorS2 = fst (shuffle (TRIAL_colorS2 s)
                        (drop (length (TRIAL_colorS1 s) - 1) (random_Qian s))) \<rparr>))"
  by (simp only: set_colors_Qian_def case_prod_beta snd_shuffle)

lemma set_colors_cont_unfold:
  "set_colors_cont t s =
     (case assign_colors 7 (fst (shuffle (TRIAL_colorS s) (random_cont s))) t
             (drop (length (TRIAL_colorS s) - 1) (random_cont s)) of
        Inl e \<Rightarrow> Inl e
      | Inr (t', g2) \<Rightarrow>
          Inr (t', \<lparr> random_cont = g2, TRIAL_colorS = fst (shuffle (TRIAL_colorS s) (random_cont s)) \<rparr>))"
  by (simp only: set_colors_cont_def case_prod_beta snd_shuffle)

lemma set_colors_Qian_even_drawn:
  assumes "rep_num t mod 2 = 0" "0 < num_stimuli t" "num_stimuli t \<le> 13"
  shows "\<exists>r1 r2 g'.
           draw_change (num_stimuli t) 13
             (drop (length (TRIAL_colorS2 s) - 1) (drop (length (TRIAL_colorS1 s) - 1) (random_Qian s))) =
             Inr ((r1, r2), g') \<and>
           0 \<le> r1 \<and> r1 < int (num_stimuli t) \<and> int (num_stimuli t) \<le> r2 \<and> r2 \<le> 13 \<and>
           (int (length (probe_colors t) + length (TRIAL_colorS1 s) + length (TRIAL_colorS2 s)) \<le> r2 \<longrightarrow>
              set_colors_Qian t s = Inl IndexError) \<and>
           (r2 < int (length (probe_colors t) + length (TRIAL_colorS1 s) + length (TRIAL_colorS2 s)) \<longrightarrow>
              (\<exists>t' s'. set_colors_Qian t s = Inr (t', s') \<and> change t' \<and>
                 num_stimuli t' = num_stimuli t \<and>
                 length (probe_colors t') = num_stimuli t \<and>
                 length (stim_colors t') =
                   min (num_stimuli t)
                     (length (stim_colors t) + length (TRIAL_colorS1 s) + length (TRIAL_colorS2 s))))"
proof -
  define c1 where "c1 = fst (shuffle (TRIAL_colorS1 s) (random_Qian s))"
  define c2 where "c2 = fst (shuffle (TRIAL_colorS2 s) (drop (length (TRIAL_colorS1 s) - 1) (random_Qian s)))"
  define g2 where "g2 = drop (length (TRIAL_colorS2 s) - 1) (drop (length (TRIAL_colorS1 s) - 1) (random_Qian s))"
  have l: "length c1 = length (TRIAL_colorS1 s)" "length c2 = length (TRIAL_colorS2 s)"
    by (simp_all add: c1_def c2_def length_shuffle)
  have u: "set_colors_Qian t s =
     (case assign_colors 13 (c1 @ c2) t g2 of
        Inl e \<Rightarrow> Inl e
      | Inr (t', g3) \<Rightarrow> Inr (t', \<lparr> random_Qian = g3, TRIAL_colorS1 = c1, TRIAL_colorS2 = c2 \<rparr>))"
    unfolding c1_def c2_def g2_def by (rule set_colors_Qian_unfold)
  have L: "length (probe_colors t @ c1 @ c2) =
      length (probe_colors t) + length (TRIAL_colorS1 s) + length (TRIAL_colorS2 s)"
    by (simp add: l)
  have "int (num_stimuli t) \<le> 13" using assms(3) by simp
  from assign_colors_even_drawn [OF assms(1,2) this, of g2 "c1 @ c2"]
  obtain r1 r2 where d: "draw_change (num_stimuli t) 13 g2 = Inr ((r1, r2), drop 2 g2)"
    and r: "0 \<le> r1" "r1 < int (num_stimuli t)" "int (num_stimuli t) \<le> r2" "r2 \<le> 13"
    and a: "int (length (probe_colors t @ c1 @ c2)) \<le> r2 \<Longrightarrow>
              assign_colors 13 (c1 @ c2) t g2 = Inl IndexError"
    and b: "r2 < int (length (probe_colors t @ c1 @ c2)) \<Longrightarrow>
              assign_colors 13 (c1 @ c2) t g2 =
                Inr (t\<lparr>change := True,
                       stim_colors := take (num_stimuli t) (stim_colors t @ c1 @ c2),
                       probe_colors := take (num_stimuli t)
                         ((probe_colors t @ c1 @ c2)[nat r1 := (probe_colors t @ c1 @ c2) ! nat r2])\<rparr>,
                     drop 2 g2)"
    by blast
  have a': "set_colors_Qian t s = Inl IndexError"
    if "int (length (probe_colors t) + length (TRIAL_colorS1 s) + length (TRIAL_colorS2 s)) \<le> r2"
    using a that unfolding u L by simp
  have b': "\<exists>t' s'. set_colors_Qian t s = Inr (t', s') \<and> change t' \<and>
                 num_stimuli t' = num_stimuli t \<and>
                 length (probe_colors t') = num_stimuli t \<and>
                 length (stim_colors t') =
                   min (num_stimuli t)
                     (length (stim_colors t) + length (TRIAL_colorS1 s) + length (TRIAL_colorS2 s))"
    if h: "r2 < int (length (probe_colors t) + length (TRIAL_colorS1 s) + length (TRIAL_colorS2 s))"
  proof -
    have lt: "r2 < int (length (probe_colors t @ c1 @ c2))"
      using h unfolding L .
    have n: "num_stimuli t \<le> length (probe_colors t @ c1 @ c2)"
      using r(3) lt by linarith
    have "length (take (num_stimuli t)
            ((probe_colors t @ c1 @ c2)[nat r1 := (probe_colors t @ c1 @ c2) ! nat r2])) = num_stimuli t"
      using n by simp
    moreover have "length (take (num_stimuli t) (stim_colors t @ c1 @ c2)) =
        min (num_stimuli t) (length (stim_colors t) + length (TRIAL_colorS1 s) + length (TRIAL_colorS2 s))"
      by (simp del: take_append add: l min.commute add.assoc)
    ultimately show ?thesis
      unfolding u b [OF lt] by (simp del: take_append)
  qed
  show ?thesis
    using d r a' b' unfolding g2_def by blast
qed

lemma set_colors_cont_even_drawn:
  assumes "rep_num t mod 2 = 0" "0 < num_stimuli t" "num_stimuli t \<le> 7"
  shows "\<exists>r1 r2 g'.
           draw_change (num_stimuli t) 7 (drop (length (TRIAL_colorS s) - 1) (random_cont s)) =
             Inr ((r1, r2), g') \<and>
           0 \<le> r1 \<and> r1 < int (num_stimuli t) \<and> int (num_stimuli t) \<le> r2 \<and> r2 \<le> 7 \<and>
           (int (length (probe_colors t) + length (TRIAL_colorS s)) \<le> r2 \<longrightarrow>
              set_colors_cont t s = Inl IndexError) \<and>
           (r2 < int (length (probe_colors t) + length (TRIAL_colorS s)) \<longrightarrow>
              (\<exists>t' s'. set_colors_cont t s = Inr (t', s') \<and> change t' \<and>
                 num_stimuli t' = num_stimuli t \<and>
                 length (probe_colors t') = num_stimuli t \<and>
                 length (stim_colors t') =
                   min (num_stimuli t) (length (stim_colors t) + length (TRIAL_colorS s))))"
proof -
  define c where "c = fst (shuffle (TRIAL_colorS s) (random_cont s))"
  define g2 where "g2 = drop (length (TRIAL_colorS s) - 1) (random_cont s)"
  have l: "length c = length (TRIAL_colorS s)"
    by (simp add: c_def length_shuffle)
  have u: "set_colors_cont t s =
     (case assign_colors 7 c t g2 of
        Inl e \<Rightarrow> Inl e
      | Inr (t', g3) \<Rightarrow> Inr (t', \<lparr> random_cont = g3, TRIAL_colorS = c \<rparr>))"
    unfolding c_def g2_def by (rule set_colors_cont_unfold)
  have L: "length (probe_colors t @ c) = length (probe_colors t) + length (TRIAL_colorS s)"
    by (simp add: l)
  have "int (num_stimuli t) \<le> 7" using assms(3) by simp
  from assign_colors_even_drawn [OF assms(1,2) this, of g2 c]
  obtain r1 r2 where d: "draw_change (num_stimuli t) 7 g2 = Inr ((r1, r2), drop 2 g2)"
    and r: "0 \<le> r1" "r1 < int (num_stimuli t)" "int (num_stimuli t) \<le> r2" "r2 \<le> 7"
    and a: "int (length (probe_colors t @ c)) \<le> r2 \<Longrightarrow>
              assign_colors 7 c t g2 = Inl IndexError"
    and b: "r2 < int (length (probe_colors t @ c)) \<Longrightarrow>
              assign_colors 7 c t g2 =
                Inr (t\<lparr>change := True,
                       stim_colors := take (num_stimuli t) (stim_colors t @ c),
                       probe_colors := take (num_stimuli t)
                         ((probe_colors t @ c)[nat r1 := (probe_colors t @ c) ! nat r2])\<rparr>,
                     drop 2 g2)"
    by blast
  have a': "set_colors_cont t s = Inl IndexError"
    if "int (length (probe_colors t) + length (TRIAL_colorS s)) \<le> r2"
    using a that unfolding u L by simp
  have b': "\<exists>t' s'. set_colors_cont t s = Inr (t', s') \<and> change t' \<and>
                 num_stimuli t' = num_stimuli t \<and>
                 length (probe_colors t') = num_stimuli t \<and>
                 length (stim_colors t') =
                   min (num_stimuli t) (length (stim_colors t) + length (TRIAL_colorS s))"
    if h: "r2 < int (length (probe_colors t) + length (TRIAL_colorS s))"
  proof -
    have lt: "r2 < int (length (probe_colors t @ c))"
      using h unfolding L .
    have n: "num_stimuli t \<le> length (probe_colors t @ c)"
      using r(3) lt by linarith
    have "length (take (num_stimuli t)
            ((probe_colors t @ c)[nat r1 := (probe_colors t @ c) ! nat r2])) = num_stimuli t"
      using n by simp
    moreover have "length (take (num_stimuli t) (stim_colors t @ c)) =
        min (num_stimuli t) (length (stim_colors t) + length (TRIAL_colorS s))"
      by (simp del: take_append add: l min.commute)
    ultimately show ?thesis
      unfolding u b [OF lt] by (simp del: take_append)
  qed
  show ?thesis
    using d r a' b' unfolding g2_def by blast
qed

lemma set_colors_Qian_even_result:
  assumes "rep_num t mod 2 = 0"
  shows "set_colors_Qian t s = Inl ValueError \<or> set_colors_Qian t s = Inl IndexError \<or>
         (\<exists>t' s'. set_colors_Qian t s = Inr (t', s') \<and> change t' \<and>
            0 < num_stimuli t \<and>
            num_stimuli t < length (probe_colors t) + length (TRIAL_colorS1 s) + length (TRIAL_colorS2 s) \<and>
            length (probe_colors t') = num_stimuli t \<and>
            length (stim_colors t') =
              min (num_stimuli t)
                (length (stim_colors t) + length (TRIAL_colorS1 s) + length (TRIAL_colorS2 s)))"
proof (cases "num_stimuli t = 0 \<or> 13 < num_stimuli t")
  case True
  then show ?thesis
    using set_colors_Qian_even_Inl [OF assms, of s] by simp
next
  case False
  then have n: "0 < num_stimuli t" "num_stimuli t \<le> 13" by auto
  from set_colors_Qian_even_drawn [OF assms n, of s]
  obtain r2 where r: "int (num_stimuli t) \<le> r2"
    and a: "int (length (probe_colors t) + length (TRIAL_colorS1 s) + length (TRIAL_colorS2 s)) \<le> r2 \<Longrightarrow>
              set_colors_Qian t s = Inl IndexError"
    and b: "r2 < int (length (probe_colors t) + length (TRIAL_colorS1 s) + length (TRIAL_colorS2 s)) \<Longrightarrow>
              (\<exists>t' s'. set_colors_Qian t s = Inr (t', s') \<and> change t' \<and>
                 num_stimuli t' = num_stimuli t \<and>
                 length (probe_colors t') = num_stimuli t \<and>
                 length (stim_colors t') =
                   min (num_stimuli t)
                     (length (stim_colors t) + length (TRIAL_colorS1 s) + length (TRIAL_colorS2 s)))"
    by blast
  show ?thesis
  proof (cases "r2 < int (length (probe_colors t) + length (TRIAL_colorS1 s) + length (TRIAL_colorS2 s))")
    case True
    moreover from True r
    have "num_stimuli t < length (probe_colors t) + length (TRIAL_colorS1 s) + length (TRIAL_colorS2 s)"
      by linarith
    ultimately show ?thesis
      using b n(1) by blast
  next
    case False
    then show ?thesis using a by simp
  qed
qed

lemma set_colors_cont_even_result:
  assumes "rep_num t mod 2 = 0"
  shows "set_colors_cont t s = Inl ValueError \<or> set_colors_cont t s = Inl IndexError \<or>
         (\<exists>t' s'. set_colors_cont t s = Inr (t', s') \<and> change t' \<and>
            0 < num_stimuli t \<and>
            num_stimuli t < length (probe_colors t) + length (TRIAL_colorS s) \<and>
            length (probe_colors t') = num_stimuli t \<and>
            length (stim_colors t') =
              min (num_stimuli t) (length (stim_colors t) + length (TRIAL_colorS s)))"
proof (cases "num_stimuli t = 0 \<or> 7 < num_stimuli t")
  case True
  then show ?thesis
    using set_colors_cont_even_Inl [OF assms, of s] by simp
next
  case False
  then have n: "0 < num_stimuli t" "num_stimuli t \<le> 7" by auto
  from set_colors_cont_even_drawn [OF assms n, of s]
  obtain r2 where r: "int (num_stimuli t) \<le> r2"
    and a: "int (length (probe_colors t) + length (TRIAL_colorS s)) \<le> r2 \<Longrightarrow>
              set_colors_cont t s = Inl IndexError"
    and b: "r2 < int (length (probe_colors t) + length (TRIAL_colorS s)) \<Longrightarrow>
              (\<exists>t' s'. set_colors_cont t s = Inr (t', s') \<and> change t' \<and>
                 num_stimuli t' = num_stimuli t \<and>
                 length (probe_colors t') = num_stimuli t \<and>
                 length (stim_colors t') =
                   min (num_stimuli t) (length (stim_colors t) + length (TRIAL_colorS s)))"
    by blast
  show ?thesis
  proof (cases "r2 < int (length (probe_colors t) + length (TRIAL_colorS s))")
    case True
    moreover from True r
    have "num_stimuli t < length (probe_colors t) + length (TRIAL_colorS s)"
      by linarith
    ultimately show ?thesis
      using b n(1) by blast
  next
    case False
    then show ?thesis using a by simp
  qed
qed

lemma new_trial_Qian_lengths:
  assumes "inv_Qian s" "0 \<le> trial" "trial < 6"
  shows "\<exists>t s'. new_trial_Qian (rep, trial) s = Inr (t, s') \<and> inv_Qian s' \<and>
           num_stimuli t = num_stimuli (Trial_Qian trial rep :: color_Qian Trial) \<and>
           length (stim_colors t) = num_stimuli t \<and> length (probe_colors t) = num_stimuli t"
proof -
  define n where "n = num_stimuli (Trial_Qian trial rep :: color_Qian Trial)"
  obtain t s' c1 c2 where r: "new_trial_Qian (rep, trial) s = Inr (t, s')" "inv_Qian s'"
    and c: "mset c1 = mset palette_Qian" "mset c2 = mset palette_Qian"
    and sp: "trial_spec n 13 (c1 @ c2) rep trial t"
    using new_trial_Qian_ok [OF assms, of rep] unfolding n_def by blast
  have "n \<in> {1, 2, 3, 4, 8, 12}"
    unfolding n_def using assms(2,3) by (rule load_Qian)
  moreover have "length (c1 @ c2) = 16"
    using c by (simp add: length_mset_palette_Qian)
  ultimately have "n \<le> length (c1 @ c2)" by auto
  then show ?thesis
    using trial_spec_lengths [OF sp] r unfolding n_def by auto
qed

lemma new_trial_cont_lengths:
  assumes "inv_cont s" "0 \<le> trial" "trial < 3"
  shows "\<exists>t s'. new_trial_cont (rep, trial) s = Inr (t, s') \<and> inv_cont s' \<and>
           num_stimuli t = num_stimuli (Trial_cont trial rep :: color_cont Trial) \<and>
           length (stim_colors t) = num_stimuli t \<and> length (probe_colors t) = num_stimuli t"
proof -
  define n where "n = num_stimuli (Trial_cont trial rep :: color_cont Trial)"
  obtain t s' c where r: "new_trial_cont (rep, trial) s = Inr (t, s')" "inv_cont s'"
    and c: "mset c = mset palette_cont"
    and sp: "trial_spec n 7 c rep trial t"
    using new_trial_cont_ok [OF assms, of rep] unfolding n_def by blast
  have "n \<in> {2, 4, 6}"
    unfolding n_def using assms(2,3) by (rule load_cont)
  moreover have "length c = 8"
    using c by (simp add: length_mset_palette_cont)
  ultimately have "n \<le> length c" by auto
  then show ?thesis
    using trial_spec_lengths [OF sp] r unfolding n_def by auto
qed

lemma set_colors_Qian_even_short:
  assumes "rep_num t mod 2 = 0"
    and "length (probe_colors t) + length (TRIAL_colorS1 s) + length (TRIAL_colorS2 s) \<le> num_stimuli t"
  shows "set_colors_Qian t s = Inl ValueError \<or> set_colors_Qian t s = Inl IndexError"
  using set_colors_Qian_even_result [OF assms(1), of s] assms(2) by auto

lemma set_colors_cont_even_short:
  assumes "rep_num t mod 2 = 0"
    and "length (probe_colors t) + length (TRIAL_colorS s) \<le> num_stimuli t"
  shows "set_colors_cont t s = Inl ValueError \<or> set_colors_cont t s = Inl IndexError"
  using set_colors_cont_even_result [OF assms(1), of s] assms(2) by auto






lemma length_shuffle_from: "i < length xs \<Longrightarrow> length (fst (shuffle_from i xs g)) = length xs"
  by (metis mset_shuffle_from size_mset)

lemma shuffle_from_Cons:
  "j \<le> Suc i \<Longrightarrow> shuffle_from (Suc i) xs (j # cs) = shuffle_from i (swap xs (Suc i) j) cs"
  by simp







lemma randint_append:
  "p \<noteq> [] \<Longrightarrow>
     randint a b (p @ q) = (case randint a b p of Inl e \<Rightarrow> Inl e | Inr (k, g) \<Rightarrow> Inr (k, g @ q))"
  by (cases p) (simp_all add: randint_def)


























section \<open>The claims\<close>

text \<open>
  Claim C1, as amended. Generation does not fail. In the continuous script the sample
  colours of every trial are pairwise distinct. In the discrete script they are pairwise
  distinct in every trial of at most 8 stimuli; a trial of 12 stimuli takes 12 of the 16
  entries of the two shuffled palettes, so its first 8 sample colours are pairwise
  distinct, its last 4 are pairwise distinct, and each of the last 4 repeats one of the
  first 8.
\<close>

theorem C1_sample_colors:
  "(T \<le> 6 \<longrightarrow>
      (\<exists>ts s'. set_trials_Qian R T (init_Qian g) = Inr (ts, s') \<and>
         (\<forall>t\<in>set ts.
            (num_stimuli t \<le> 8 \<longrightarrow> distinct (stim_colors t)) \<and>
            (num_stimuli t = 12 \<longrightarrow>
               length (stim_colors t) = 12 \<and> distinct (take 8 (stim_colors t)) \<and>
               distinct (drop 8 (stim_colors t)) \<and>
               set (drop 8 (stim_colors t)) \<subseteq> set (take 8 (stim_colors t)))))) \<and>
   (T' \<le> 3 \<longrightarrow>
      (\<exists>ts s'. set_trials_cont R' T' (init_cont g') = Inr (ts, s') \<and>
         (\<forall>t\<in>set ts. distinct (stim_colors t))))"
proof (intro conjI impI)
  assume T: "T \<le> 6"
  obtain ts s' where r: "set_trials_Qian R T (init_Qian g) = Inr (ts, s')"
    and m: "\<forall>t\<in>set ts. \<exists>rep trial. 0 \<le> trial \<and> trial < 6 \<and> made_Qian (rep, trial) t"
    using set_trials_Qian_made [OF T, of R g] by blast
  have "\<forall>t\<in>set ts.
            (num_stimuli t \<le> 8 \<longrightarrow> distinct (stim_colors t)) \<and>
            (num_stimuli t = 12 \<longrightarrow>
               length (stim_colors t) = 12 \<and> distinct (take 8 (stim_colors t)) \<and>
               distinct (drop 8 (stim_colors t)) \<and>
               set (drop 8 (stim_colors t)) \<subseteq> set (take 8 (stim_colors t)))"
    using m made_Qian_colors by blast
  then show "\<exists>ts s'. set_trials_Qian R T (init_Qian g) = Inr (ts, s') \<and>
         (\<forall>t\<in>set ts.
            (num_stimuli t \<le> 8 \<longrightarrow> distinct (stim_colors t)) \<and>
            (num_stimuli t = 12 \<longrightarrow>
               length (stim_colors t) = 12 \<and> distinct (take 8 (stim_colors t)) \<and>
               distinct (drop 8 (stim_colors t)) \<and>
               set (drop 8 (stim_colors t)) \<subseteq> set (take 8 (stim_colors t))))"
    using r by blast
next
  assume T: "T' \<le> 3"
  obtain ts s' where r: "set_trials_cont R' T' (init_cont g') = Inr (ts, s')"
    and m: "\<forall>t\<in>set ts. \<exists>rep trial. 0 \<le> trial \<and> trial < 3 \<and> made_cont (rep, trial) t"
    using set_trials_cont_made [OF T, of R' g'] by blast
  have "\<forall>t\<in>set ts. distinct (stim_colors t)"
    using m made_cont_colors by blast
  then show "\<exists>ts s'. set_trials_cont R' T' (init_cont g') = Inr (ts, s') \<and>
         (\<forall>t\<in>set ts. distinct (stim_colors t))"
    using r by blast
qed

theorem C1_sample_colors_witness:
  "(6::nat) \<le> 6 \<and> (3::nat) \<le> 3 \<and>
   (\<exists>ts s'. set_trials_Qian 2 6 (init_Qian [2, 7, 1, 8, 2, 8]) = Inr (ts, s') \<and>
         (\<forall>t\<in>set ts.
            (num_stimuli t \<le> 8 \<longrightarrow> distinct (stim_colors t)) \<and>
            (num_stimuli t = 12 \<longrightarrow>
               length (stim_colors t) = 12 \<and> distinct (take 8 (stim_colors t)) \<and>
               distinct (drop 8 (stim_colors t)) \<and>
               set (drop 8 (stim_colors t)) \<subseteq> set (take 8 (stim_colors t))))) \<and>
   (\<exists>ts s'. set_trials_cont 2 3 (init_cont [2, 7, 1, 8, 2, 8]) = Inr (ts, s') \<and>
         (\<forall>t\<in>set ts. distinct (stim_colors t)))"
  using C1_sample_colors [of 6 2 "[2, 7, 1, 8, 2, 8]" 3 2 "[2, 7, 1, 8, 2, 8]"]
  by simp

text \<open>
  The claim as stated fails on the session of the test subject (\<open>NUM_REPS = 2\<close>, 6 trial
  types), here with a generator that yields 0 throughout: \<^verbatim>\<open>set_trials\<close> returns a list, and
  the trial of 12 stimuli of repetition 0 in it has a repeated sample colour.
\<close>

theorem C1_counterexample:
  "\<exists>ts s'. set_trials_Qian 2 6 (init_Qian []) = Inr (ts, s') \<and>
     (\<exists>t\<in>set ts. rep_num t = 0 \<and> trial_num t = 5 \<and> num_stimuli t = 12 \<and>
        length (stim_colors t) = 12 \<and> \<not> distinct (stim_colors t))"
proof -
  have T: "(6::nat) \<le> 6" and r: "(0::nat) < 2" and k: "(5::nat) < 6" by simp_all
  obtain ts s' t where a: "set_trials_Qian 2 6 (init_Qian []) = Inr (ts, s')"
    "t \<in> set ts" "made_Qian (int 0, int 5) t"
    using set_trials_Qian_has [OF T r k, of "[]"] by blast
  have m: "made_Qian (0, 5) t"
    using a(3) by simp
  have "rep_num t = 0 \<and> trial_num t = 5"
    using made_Qian_pair [OF m] by simp
  moreover have "num_stimuli t = 12 \<and> \<not> distinct (stim_colors t)"
    using made_Qian_12_repeats [OF m] .
  moreover have "length (stim_colors t) = 12"
    using made_Qian_colors [OF m] calculation by simp
  ultimately show ?thesis
    using a(1,2) by blast
qed

text \<open>
  Claim C2 at a failing input of the discrete script: the session of the test subject
  (\<open>NUM_REPS = 2\<close>, 6 trial types) with a generator whose first 26 raw values are 0 and
  whose 27th is 7. The first trial built (repetition 0, type 0, one stimulus) draws
  \<open>rand_1 = 0\<close> and \<open>rand_2 = 8\<close>; entry 8 of the pool is the first entry of the second
  shuffled palette and has the colour of entry 0. \<^verbatim>\<open>set_trials\<close> returns this trial with
  \<open>change = True\<close> and probe colours equal to the sample colours at every index.
\<close>

theorem C2_change_without_difference:
  "\<exists>ts s'. set_trials_Qian 2 6 (init_Qian (replicate 26 0 @ [7])) = Inr (ts, s') \<and>
     (\<exists>t\<in>set ts. rep_num t = 0 \<and> trial_num t = 0 \<and> num_stimuli t = 1 \<and> change t \<and>
        stim_colors t = [(- 1, - 1, 1)] \<and> probe_colors t = [(- 1, - 1, 1)])"
proof -
  define g :: rng where "g = replicate 26 0 @ [7]"
  have d: "drop 11 g = replicate 15 0 @ [7]"
    by (simp add: g_def)
  have s: "(init_Qian g)\<lparr>random_Qian := drop 11 (random_Qian (init_Qian g))\<rparr> =
      init_Qian (replicate 15 0 @ [7])"
    by (simp add: init_Qian_def d)
  note e = new_trial_Qian_eval [of 0 0 "init_Qian g", unfolded s, OF colliding_colors]
  then obtain t0 s0 where n: "new_trial_Qian (0, 0) (init_Qian g) = Inr (t0, s0)"
    and t0: "t0 = \<lparr>rep_num = 0, trial_num = 0, num_stimuli = 1, stim_positions = [], change = True,
           stim_colors = [(- 1, - 1, 1)], probe_colors = [(- 1, - 1, 1)]\<rparr>
         \<lparr>stim_positions := take (num_stimuli (Trial_Qian 0 0 :: color_Qian Trial))
              (fst (shuffle (map ring_position [0..<12]) (random_Qian (init_Qian g))))\<rparr>"
    by blast
  have t0: "rep_num t0 = 0" "trial_num t0 = 0" "num_stimuli t0 = 1" "change t0"
      "stim_colors t0 = [(- 1, - 1, 1)]" "probe_colors t0 = [(- 1, - 1, 1)]"
    by (simp_all add: t0)
  have "\<exists>ts s'. set_trials_Qian 2 6 (init_Qian g) = Inr (ts, s') \<and> t0 \<in> set ts"
    using n by (intro set_trials_Qian_first) simp_all
  then show ?thesis
    using t0 unfolding g_def by blast
qed

text \<open>
  Claim C3, as amended. The annulus gates only what is displayed: after each round of
  the response loop the probed square is filled with the wheel colour nearest to the
  pointer when the pointer is outside the inner circle and inside the outer one, and has
  no fill otherwise. Acceptance is not gated: while no button is pressed the loop keeps
  polling, and the first round in which any button is pressed freezes and scores the
  wheel colour nearest to the pointer position read last in that round, wherever the
  pointer is.
\<close>

theorem C3_annulus_gates_display_only:
  "(probe < n \<and> \<not> list_ex any_button pre \<and> any_button f \<longrightarrow>
      response_loop rgb mask1 mask2 n probe probe_Color st (pre @ f # post) =
        Inr (map (shown_fill rgb mask1 mask2 probe) (pre @ [f]),
             Some (rgb (wheel_index (mouse_at f (n - 1))),
                   color_distance (rgb (wheel_index (mouse_at f (n - 1)))) probe_Color))) \<and>
   (probe < n \<and> \<not> list_ex any_button fs \<longrightarrow>
      response_loop rgb mask1 mask2 n probe probe_Color st fs =
        Inr (map (shown_fill rgb mask1 mask2 probe) fs, None)) \<and>
   (shown_fill rgb mask1 mask2 probe f \<noteq> None) = (\<not> mask1 (mouse_mask1 f) \<and> mask2 (mouse_mask2 f)) \<and>
   nearest p = Inr (wheel_index p)"
proof (intro conjI impI)
  assume "probe < n \<and> \<not> list_ex any_button pre \<and> any_button f"
  then show "response_loop rgb mask1 mask2 n probe probe_Color st (pre @ f # post) =
        Inr (map (shown_fill rgb mask1 mask2 probe) (pre @ [f]),
             Some (rgb (wheel_index (mouse_at f (n - 1))),
                   color_distance (rgb (wheel_index (mouse_at f (n - 1)))) probe_Color))"
    using response_loop_press [of probe n pre f rgb mask1 mask2 probe_Color st post] by blast
next
  assume "probe < n \<and> \<not> list_ex any_button fs"
  then show "response_loop rgb mask1 mask2 n probe probe_Color st fs =
        Inr (map (shown_fill rgb mask1 mask2 probe) fs, None)"
    using response_loop_waiting [of probe n fs rgb mask1 mask2 probe_Color st] by blast
next
  show "(shown_fill rgb mask1 mask2 probe f \<noteq> None) = (\<not> mask1 (mouse_mask1 f) \<and> mask2 (mouse_mask2 f))"
    by (simp add: shown_fill_def del: not_None_eq)
next
  show "nearest p = Inr (wheel_index p)"
    by (rule nearest_wheel_index)
qed

theorem C3_annulus_gates_display_only_witness:
  "\<forall>rgb. (0::nat) < 2 \<and>
     \<not> list_ex any_button [still_frame (8, 0) [False, False, False]] \<and>
     any_button (still_frame (12, 0) [True, False, False]) \<and>
     \<not> list_ex any_button [still_frame (8, 0) [False, False, False], still_frame (0, 0) [False, False, False]] \<and>
     response_loop rgb (disc (15 / 2)) (disc (17 / 2)) 2 0 (1, 1, - 1) (None, None)
       ([still_frame (8, 0) [False, False, False]] @ still_frame (12, 0) [True, False, False] # []) =
       Inr (map (shown_fill rgb (disc (15 / 2)) (disc (17 / 2)) 0)
              ([still_frame (8, 0) [False, False, False]] @ [still_frame (12, 0) [True, False, False]]),
            Some (rgb (wheel_index (mouse_at (still_frame (12, 0) [True, False, False]) (2 - 1))),
                  color_distance
                    (rgb (wheel_index (mouse_at (still_frame (12, 0) [True, False, False]) (2 - 1))))
                    (1, 1, - 1))) \<and>
     response_loop rgb (disc (15 / 2)) (disc (17 / 2)) 2 0 (1, 1, - 1) (None, None)
       [still_frame (8, 0) [False, False, False], still_frame (0, 0) [False, False, False]] =
       Inr (map (shown_fill rgb (disc (15 / 2)) (disc (17 / 2)) 0)
              [still_frame (8, 0) [False, False, False], still_frame (0, 0) [False, False, False]], None)"
proof
  fix rgb :: "nat \<Rightarrow> color_cont"
  have h: "(0::nat) < 2"
    "\<not> list_ex any_button [still_frame (8, 0) [False, False, False]]"
    "any_button (still_frame (12, 0) [True, False, False])"
    "\<not> list_ex any_button [still_frame (8, 0) [False, False, False], still_frame (0, 0) [False, False, False]]"
    by (simp_all add: any_button_def still_frame_def)
  note c = C3_annulus_gates_display_only [of 0 2 "[still_frame (8, 0) [False, False, False]]"
      "still_frame (12, 0) [True, False, False]" rgb "disc (15 / 2)" "disc (17 / 2)" "(1, 1, - 1)"
      "(None, None)" "[]"
      "[still_frame (8, 0) [False, False, False], still_frame (0, 0) [False, False, False]]"]
  show "(0::nat) < 2 \<and>
     \<not> list_ex any_button [still_frame (8, 0) [False, False, False]] \<and>
     any_button (still_frame (12, 0) [True, False, False]) \<and>
     \<not> list_ex any_button [still_frame (8, 0) [False, False, False], still_frame (0, 0) [False, False, False]] \<and>
     response_loop rgb (disc (15 / 2)) (disc (17 / 2)) 2 0 (1, 1, - 1) (None, None)
       ([still_frame (8, 0) [False, False, False]] @ still_frame (12, 0) [True, False, False] # []) =
       Inr (map (shown_fill rgb (disc (15 / 2)) (disc (17 / 2)) 0)
              ([still_frame (8, 0) [False, False, False]] @ [still_frame (12, 0) [True, False, False]]),
            Some (rgb (wheel_index (mouse_at (still_frame (12, 0) [True, False, False]) (2 - 1))),
                  color_distance
                    (rgb (wheel_index (mouse_at (still_frame (12, 0) [True, False, False]) (2 - 1))))
                    (1, 1, - 1))) \<and>
     response_loop rgb (disc (15 / 2)) (disc (17 / 2)) 2 0 (1, 1, - 1) (None, None)
       [still_frame (8, 0) [False, False, False], still_frame (0, 0) [False, False, False]] =
       Inr (map (shown_fill rgb (disc (15 / 2)) (disc (17 / 2)) 0)
              [still_frame (8, 0) [False, False, False], still_frame (0, 0) [False, False, False]], None)"
    using c h by blast
qed

text \<open>
  The claim as stated fails: with ideal discs of radius 7.5 and 8.5 for the two masks, a
  pointer resting at (12, 0) is outside the outer circle, hence outside the annulus, and no
  colour is displayed; a button pressed there is accepted all the same, and the colour of
  wheel point 0 is frozen and scored.
\<close>

theorem C3_counterexample:
  "\<not> (\<not> disc (15 / 2) (12, 0) \<and> disc (17 / 2) (12, 0)) \<and>
   (\<forall>rgb. response_loop rgb (disc (15 / 2)) (disc (17 / 2)) 2 0 (1, 1, - 1) (None, None)
       [still_frame (12, 0) [True, False, False]] =
     Inr ([None], Some (rgb 0, color_distance (rgb 0) (1, 1, - 1))))"
proof -
  have "\<not> disc (17 / 2) (12, 0)"
    by (simp add: disc_def power2_eq_square)
  then show ?thesis
    using press_outside_annulus by simp
qed

text \<open>
  Claim C4, as amended. Neither script checks its configuration or raises an error of its
  own. \<^verbatim>\<open>Trial.__init__\<close> never raises: a trial type outside the table leaves
  \<^verbatim>\<open>num_stimuli = 0\<close>. With the palettes of the script every trial type of the table is
  generated without error, with \<^verbatim>\<open>num_stimuli\<close> sample and probe colours; a type outside the
  table gives a trial with empty lists when \<^verbatim>\<open>rep_num\<close> is odd and the ValueError of
  \<^verbatim>\<open>random.randint\<close> when \<^verbatim>\<open>rep_num\<close> is even, so \<^verbatim>\<open>set_trials\<close> with at least one
  repetition and more trial types than the table has stops with that ValueError and
  returns no list (repetition 0 comes first).

  \<^verbatim>\<open>set_colors\<close>, for any trial and any palettes, never compares \<^verbatim>\<open>num_stimuli\<close> with the
  colours at hand (those already in the list and the palettes appended to it). On a
  no-change trial (odd \<^verbatim>\<open>rep_num\<close>) it never fails and returns the lists cut to the smaller
  of \<^verbatim>\<open>num_stimuli\<close> and the colours at hand. On a change trial (even \<^verbatim>\<open>rep_num\<close>) it has
  exactly two failures, both raised by the runtime: the ValueError of \<^verbatim>\<open>random.randint\<close> on
  an empty range, when \<^verbatim>\<open>num_stimuli\<close> is 0 or above the upper bound of the draw of
  \<^verbatim>\<open>rand_2\<close>; otherwise the IndexError of \<^verbatim>\<open>probe_colors[rand_2]\<close>, when the \<^verbatim>\<open>rand_2\<close> drawn
  (after the shuffles of the palettes) is not below the number of colours at hand;
  otherwise it succeeds, with exactly \<^verbatim>\<open>num_stimuli\<close> probe colours. So a change trial either
  fails with one of these two errors or asks for fewer colours than are at hand and is not
  cut; one that asks for at least as many colours as are at hand always fails.
\<close>

theorem C4_generation_failures:
  fixes sq :: "'c state_Qian" and sc :: "'d state_cont"
    and si :: "color_Qian state_Qian" and sj :: "color_cont state_cont"
  shows
  "((trial < 0 \<or> 6 \<le> trial) \<and> rep mod 2 \<noteq> 0 \<longrightarrow>
      (\<exists>t s'. new_trial_Qian (rep, trial) sq = Inr (t, s') \<and> trial_num t = trial \<and>
         num_stimuli t = 0 \<and> stim_positions t = [] \<and> stim_colors t = [] \<and> probe_colors t = [])) \<and>
   ((trial < 0 \<or> 6 \<le> trial) \<and> rep0 mod 2 = 0 \<longrightarrow>
      new_trial_Qian (rep0, trial) sq = Inl ValueError) \<and>
   (0 \<le> trial1 \<and> trial1 < 6 \<and>
    mset (TRIAL_colorS1 si) = mset palette_Qian \<and> mset (TRIAL_colorS2 si) = mset palette_Qian \<longrightarrow>
      (\<exists>t s'. new_trial_Qian (rep1, trial1) si = Inr (t, s') \<and>
         mset (TRIAL_colorS1 s') = mset palette_Qian \<and> mset (TRIAL_colorS2 s') = mset palette_Qian \<and>
         num_stimuli t = num_stimuli (Trial_Qian trial1 rep1 :: color_Qian Trial) \<and>
         length (stim_colors t) = num_stimuli t \<and> length (probe_colors t) = num_stimuli t)) \<and>
   (0 < R \<and> 6 < T \<longrightarrow> set_trials_Qian R T (init_Qian g) = Inl ValueError) \<and>
   (rep_num tq mod 2 \<noteq> 0 \<longrightarrow>
      (\<exists>t' s'. set_colors_Qian tq sq = Inr (t', s') \<and>
         length (stim_colors t') =
           min (num_stimuli tq)
             (length (stim_colors tq) + length (TRIAL_colorS1 sq) + length (TRIAL_colorS2 sq)) \<and>
         length (probe_colors t') =
           min (num_stimuli tq)
             (length (probe_colors tq) + length (TRIAL_colorS1 sq) + length (TRIAL_colorS2 sq)))) \<and>
   (rep_num tq0 mod 2 = 0 \<and> (num_stimuli tq0 = 0 \<or> 13 < num_stimuli tq0) \<longrightarrow>
      set_colors_Qian tq0 sq = Inl ValueError) \<and>
   (rep_num tq1 mod 2 = 0 \<and> 0 < num_stimuli tq1 \<and> num_stimuli tq1 \<le> 13 \<longrightarrow>
      (\<exists>r1 r2 g2.
         draw_change (num_stimuli tq1) 13
           (drop (length (TRIAL_colorS2 sq) - 1) (drop (length (TRIAL_colorS1 sq) - 1) (random_Qian sq))) =
           Inr ((r1, r2), g2) \<and>
         0 \<le> r1 \<and> r1 < int (num_stimuli tq1) \<and> int (num_stimuli tq1) \<le> r2 \<and> r2 \<le> 13 \<and>
         (int (length (probe_colors tq1) + length (TRIAL_colorS1 sq) + length (TRIAL_colorS2 sq)) \<le> r2 \<longrightarrow>
            set_colors_Qian tq1 sq = Inl IndexError) \<and>
         (r2 < int (length (probe_colors tq1) + length (TRIAL_colorS1 sq) + length (TRIAL_colorS2 sq)) \<longrightarrow>
            (\<exists>t' s'. set_colors_Qian tq1 sq = Inr (t', s') \<and> change t' \<and>
               num_stimuli t' = num_stimuli tq1 \<and>
               length (probe_colors t') = num_stimuli tq1 \<and>
               length (stim_colors t') =
                 min (num_stimuli tq1)
                   (length (stim_colors tq1) + length (TRIAL_colorS1 sq) + length (TRIAL_colorS2 sq)))))) \<and>
   (rep_num tq2 mod 2 = 0 \<longrightarrow>
      set_colors_Qian tq2 sq = Inl ValueError \<or> set_colors_Qian tq2 sq = Inl IndexError \<or>
      (\<exists>t' s'. set_colors_Qian tq2 sq = Inr (t', s') \<and> change t' \<and>
         0 < num_stimuli tq2 \<and>
         num_stimuli tq2 <
           length (probe_colors tq2) + length (TRIAL_colorS1 sq) + length (TRIAL_colorS2 sq) \<and>
         length (probe_colors t') = num_stimuli tq2 \<and>
         length (stim_colors t') =
           min (num_stimuli tq2)
             (length (stim_colors tq2) + length (TRIAL_colorS1 sq) + length (TRIAL_colorS2 sq)))) \<and>
   (rep_num tq3 mod 2 = 0 \<and>
    length (probe_colors tq3) + length (TRIAL_colorS1 sq) + length (TRIAL_colorS2 sq) \<le> num_stimuli tq3 \<longrightarrow>
      set_colors_Qian tq3 sq = Inl ValueError \<or> set_colors_Qian tq3 sq = Inl IndexError) \<and>
   ((trial' < 0 \<or> 3 \<le> trial') \<and> rep' mod 2 \<noteq> 0 \<longrightarrow>
      (\<exists>t s'. new_trial_cont (rep', trial') sc = Inr (t, s') \<and> trial_num t = trial' \<and>
         num_stimuli t = 0 \<and> stim_positions t = [] \<and> stim_colors t = [] \<and> probe_colors t = [])) \<and>
   ((trial' < 0 \<or> 3 \<le> trial') \<and> rep0' mod 2 = 0 \<longrightarrow>
      new_trial_cont (rep0', trial') sc = Inl ValueError) \<and>
   (0 \<le> trial1' \<and> trial1' < 3 \<and> mset (TRIAL_colorS sj) = mset palette_cont \<longrightarrow>
      (\<exists>t s'. new_trial_cont (rep1', trial1') sj = Inr (t, s') \<and>
         mset (TRIAL_colorS s') = mset palette_cont \<and>
         num_stimuli t = num_stimuli (Trial_cont trial1' rep1' :: color_cont Trial) \<and>
         length (stim_colors t) = num_stimuli t \<and> length (probe_colors t) = num_stimuli t)) \<and>
   (0 < R' \<and> 3 < T' \<longrightarrow> set_trials_cont R' T' (init_cont g') = Inl ValueError) \<and>
   (rep_num tc mod 2 \<noteq> 0 \<longrightarrow>
      (\<exists>t' s'. set_colors_cont tc sc = Inr (t', s') \<and>
         length (stim_colors t') =
           min (num_stimuli tc) (length (stim_colors tc) + length (TRIAL_colorS sc)) \<and>
         length (probe_colors t') =
           min (num_stimuli tc) (length (probe_colors tc) + length (TRIAL_colorS sc)))) \<and>
   (rep_num tc0 mod 2 = 0 \<and> (num_stimuli tc0 = 0 \<or> 7 < num_stimuli tc0) \<longrightarrow>
      set_colors_cont tc0 sc = Inl ValueError) \<and>
   (rep_num tc1 mod 2 = 0 \<and> 0 < num_stimuli tc1 \<and> num_stimuli tc1 \<le> 7 \<longrightarrow>
      (\<exists>r1 r2 g2.
         draw_change (num_stimuli tc1) 7 (drop (length (TRIAL_colorS sc) - 1) (random_cont sc)) =
           Inr ((r1, r2), g2) \<and>
         0 \<le> r1 \<and> r1 < int (num_stimuli tc1) \<and> int (num_stimuli tc1) \<le> r2 \<and> r2 \<le> 7 \<and>
         (int (length (probe_colors tc1) + length (TRIAL_colorS sc)) \<le> r2 \<longrightarrow>
            set_colors_cont tc1 sc = Inl IndexError) \<and>
         (r2 < int (length (probe_colors tc1) + length (TRIAL_colorS sc)) \<longrightarrow>
            (\<exists>t' s'. set_colors_cont tc1 sc = Inr (t', s') \<and> change t' \<and>
               num_stimuli t' = num_stimuli tc1 \<and>
               length (probe_colors t') = num_stimuli tc1 \<and>
               length (stim_colors t') =
                 min (num_stimuli tc1) (length (stim_colors tc1) + length (TRIAL_colorS sc)))))) \<and>
   (rep_num tc2 mod 2 = 0 \<longrightarrow>
      set_colors_cont tc2 sc = Inl ValueError \<or> set_colors_cont tc2 sc = Inl IndexError \<or>
      (\<exists>t' s'. set_colors_cont tc2 sc = Inr (t', s') \<and> change t' \<and>
         0 < num_stimuli tc2 \<and>
         num_stimuli tc2 < length (probe_colors tc2) + length (TRIAL_colorS sc) \<and>
         length (probe_colors t') = num_stimuli tc2 \<and>
         length (stim_colors t') =
           min (num_stimuli tc2) (length (stim_colors tc2) + length (TRIAL_colorS sc)))) \<and>
   (rep_num tc3 mod 2 = 0 \<and>
    length (probe_colors tc3) + length (TRIAL_colorS sc) \<le> num_stimuli tc3 \<longrightarrow>
      set_colors_cont tc3 sc = Inl ValueError \<or> set_colors_cont tc3 sc = Inl IndexError)"
proof -
  have q1: "(trial < 0 \<or> 6 \<le> trial) \<and> rep mod 2 \<noteq> 0 \<longrightarrow>
      (\<exists>t s'. new_trial_Qian (rep, trial) sq = Inr (t, s') \<and> trial_num t = trial \<and>
         num_stimuli t = 0 \<and> stim_positions t = [] \<and> stim_colors t = [] \<and> probe_colors t = [])"
    using new_trial_Qian_outside [of trial rep sq] by auto
  have q2: "(trial < 0 \<or> 6 \<le> trial) \<and> rep0 mod 2 = 0 \<longrightarrow>
      new_trial_Qian (rep0, trial) sq = Inl ValueError"
    using new_trial_Qian_outside [of trial rep0 sq] by auto
  have q3: "0 \<le> trial1 \<and> trial1 < 6 \<and>
    mset (TRIAL_colorS1 si) = mset palette_Qian \<and> mset (TRIAL_colorS2 si) = mset palette_Qian \<longrightarrow>
      (\<exists>t s'. new_trial_Qian (rep1, trial1) si = Inr (t, s') \<and>
         mset (TRIAL_colorS1 s') = mset palette_Qian \<and> mset (TRIAL_colorS2 s') = mset palette_Qian \<and>
         num_stimuli t = num_stimuli (Trial_Qian trial1 rep1 :: color_Qian Trial) \<and>
         length (stim_colors t) = num_stimuli t \<and> length (probe_colors t) = num_stimuli t)"
    using new_trial_Qian_lengths [of si trial1 rep1] unfolding inv_Qian_def by blast
  have q4: "0 < R \<and> 6 < T \<longrightarrow> set_trials_Qian R T (init_Qian g) = Inl ValueError"
    using set_trials_Qian_stops by blast
  have q5: "rep_num tq mod 2 \<noteq> 0 \<longrightarrow>
      (\<exists>t' s'. set_colors_Qian tq sq = Inr (t', s') \<and>
         length (stim_colors t') =
           min (num_stimuli tq)
             (length (stim_colors tq) + length (TRIAL_colorS1 sq) + length (TRIAL_colorS2 sq)) \<and>
         length (probe_colors t') =
           min (num_stimuli tq)
             (length (probe_colors tq) + length (TRIAL_colorS1 sq) + length (TRIAL_colorS2 sq)))"
    by (intro impI) (rule set_colors_Qian_odd_lengths)
  have q6: "rep_num tq0 mod 2 = 0 \<and> (num_stimuli tq0 = 0 \<or> 13 < num_stimuli tq0) \<longrightarrow>
      set_colors_Qian tq0 sq = Inl ValueError"
    by (simp add: set_colors_Qian_even_Inl)
  have q7: "rep_num tq1 mod 2 = 0 \<and> 0 < num_stimuli tq1 \<and> num_stimuli tq1 \<le> 13 \<longrightarrow>
      (\<exists>r1 r2 g2.
         draw_change (num_stimuli tq1) 13
           (drop (length (TRIAL_colorS2 sq) - 1) (drop (length (TRIAL_colorS1 sq) - 1) (random_Qian sq))) =
           Inr ((r1, r2), g2) \<and>
         0 \<le> r1 \<and> r1 < int (num_stimuli tq1) \<and> int (num_stimuli tq1) \<le> r2 \<and> r2 \<le> 13 \<and>
         (int (length (probe_colors tq1) + length (TRIAL_colorS1 sq) + length (TRIAL_colorS2 sq)) \<le> r2 \<longrightarrow>
            set_colors_Qian tq1 sq = Inl IndexError) \<and>
         (r2 < int (length (probe_colors tq1) + length (TRIAL_colorS1 sq) + length (TRIAL_colorS2 sq)) \<longrightarrow>
            (\<exists>t' s'. set_colors_Qian tq1 sq = Inr (t', s') \<and> change t' \<and>
               num_stimuli t' = num_stimuli tq1 \<and>
               length (probe_colors t') = num_stimuli tq1 \<and>
               length (stim_colors t') =
                 min (num_stimuli tq1)
                   (length (stim_colors tq1) + length (TRIAL_colorS1 sq) + length (TRIAL_colorS2 sq)))))"
    by (intro impI, elim conjE) (rule set_colors_Qian_even_drawn)
  have q8: "rep_num tq2 mod 2 = 0 \<longrightarrow>
      set_colors_Qian tq2 sq = Inl ValueError \<or> set_colors_Qian tq2 sq = Inl IndexError \<or>
      (\<exists>t' s'. set_colors_Qian tq2 sq = Inr (t', s') \<and> change t' \<and>
         0 < num_stimuli tq2 \<and>
         num_stimuli tq2 <
           length (probe_colors tq2) + length (TRIAL_colorS1 sq) + length (TRIAL_colorS2 sq) \<and>
         length (probe_colors t') = num_stimuli tq2 \<and>
         length (stim_colors t') =
           min (num_stimuli tq2)
             (length (stim_colors tq2) + length (TRIAL_colorS1 sq) + length (TRIAL_colorS2 sq)))"
    by (intro impI) (rule set_colors_Qian_even_result)
  have q9: "rep_num tq3 mod 2 = 0 \<and>
    length (probe_colors tq3) + length (TRIAL_colorS1 sq) + length (TRIAL_colorS2 sq) \<le> num_stimuli tq3 \<longrightarrow>
      set_colors_Qian tq3 sq = Inl ValueError \<or> set_colors_Qian tq3 sq = Inl IndexError"
    by (intro impI, elim conjE) (rule set_colors_Qian_even_short)
  have c1: "(trial' < 0 \<or> 3 \<le> trial') \<and> rep' mod 2 \<noteq> 0 \<longrightarrow>
      (\<exists>t s'. new_trial_cont (rep', trial') sc = Inr (t, s') \<and> trial_num t = trial' \<and>
         num_stimuli t = 0 \<and> stim_positions t = [] \<and> stim_colors t = [] \<and> probe_colors t = [])"
    using new_trial_cont_outside [of trial' rep' sc] by auto
  have c2: "(trial' < 0 \<or> 3 \<le> trial') \<and> rep0' mod 2 = 0 \<longrightarrow>
      new_trial_cont (rep0', trial') sc = Inl ValueError"
    using new_trial_cont_outside [of trial' rep0' sc] by auto
  have c3: "0 \<le> trial1' \<and> trial1' < 3 \<and> mset (TRIAL_colorS sj) = mset palette_cont \<longrightarrow>
      (\<exists>t s'. new_trial_cont (rep1', trial1') sj = Inr (t, s') \<and>
         mset (TRIAL_colorS s') = mset palette_cont \<and>
         num_stimuli t = num_stimuli (Trial_cont trial1' rep1' :: color_cont Trial) \<and>
         length (stim_colors t) = num_stimuli t \<and> length (probe_colors t) = num_stimuli t)"
    using new_trial_cont_lengths [of sj trial1' rep1'] unfolding inv_cont_def by blast
  have c4: "0 < R' \<and> 3 < T' \<longrightarrow> set_trials_cont R' T' (init_cont g') = Inl ValueError"
    using set_trials_cont_stops by blast
  have c5: "rep_num tc mod 2 \<noteq> 0 \<longrightarrow>
      (\<exists>t' s'. set_colors_cont tc sc = Inr (t', s') \<and>
         length (stim_colors t') =
           min (num_stimuli tc) (length (stim_colors tc) + length (TRIAL_colorS sc)) \<and>
         length (probe_colors t') =
           min (num_stimuli tc) (length (probe_colors tc) + length (TRIAL_colorS sc)))"
    by (intro impI) (rule set_colors_cont_odd_lengths)
  have c6: "rep_num tc0 mod 2 = 0 \<and> (num_stimuli tc0 = 0 \<or> 7 < num_stimuli tc0) \<longrightarrow>
      set_colors_cont tc0 sc = Inl ValueError"
    by (simp add: set_colors_cont_even_Inl)
  have c7: "rep_num tc1 mod 2 = 0 \<and> 0 < num_stimuli tc1 \<and> num_stimuli tc1 \<le> 7 \<longrightarrow>
      (\<exists>r1 r2 g2.
         draw_change (num_stimuli tc1) 7 (drop (length (TRIAL_colorS sc) - 1) (random_cont sc)) =
           Inr ((r1, r2), g2) \<and>
         0 \<le> r1 \<and> r1 < int (num_stimuli tc1) \<and> int (num_stimuli tc1) \<le> r2 \<and> r2 \<le> 7 \<and>
         (int (length (probe_colors tc1) + length (TRIAL_colorS sc)) \<le> r2 \<longrightarrow>
            set_colors_cont tc1 sc = Inl IndexError) \<and>
         (r2 < int (length (probe_colors tc1) + length (TRIAL_colorS sc)) \<longrightarrow>
            (\<exists>t' s'. set_colors_cont tc1 sc = Inr (t', s') \<and> change t' \<and>
               num_stimuli t' = num_stimuli tc1 \<and>
               length (probe_colors t') = num_stimuli tc1 \<and>
               length (stim_colors t') =
                 min (num_stimuli tc1) (length (stim_colors tc1) + length (TRIAL_colorS sc)))))"
    by (intro impI, elim conjE) (rule set_colors_cont_even_drawn)
  have c8: "rep_num tc2 mod 2 = 0 \<longrightarrow>
      set_colors_cont tc2 sc = Inl ValueError \<or> set_colors_cont tc2 sc = Inl IndexError \<or>
      (\<exists>t' s'. set_colors_cont tc2 sc = Inr (t', s') \<and> change t' \<and>
         0 < num_stimuli tc2 \<and>
         num_stimuli tc2 < length (probe_colors tc2) + length (TRIAL_colorS sc) \<and>
         length (probe_colors t') = num_stimuli tc2 \<and>
         length (stim_colors t') =
           min (num_stimuli tc2) (length (stim_colors tc2) + length (TRIAL_colorS sc)))"
    by (intro impI) (rule set_colors_cont_even_result)
  have c9: "rep_num tc3 mod 2 = 0 \<and>
    length (probe_colors tc3) + length (TRIAL_colorS sc) \<le> num_stimuli tc3 \<longrightarrow>
      set_colors_cont tc3 sc = Inl ValueError \<or> set_colors_cont tc3 sc = Inl IndexError"
    by (intro impI, elim conjE) (rule set_colors_cont_even_short)
  show ?thesis
    by (intro conjI) (fact q1 q2 q3 q4 q5 q6 q7 q8 q9 c1 c2 c3 c4 c5 c6 c7 c8 c9)+
qed

theorem C4_generation_failures_witness:
  "(\<exists>t s'. new_trial_Qian (1, 6)
        \<lparr>random_Qian = [], TRIAL_colorS1 = [(-1, -1, -1), (-1, -1, 1), (-1, 1, -1), (-1, 1, 1)],
         TRIAL_colorS2 = [(-1, -1, -1), (-1, -1, 1), (-1, 1, -1), (-1, 1, 1)] :: color_Qian list\<rparr> = Inr (t, s') \<and>
      trial_num t = 6 \<and> num_stimuli t = 0 \<and> stim_positions t = [] \<and> stim_colors t = [] \<and>
      probe_colors t = []) \<and>
   new_trial_Qian (0, 6)
        \<lparr>random_Qian = [], TRIAL_colorS1 = [(-1, -1, -1), (-1, -1, 1), (-1, 1, -1), (-1, 1, 1)],
         TRIAL_colorS2 = [(-1, -1, -1), (-1, -1, 1), (-1, 1, -1), (-1, 1, 1)] :: color_Qian list\<rparr> = Inl ValueError \<and>
   (\<exists>t s'. new_trial_Qian (0, 5) (init_Qian []) = Inr (t, s') \<and> num_stimuli t = 12 \<and>
      length (stim_colors t) = 12 \<and> length (probe_colors t) = 12) \<and>
   set_trials_Qian 2 7 (init_Qian []) = Inl ValueError \<and>
   (\<exists>t' s'. set_colors_Qian (Trial_Qian 5 1)
        \<lparr>random_Qian = [], TRIAL_colorS1 = [(-1, -1, -1), (-1, -1, 1), (-1, 1, -1), (-1, 1, 1)],
         TRIAL_colorS2 = [(-1, -1, -1), (-1, -1, 1), (-1, 1, -1), (-1, 1, 1)] :: color_Qian list\<rparr> = Inr (t', s') \<and>
      length (stim_colors t') = 8 \<and> length (probe_colors t') = 8) \<and>
   set_colors_Qian ((Trial_Qian 5 0)\<lparr>num_stimuli := 20\<rparr>)
        \<lparr>random_Qian = [], TRIAL_colorS1 = [(-1, -1, -1), (-1, -1, 1), (-1, 1, -1), (-1, 1, 1)],
         TRIAL_colorS2 = [(-1, -1, -1), (-1, -1, 1), (-1, 1, -1), (-1, 1, 1)] :: color_Qian list\<rparr> = Inl ValueError \<and>
   set_colors_Qian (Trial_Qian 5 0)
        \<lparr>random_Qian = [], TRIAL_colorS1 = [(-1, -1, -1), (-1, -1, 1), (-1, 1, -1), (-1, 1, 1)],
         TRIAL_colorS2 = [(-1, -1, -1), (-1, -1, 1), (-1, 1, -1), (-1, 1, 1)] :: color_Qian list\<rparr> = Inl IndexError \<and>
   (\<exists>t' s'. set_colors_Qian (Trial_Qian 3 0)
        \<lparr>random_Qian = [], TRIAL_colorS1 = [(-1, -1, -1), (-1, -1, 1), (-1, 1, -1), (-1, 1, 1)],
         TRIAL_colorS2 = [(-1, -1, -1), (-1, -1, 1), (-1, 1, -1), (-1, 1, 1)] :: color_Qian list\<rparr> = Inr (t', s') \<and>
      change t' \<and> length (stim_colors t') = 4 \<and> length (probe_colors t') = 4) \<and>
   (\<exists>t s'. new_trial_cont (1, 3)
        \<lparr>random_cont = [], TRIAL_colorS = [(-1, -1, -1), (-1, -1, 1), (-1, 1, -1), (-1, 1, 1)] :: color_Qian list\<rparr> =
        Inr (t, s') \<and>
      trial_num t = 3 \<and> num_stimuli t = 0 \<and> stim_positions t = [] \<and> stim_colors t = [] \<and>
      probe_colors t = []) \<and>
   new_trial_cont (0, 3)
        \<lparr>random_cont = [], TRIAL_colorS = [(-1, -1, -1), (-1, -1, 1), (-1, 1, -1), (-1, 1, 1)] :: color_Qian list\<rparr> =
        Inl ValueError \<and>
   (\<exists>t s'. new_trial_cont (0, 2) (init_cont []) = Inr (t, s') \<and> num_stimuli t = 6 \<and>
      length (stim_colors t) = 6 \<and> length (probe_colors t) = 6) \<and>
   set_trials_cont 2 4 (init_cont []) = Inl ValueError \<and>
   (\<exists>t' s'. set_colors_cont (Trial_cont 2 1)
        \<lparr>random_cont = [], TRIAL_colorS = [(-1, -1, -1), (-1, -1, 1), (-1, 1, -1), (-1, 1, 1)] :: color_Qian list\<rparr> =
        Inr (t', s') \<and>
      length (stim_colors t') = 4 \<and> length (probe_colors t') = 4) \<and>
   set_colors_cont ((Trial_cont 2 0)\<lparr>num_stimuli := 12\<rparr>)
        \<lparr>random_cont = [], TRIAL_colorS = [(-1, -1, -1), (-1, -1, 1), (-1, 1, -1), (-1, 1, 1)] :: color_Qian list\<rparr> =
        Inl ValueError \<and>
   set_colors_cont (Trial_cont 2 0)
        \<lparr>random_cont = [], TRIAL_colorS = [(-1, -1, -1), (-1, -1, 1), (-1, 1, -1), (-1, 1, 1)] :: color_Qian list\<rparr> =
        Inl IndexError \<and>
   (\<exists>t' s'. set_colors_cont (Trial_cont 0 0)
        \<lparr>random_cont = [], TRIAL_colorS = [(-1, -1, -1), (-1, -1, 1), (-1, 1, -1), (-1, 1, 1)] :: color_Qian list\<rparr> =
        Inr (t', s') \<and>
      change t' \<and> length (stim_colors t') = 2 \<and> length (probe_colors t') = 2)"
proof -
  define sq :: "(int \<times> int \<times> int) state_Qian" where
    "sq = \<lparr>random_Qian = [], TRIAL_colorS1 = [(-1, -1, -1), (-1, -1, 1), (-1, 1, -1), (-1, 1, 1)],
         TRIAL_colorS2 = [(-1, -1, -1), (-1, -1, 1), (-1, 1, -1), (-1, 1, 1)]\<rparr>"
  define sc :: "(int \<times> int \<times> int) state_cont" where
    "sc = \<lparr>random_cont = [], TRIAL_colorS = [(-1, -1, -1), (-1, -1, 1), (-1, 1, -1), (-1, 1, 1)]\<rparr>"
  define tq :: "(int \<times> int \<times> int) Trial" where "tq = Trial_Qian 5 1"
  define tq0 :: "(int \<times> int \<times> int) Trial" where "tq0 = (Trial_Qian 5 0)\<lparr>num_stimuli := 20\<rparr>"
  define tq1 :: "(int \<times> int \<times> int) Trial" where "tq1 = Trial_Qian 5 0"
  define tq2 :: "(int \<times> int \<times> int) Trial" where "tq2 = Trial_Qian 3 0"
  define tc :: "(int \<times> int \<times> int) Trial" where "tc = Trial_cont 2 1"
  define tc0 :: "(int \<times> int \<times> int) Trial" where "tc0 = (Trial_cont 2 0)\<lparr>num_stimuli := 12\<rparr>"
  define tc1 :: "(int \<times> int \<times> int) Trial" where "tc1 = Trial_cont 2 0"
  define tc2 :: "(int \<times> int \<times> int) Trial" where "tc2 = Trial_cont 0 0"
  note c = C4_generation_failures [where trial = 6 and rep = 1 and sq = sq and ?rep0.0 = 0
      and ?trial1.0 = 5 and ?rep1.0 = 0 and si = "init_Qian []" and R = 2 and T = 7 and g = "[]"
      and tq = tq and ?tq0.0 = tq0 and ?tq1.0 = tq1 and ?tq2.0 = tq2 and ?tq3.0 = tq1
      and trial' = 3 and rep' = 1 and sc = sc and rep0' = 0
      and trial1' = 2 and rep1' = 0 and sj = "init_cont []" and R' = 2 and T' = 4 and g' = "[]"
      and tc = tc and ?tc0.0 = tc0 and ?tc1.0 = tc1 and ?tc2.0 = tc2 and ?tc3.0 = tc1]
  have h1: "((6::int) < 0 \<or> (6::int) \<le> 6) \<and> (1::int) mod 2 \<noteq> 0"
    and h2: "((6::int) < 0 \<or> (6::int) \<le> 6) \<and> (0::int) mod 2 = 0"
    and h3: "(0::int) \<le> 5 \<and> (5::int) < 6 \<and>
      mset (TRIAL_colorS1 (init_Qian [])) = mset palette_Qian \<and>
      mset (TRIAL_colorS2 (init_Qian [])) = mset palette_Qian"
    and h4: "(0::nat) < 2 \<and> (6::nat) < 7"
    and h5: "rep_num tq mod 2 \<noteq> 0"
    and h6: "rep_num tq0 mod 2 = 0 \<and> (num_stimuli tq0 = 0 \<or> 13 < num_stimuli tq0)"
    and h7: "rep_num tq1 mod 2 = 0 \<and> 0 < num_stimuli tq1 \<and> num_stimuli tq1 \<le> 13"
    and h8: "rep_num tq2 mod 2 = 0"
    and h9: "rep_num tq1 mod 2 = 0 \<and>
      length (probe_colors tq1) + length (TRIAL_colorS1 sq) + length (TRIAL_colorS2 sq) \<le> num_stimuli tq1"
    by (simp_all add: tq_def tq0_def tq1_def tq2_def sq_def Trial_Qian_def init_Qian_def)
  have k1: "((3::int) < 0 \<or> (3::int) \<le> 3) \<and> (1::int) mod 2 \<noteq> 0"
    and k2: "((3::int) < 0 \<or> (3::int) \<le> 3) \<and> (0::int) mod 2 = 0"
    and k3: "(0::int) \<le> 2 \<and> (2::int) < 3 \<and> mset (TRIAL_colorS (init_cont [])) = mset palette_cont"
    and k4: "(0::nat) < 2 \<and> (3::nat) < 4"
    and k5: "rep_num tc mod 2 \<noteq> 0"
    and k6: "rep_num tc0 mod 2 = 0 \<and> (num_stimuli tc0 = 0 \<or> 7 < num_stimuli tc0)"
    and k7: "rep_num tc1 mod 2 = 0 \<and> 0 < num_stimuli tc1 \<and> num_stimuli tc1 \<le> 7"
    and k8: "rep_num tc2 mod 2 = 0"
    and k9: "rep_num tc1 mod 2 = 0 \<and>
      length (probe_colors tc1) + length (TRIAL_colorS sc) \<le> num_stimuli tc1"
    by (simp_all add: tc_def tc0_def tc1_def tc2_def sc_def Trial_cont_def init_cont_def)
  have nq: "num_stimuli (Trial_Qian 5 0 :: color_Qian Trial) = 12"
    and nc: "num_stimuli (Trial_cont 2 0 :: color_cont Trial) = 6"
    by (simp_all add: Trial_Qian_def Trial_cont_def)
  have lq: "min (num_stimuli tq)
      (length (stim_colors tq) + length (TRIAL_colorS1 sq) + length (TRIAL_colorS2 sq)) = 8"
    "min (num_stimuli tq)
      (length (probe_colors tq) + length (TRIAL_colorS1 sq) + length (TRIAL_colorS2 sq)) = 8"
    "min (num_stimuli tq2)
      (length (stim_colors tq2) + length (TRIAL_colorS1 sq) + length (TRIAL_colorS2 sq)) = 4"
    "num_stimuli tq2 = 4"
    "int (length (probe_colors tq1) + length (TRIAL_colorS1 sq) + length (TRIAL_colorS2 sq)) = 8"
    "int (num_stimuli tq1) = 12"
    by (simp_all add: tq_def tq1_def tq2_def sq_def Trial_Qian_def)
  have lc: "min (num_stimuli tc) (length (stim_colors tc) + length (TRIAL_colorS sc)) = 4"
    "min (num_stimuli tc) (length (probe_colors tc) + length (TRIAL_colorS sc)) = 4"
    "min (num_stimuli tc2) (length (stim_colors tc2) + length (TRIAL_colorS sc)) = 2"
    "num_stimuli tc2 = 2"
    "int (length (probe_colors tc1) + length (TRIAL_colorS sc)) = 4"
    "int (num_stimuli tc1) = 6"
    by (simp_all add: tc_def tc1_def tc2_def sc_def Trial_cont_def)
  note c_h1 = c [THEN conjunct1, THEN mp, OF h1]
  note p2 = c [THEN conjunct2]
  note c_h2 = p2 [THEN conjunct1, THEN mp, OF h2]
  note p3 = p2 [THEN conjunct2]
  note c_h3 = p3 [THEN conjunct1, THEN mp, OF h3]
  note p4 = p3 [THEN conjunct2]
  note c_h4 = p4 [THEN conjunct1, THEN mp, OF h4]
  note p5 = p4 [THEN conjunct2]
  note c_h5 = p5 [THEN conjunct1, THEN mp, OF h5]
  note p6 = p5 [THEN conjunct2]
  note c_h6 = p6 [THEN conjunct1, THEN mp, OF h6]
  note p7 = p6 [THEN conjunct2]
  note c_h7 = p7 [THEN conjunct1, THEN mp, OF h7]
  note p8 = p7 [THEN conjunct2]
  note c_h8 = p8 [THEN conjunct1, THEN mp, OF h8]
  note p9 = p8 [THEN conjunct2]
  note c_h9 = p9 [THEN conjunct1, THEN mp, OF h9]
  note p10 = p9 [THEN conjunct2]
  note c_k1 = p10 [THEN conjunct1, THEN mp, OF k1]
  note p11 = p10 [THEN conjunct2]
  note c_k2 = p11 [THEN conjunct1, THEN mp, OF k2]
  note p12 = p11 [THEN conjunct2]
  note c_k3 = p12 [THEN conjunct1, THEN mp, OF k3]
  note p13 = p12 [THEN conjunct2]
  note c_k4 = p13 [THEN conjunct1, THEN mp, OF k4]
  note p14 = p13 [THEN conjunct2]
  note c_k5 = p14 [THEN conjunct1, THEN mp, OF k5]
  note p15 = p14 [THEN conjunct2]
  note c_k6 = p15 [THEN conjunct1, THEN mp, OF k6]
  note p16 = p15 [THEN conjunct2]
  note c_k7 = p16 [THEN conjunct1, THEN mp, OF k7]
  note p17 = p16 [THEN conjunct2]
  note c_k8 = p17 [THEN conjunct1, THEN mp, OF k8]
  note p18 = p17 [THEN conjunct2]
  note c_k9 = p18 [THEN mp, OF k9]
  have fq: "set_colors_Qian tq2 sq \<noteq> Inl ValueError" "set_colors_Qian tq2 sq \<noteq> Inl IndexError"
    unfolding tq2_def sq_def by code_simp+
  have fc: "set_colors_cont tc2 sc \<noteq> Inl ValueError" "set_colors_cont tc2 sc \<noteq> Inl IndexError"
    unfolding tc2_def sc_def by code_simp+
  from c_h1 have w1: "\<exists>t s'. new_trial_Qian (1, 6) sq = Inr (t, s') \<and> trial_num t = 6 \<and>
         num_stimuli t = 0 \<and> stim_positions t = [] \<and> stim_colors t = [] \<and> probe_colors t = []"
    by blast
  from c_h2 have w2: "new_trial_Qian (0, 6) sq = Inl ValueError"
    by blast
  from c_h3 have "\<exists>t s'. new_trial_Qian (0, 5) (init_Qian []) = Inr (t, s') \<and>
         mset (TRIAL_colorS1 s') = mset palette_Qian \<and> mset (TRIAL_colorS2 s') = mset palette_Qian \<and>
         num_stimuli t = num_stimuli (Trial_Qian 5 0 :: color_Qian Trial) \<and>
         length (stim_colors t) = num_stimuli t \<and> length (probe_colors t) = num_stimuli t"
    by blast
  then have w3: "\<exists>t s'. new_trial_Qian (0, 5) (init_Qian []) = Inr (t, s') \<and> num_stimuli t = 12 \<and>
      length (stim_colors t) = 12 \<and> length (probe_colors t) = 12"
    unfolding nq by auto
  from c_h4 have w4: "set_trials_Qian 2 7 (init_Qian []) = Inl ValueError"
    by blast
  from c_h5 have w5: "\<exists>t' s'. set_colors_Qian tq sq = Inr (t', s') \<and>
         length (stim_colors t') = 8 \<and> length (probe_colors t') = 8"
    unfolding lq by blast
  from c_h6 have w6: "set_colors_Qian tq0 sq = Inl ValueError"
    by blast
  from c_h7 have "\<exists>r2::int. 12 \<le> r2 \<and> (8 \<le> r2 \<longrightarrow> set_colors_Qian tq1 sq = Inl IndexError)"
    unfolding lq by blast
  then have w7: "set_colors_Qian tq1 sq = Inl IndexError"
    by auto
  from c_h8 fq have "\<exists>t' s'. set_colors_Qian tq2 sq = Inr (t', s') \<and> change t' \<and>
      length (probe_colors t') = num_stimuli tq2 \<and>
      length (stim_colors t') =
        min (num_stimuli tq2)
          (length (stim_colors tq2) + length (TRIAL_colorS1 sq) + length (TRIAL_colorS2 sq))"
    by blast
  then have w8: "\<exists>t' s'. set_colors_Qian tq2 sq = Inr (t', s') \<and> change t' \<and>
      length (stim_colors t') = 4 \<and> length (probe_colors t') = 4"
    unfolding lq(3) unfolding lq(4) by blast
  from c_k1 have v1: "\<exists>t s'. new_trial_cont (1, 3) sc = Inr (t, s') \<and> trial_num t = 3 \<and>
         num_stimuli t = 0 \<and> stim_positions t = [] \<and> stim_colors t = [] \<and> probe_colors t = []"
    by blast
  from c_k2 have v2: "new_trial_cont (0, 3) sc = Inl ValueError"
    by blast
  from c_k3 have "\<exists>t s'. new_trial_cont (0, 2) (init_cont []) = Inr (t, s') \<and>
         mset (TRIAL_colorS s') = mset palette_cont \<and>
         num_stimuli t = num_stimuli (Trial_cont 2 0 :: color_cont Trial) \<and>
         length (stim_colors t) = num_stimuli t \<and> length (probe_colors t) = num_stimuli t"
    by blast
  then have v3: "\<exists>t s'. new_trial_cont (0, 2) (init_cont []) = Inr (t, s') \<and> num_stimuli t = 6 \<and>
      length (stim_colors t) = 6 \<and> length (probe_colors t) = 6"
    unfolding nc by auto
  from c_k4 have v4: "set_trials_cont 2 4 (init_cont []) = Inl ValueError"
    by blast
  from c_k5 have v5: "\<exists>t' s'. set_colors_cont tc sc = Inr (t', s') \<and>
         length (stim_colors t') = 4 \<and> length (probe_colors t') = 4"
    unfolding lc by blast
  from c_k6 have v6: "set_colors_cont tc0 sc = Inl ValueError"
    by blast
  from c_k7 have "\<exists>r2::int. 6 \<le> r2 \<and> (4 \<le> r2 \<longrightarrow> set_colors_cont tc1 sc = Inl IndexError)"
    unfolding lc by blast
  then have v7: "set_colors_cont tc1 sc = Inl IndexError"
    by auto
  from c_k8 fc have "\<exists>t' s'. set_colors_cont tc2 sc = Inr (t', s') \<and> change t' \<and>
      length (probe_colors t') = num_stimuli tc2 \<and>
      length (stim_colors t') =
        min (num_stimuli tc2) (length (stim_colors tc2) + length (TRIAL_colorS sc))"
    by blast
  then have v8: "\<exists>t' s'. set_colors_cont tc2 sc = Inr (t', s') \<and> change t' \<and>
      length (stim_colors t') = 2 \<and> length (probe_colors t') = 2"
    unfolding lc(3) unfolding lc(4) by blast
  note ws = w1 w2 w3 w4 w5 w6 w7 w8 v1 v2 v3 v4 v5 v6 v7 v8
  show ?thesis
    by (intro conjI)
      (fact ws [unfolded sq_def sc_def tq_def tq0_def tq1_def tq2_def tc_def tc0_def tc1_def tc2_def])+
qed

text \<open>
  The claim as stated fails: building the trial of type 6, which is not in the table of
  the discrete script, for repetition 1 raises nothing and yields a trial without stimuli.
\<close>

theorem C4_counterexample:
  "\<exists>t s'. new_trial_Qian (1, 6) (init_Qian []) = Inr (t, s') \<and> rep_num t = 1 \<and> trial_num t = 6 \<and>
     num_stimuli t = 0 \<and> stim_positions t = [] \<and> stim_colors t = [] \<and> probe_colors t = []"
proof -
  have "(6::int) < 0 \<or> (6::int) \<le> 6" and "(1::int) mod 2 \<noteq> 0" by simp_all
  then show ?thesis
    using new_trial_Qian_outside [of 6 1 "init_Qian []"] by blast
qed


text \<open>
  Claim C6. In every trial \<^verbatim>\<open>set_trials\<close> returns (either script, with the trial types of
  the script) the lists of positions, sample colours and probe colours all have
  \<^verbatim>\<open>num_stimuli\<close> entries, the positions are pairwise distinct, and each position is the
  point at angle \<open>2 pi k / 12\<close>, for some \<open>k\<close> below 12, on the circle of radius
  \<^verbatim>\<open>STIM_POS_RADIUS\<close>. Generation itself does not fail.
\<close>

theorem C6_trial_shape:
  "(T \<le> 6 \<longrightarrow>
      (\<exists>ts s'. set_trials_Qian R T (init_Qian g) = Inr (ts, s') \<and>
         (\<forall>t\<in>set ts.
            length (stim_positions t) = num_stimuli t \<and>
            length (stim_colors t) = num_stimuli t \<and>
            length (probe_colors t) = num_stimuli t \<and>
            distinct (stim_positions t) \<and>
            (\<forall>p\<in>set (stim_positions t). \<exists>k<12.
               p = (STIM_POS_RADIUS * cos (2 * pi * real k / 12),
                    STIM_POS_RADIUS * sin (2 * pi * real k / 12)))))) \<and>
   (T' \<le> 3 \<longrightarrow>
      (\<exists>ts s'. set_trials_cont R' T' (init_cont g') = Inr (ts, s') \<and>
         (\<forall>t\<in>set ts.
            length (stim_positions t) = num_stimuli t \<and>
            length (stim_colors t) = num_stimuli t \<and>
            length (probe_colors t) = num_stimuli t \<and>
            distinct (stim_positions t) \<and>
            (\<forall>p\<in>set (stim_positions t). \<exists>k<12.
               p = (STIM_POS_RADIUS * cos (2 * pi * real k / 12),
                    STIM_POS_RADIUS * sin (2 * pi * real k / 12))))))"
proof (intro conjI impI)
  assume T: "T \<le> 6"
  obtain ts s' where r: "set_trials_Qian R T (init_Qian g) = Inr (ts, s')"
    and m: "\<forall>t\<in>set ts. \<exists>rep trial. 0 \<le> trial \<and> trial < 6 \<and> made_Qian (rep, trial) t"
    using set_trials_Qian_made [OF T, of R g] by blast
  have "\<forall>t\<in>set ts.
            length (stim_positions t) = num_stimuli t \<and>
            length (stim_colors t) = num_stimuli t \<and>
            length (probe_colors t) = num_stimuli t \<and>
            distinct (stim_positions t) \<and>
            (\<forall>p\<in>set (stim_positions t). \<exists>k<12.
               p = (STIM_POS_RADIUS * cos (2 * pi * real k / 12),
                    STIM_POS_RADIUS * sin (2 * pi * real k / 12)))"
    using m made_Qian_shape unfolding ring_position_angle by blast
  then show "\<exists>ts s'. set_trials_Qian R T (init_Qian g) = Inr (ts, s') \<and>
         (\<forall>t\<in>set ts.
            length (stim_positions t) = num_stimuli t \<and>
            length (stim_colors t) = num_stimuli t \<and>
            length (probe_colors t) = num_stimuli t \<and>
            distinct (stim_positions t) \<and>
            (\<forall>p\<in>set (stim_positions t). \<exists>k<12.
               p = (STIM_POS_RADIUS * cos (2 * pi * real k / 12),
                    STIM_POS_RADIUS * sin (2 * pi * real k / 12))))"
    using r by blast
next
  assume T: "T' \<le> 3"
  obtain ts s' where r: "set_trials_cont R' T' (init_cont g') = Inr (ts, s')"
    and m: "\<forall>t\<in>set ts. \<exists>rep trial. 0 \<le> trial \<and> trial < 3 \<and> made_cont (rep, trial) t"
    using set_trials_cont_made [OF T, of R' g'] by blast
  have "\<forall>t\<in>set ts.
            length (stim_positions t) = num_stimuli t \<and>
            length (stim_colors t) = num_stimuli t \<and>
            length (probe_colors t) = num_stimuli t \<and>
            distinct (stim_positions t) \<and>
            (\<forall>p\<in>set (stim_positions t). \<exists>k<12.
               p = (STIM_POS_RADIUS * cos (2 * pi * real k / 12),
                    STIM_POS_RADIUS * sin (2 * pi * real k / 12)))"
    using m made_cont_shape unfolding ring_position_angle by blast
  then show "\<exists>ts s'. set_trials_cont R' T' (init_cont g') = Inr (ts, s') \<and>
         (\<forall>t\<in>set ts.
            length (stim_positions t) = num_stimuli t \<and>
            length (stim_colors t) = num_stimuli t \<and>
            length (probe_colors t) = num_stimuli t \<and>
            distinct (stim_positions t) \<and>
            (\<forall>p\<in>set (stim_positions t). \<exists>k<12.
               p = (STIM_POS_RADIUS * cos (2 * pi * real k / 12),
                    STIM_POS_RADIUS * sin (2 * pi * real k / 12))))"
    using r by blast
qed

theorem C6_trial_shape_witness:
  "(6::nat) \<le> 6 \<and> (3::nat) \<le> 3 \<and>
   (\<exists>ts s'. set_trials_Qian 50 6 (init_Qian [3, 1, 4, 1, 5, 9, 2, 6]) = Inr (ts, s') \<and>
         (\<forall>t\<in>set ts.
            length (stim_positions t) = num_stimuli t \<and>
            length (stim_colors t) = num_stimuli t \<and>
            length (probe_colors t) = num_stimuli t \<and>
            distinct (stim_positions t) \<and>
            (\<forall>p\<in>set (stim_positions t). \<exists>k<12.
               p = (STIM_POS_RADIUS * cos (2 * pi * real k / 12),
                    STIM_POS_RADIUS * sin (2 * pi * real k / 12))))) \<and>
   (\<exists>ts s'. set_trials_cont 50 3 (init_cont [3, 1, 4, 1, 5, 9, 2, 6]) = Inr (ts, s') \<and>
         (\<forall>t\<in>set ts.
            length (stim_positions t) = num_stimuli t \<and>
            length (stim_colors t) = num_stimuli t \<and>
            length (probe_colors t) = num_stimuli t \<and>
            distinct (stim_positions t) \<and>
            (\<forall>p\<in>set (stim_positions t). \<exists>k<12.
               p = (STIM_POS_RADIUS * cos (2 * pi * real k / 12),
                    STIM_POS_RADIUS * sin (2 * pi * real k / 12)))))"
  using C6_trial_shape [of 6 50 "[3, 1, 4, 1, 5, 9, 2, 6]" 3 50 "[3, 1, 4, 1, 5, 9, 2, 6]"]
  by simp

text \<open>
  Claim C7. Two runs of a script are two calls of its setup, each with its own dialog
  history and its own files on disk, and the same library function \<^verbatim>\<open>random.seed\<close>. When
  both runs accept a subject number and the two numbers are the same integer, both runs
  generate a trial list (generation does not fail) and the two lists, with the module
  state left behind, are identical: same trials in the same order, field by field.
  \<^verbatim>\<open>NUM_REPS\<close> is the same in both runs because it depends on the subject number only.
\<close>

theorem C7_same_subject_same_trials:
  "(setup_subject isfile1 NUM_REPS_Qian ds1 = Some (Done (subj1, file1, R1)) \<and>
    setup_subject isfile2 NUM_REPS_Qian ds2 = Some (Done (subj2, file2, R2)) \<and>
    int_of_digits subj1 = int_of_digits subj2 \<longrightarrow>
      (\<exists>ts s. experiment_setup_Qian seed isfile1 ds1 = Some (Done (Inr (ts, s))) \<and>
              experiment_setup_Qian seed isfile2 ds2 = Some (Done (Inr (ts, s))))) \<and>
   (setup_subject isfile1 NUM_REPS_cont ds1 = Some (Done (subj1, file1, R1)) \<and>
    setup_subject isfile2 NUM_REPS_cont ds2 = Some (Done (subj2, file2, R2)) \<and>
    int_of_digits subj1 = int_of_digits subj2 \<longrightarrow>
      (\<exists>ts s. experiment_setup_cont seed isfile1 ds1 = Some (Done (Inr (ts, s))) \<and>
              experiment_setup_cont seed isfile2 ds2 = Some (Done (Inr (ts, s)))))"
proof (intro conjI impI)
  assume a: "setup_subject isfile1 NUM_REPS_Qian ds1 = Some (Done (subj1, file1, R1)) \<and>
    setup_subject isfile2 NUM_REPS_Qian ds2 = Some (Done (subj2, file2, R2)) \<and>
    int_of_digits subj1 = int_of_digits subj2"
  define R where "R = (if int_of_digits subj1 = 999 then 2 else NUM_REPS_Qian)"
  have e1: "experiment_setup_Qian seed isfile1 ds1 =
      Some (Done (set_trials_Qian R NUM_TYPE_Qian (init_Qian (seed (int_of_digits subj1)))))"
    using a experiment_setup_Qian_Done [of isfile1 ds1 subj1 file1 R1 seed] by (simp add: R_def)
  have e2: "experiment_setup_Qian seed isfile2 ds2 =
      Some (Done (set_trials_Qian R NUM_TYPE_Qian (init_Qian (seed (int_of_digits subj1)))))"
    using a experiment_setup_Qian_Done [of isfile2 ds2 subj2 file2 R2 seed] by (simp add: R_def)
  obtain ts s where "set_trials_Qian R NUM_TYPE_Qian (init_Qian (seed (int_of_digits subj1))) = Inr (ts, s)"
    using set_trials_Qian_ok [of NUM_TYPE_Qian R "seed (int_of_digits subj1)"]
    by (auto simp: NUM_TYPE_Qian_def)
  then show "\<exists>ts s. experiment_setup_Qian seed isfile1 ds1 = Some (Done (Inr (ts, s))) \<and>
              experiment_setup_Qian seed isfile2 ds2 = Some (Done (Inr (ts, s)))"
    using e1 e2 by simp
next
  assume a: "setup_subject isfile1 NUM_REPS_cont ds1 = Some (Done (subj1, file1, R1)) \<and>
    setup_subject isfile2 NUM_REPS_cont ds2 = Some (Done (subj2, file2, R2)) \<and>
    int_of_digits subj1 = int_of_digits subj2"
  define R where "R = (if int_of_digits subj1 = 999 then 2 else NUM_REPS_cont)"
  have e1: "experiment_setup_cont seed isfile1 ds1 =
      Some (Done (set_trials_cont R NUM_TYPE_cont (init_cont (seed (int_of_digits subj1)))))"
    using a experiment_setup_cont_Done [of isfile1 ds1 subj1 file1 R1 seed] by (simp add: R_def)
  have e2: "experiment_setup_cont seed isfile2 ds2 =
      Some (Done (set_trials_cont R NUM_TYPE_cont (init_cont (seed (int_of_digits subj1)))))"
    using a experiment_setup_cont_Done [of isfile2 ds2 subj2 file2 R2 seed] by (simp add: R_def)
  obtain ts s where "set_trials_cont R NUM_TYPE_cont (init_cont (seed (int_of_digits subj1))) = Inr (ts, s)"
    using set_trials_cont_ok [of NUM_TYPE_cont R "seed (int_of_digits subj1)"]
    by (auto simp: NUM_TYPE_cont_def)
  then show "\<exists>ts s. experiment_setup_cont seed isfile1 ds1 = Some (Done (Inr (ts, s))) \<and>
              experiment_setup_cont seed isfile2 ds2 = Some (Done (Inr (ts, s)))"
    using e1 e2 by simp
qed

theorem C7_same_subject_same_trials_witness:
  "setup_subject (\<lambda>f. f = ''12.csv'') 50 [Entered ''12'', Entered ''x7'', Entered ''007''] =
     Some (Done (''007'', ''007.csv'', 50)) \<and>
   setup_subject (\<lambda>f. False) 50 [Entered ''7'', Cancelled] = Some (Done (''7'', ''7.csv'', 50)) \<and>
   int_of_digits ''007'' = int_of_digits ''7'' \<and>
   (\<exists>ts s.
      experiment_setup_Qian (\<lambda>n. [nat n, 3, 5]) (\<lambda>f. f = ''12.csv'')
        [Entered ''12'', Entered ''x7'', Entered ''007''] = Some (Done (Inr (ts, s))) \<and>
      experiment_setup_Qian (\<lambda>n. [nat n, 3, 5]) (\<lambda>f. False)
        [Entered ''7'', Cancelled] = Some (Done (Inr (ts, s)))) \<and>
   (\<exists>ts s.
      experiment_setup_cont (\<lambda>n. [nat n, 3, 5]) (\<lambda>f. f = ''12.csv'')
        [Entered ''12'', Entered ''x7'', Entered ''007''] = Some (Done (Inr (ts, s))) \<and>
      experiment_setup_cont (\<lambda>n. [nat n, 3, 5]) (\<lambda>f. False)
        [Entered ''7'', Cancelled] = Some (Done (Inr (ts, s))))"
proof -
  note c = C7_same_subject_same_trials [of "\<lambda>f. f = ''12.csv''"
      "[Entered ''12'', Entered ''x7'', Entered ''007'']" "''007''" "''007.csv''" 50
      "\<lambda>f. False" "[Entered ''7'', Cancelled]" "''7''" "''7.csv''" 50 "\<lambda>n. [nat n, 3, 5]",
      unfolded NUM_REPS_Qian_def NUM_REPS_cont_def]
  show ?thesis
    using c setup_first_run setup_second_run same_number by blast
qed

text \<open>
  Claim C8. Wheel point \<open>k\<close> lies at angle \<open>k\<close> degrees on the circle of radius
  \<^verbatim>\<open>loop_radius\<close>. The index frozen in \<^verbatim>\<open>loc\<close> is that of a wheel point whose Euclidean
  distance \<open>sqrt (dx\<^sup>2 + dy\<^sup>2)\<close> from the pointer position is least (over the reals). In the
  round in which a button is pressed the reported colour is the wheel colour \<open>(r, g, b)\<close>
  at that index, for the position read last in the round, and the error against the
  probe colour \<open>(pr, pg, pb)\<close> is the Euclidean distance
  \<open>sqrt ((r - pr)\<^sup>2 + (g - pg)\<^sup>2 + (b - pb)\<^sup>2)\<close>. With the pointer on wheel point 90 and the
  colour of wheel point 90 as probe colour the error is 0.
\<close>

theorem C8_nearest_point_and_error:
  "(probe < n \<and> any_button f \<and> rgb (wheel_index (mouse_at f (n - 1))) = (r, g, b) \<longrightarrow>
      response_loop rgb mask1 mask2 n probe (pr, pg, pb) st (f # fs) =
        Inr ([shown_fill rgb mask1 mask2 probe f],
             Some ((r, g, b), sqrt ((r - pr)\<^sup>2 + (g - pg)\<^sup>2 + (b - pb)\<^sup>2)))) \<and>
   nearest p = Inr (wheel_index p) \<and> wheel_index p < n_circ \<and>
   (\<forall>k<n_circ.
      xys ! k = (loop_radius * cos (real k * pi / 180), loop_radius * sin (real k * pi / 180))) \<and>
   (\<forall>k<n_circ. point_distance (xys ! wheel_index p) p \<le> point_distance (xys ! k) p) \<and>
   (\<forall>k<n_circ.
      sqrt ((fst (xys ! wheel_index p) - fst p)\<^sup>2 + (snd (xys ! wheel_index p) - snd p)\<^sup>2)
        \<le> sqrt ((fst (xys ! k) - fst p)\<^sup>2 + (snd (xys ! k) - snd p)\<^sup>2)) \<and>
   (probe < n \<and> any_button f \<and> mouse_at f (n - 1) = xys ! 90 \<longrightarrow>
      response_loop rgb mask1 mask2 n probe (rgb 90) st (f # fs) =
        Inr ([shown_fill rgb mask1 mask2 probe f], Some (rgb 90, 0)))"
proof -
  have a: "response_loop rgb mask1 mask2 n probe c st (f # fs) =
        Inr ([shown_fill rgb mask1 mask2 probe f],
             Some (rgb (wheel_index (mouse_at f (n - 1))),
                   color_distance (rgb (wheel_index (mouse_at f (n - 1)))) c))"
    if "probe < n" "any_button f" for c
    using response_loop_press [OF that(1) _ that(2), of "[]" rgb mask1 mask2 c st fs]
    by (simp del: response_loop.simps)
  have b: "wheel_index (xys ! 90) = 90"
    by (rule wheel_index_on_wheel) simp
  show ?thesis
  proof (intro conjI impI allI)
    assume h: "probe < n \<and> any_button f \<and> rgb (wheel_index (mouse_at f (n - 1))) = (r, g, b)"
    then have "response_loop rgb mask1 mask2 n probe (pr, pg, pb) st (f # fs) =
        Inr ([shown_fill rgb mask1 mask2 probe f],
             Some (rgb (wheel_index (mouse_at f (n - 1))),
                   color_distance (rgb (wheel_index (mouse_at f (n - 1)))) (pr, pg, pb)))"
      using a by blast
    then show "response_loop rgb mask1 mask2 n probe (pr, pg, pb) st (f # fs) =
        Inr ([shown_fill rgb mask1 mask2 probe f],
             Some ((r, g, b), sqrt ((r - pr)\<^sup>2 + (g - pg)\<^sup>2 + (b - pb)\<^sup>2)))"
      using h by (simp del: response_loop.simps add: color_distance_triple)
  next
    show "nearest p = Inr (wheel_index p)"
      by (rule nearest_wheel_index)
  next
    show "wheel_index p < n_circ"
      using wheel_index_less [of p] by (simp add: n_circ_def)
  next
    fix k
    assume "k < n_circ"
    then show "xys ! k = (loop_radius * cos (real k * pi / 180), loop_radius * sin (real k * pi / 180))"
      by (rule nth_xys_radius)
  next
    fix k
    assume "k < n_circ"
    then show "point_distance (xys ! wheel_index p) p \<le> point_distance (xys ! k) p"
      using wheel_index_least [of k p] by (simp add: n_circ_def)
  next
    fix k
    assume "k < n_circ"
    then have "point_distance (xys ! wheel_index p) p \<le> point_distance (xys ! k) p"
      using wheel_index_least [of k p] by (simp add: n_circ_def)
    then show "sqrt ((fst (xys ! wheel_index p) - fst p)\<^sup>2 + (snd (xys ! wheel_index p) - snd p)\<^sup>2)
        \<le> sqrt ((fst (xys ! k) - fst p)\<^sup>2 + (snd (xys ! k) - snd p)\<^sup>2)"
      unfolding point_distance_def .
  next
    assume h: "probe < n \<and> any_button f \<and> mouse_at f (n - 1) = xys ! 90"
    then have "response_loop rgb mask1 mask2 n probe (rgb 90) st (f # fs) =
        Inr ([shown_fill rgb mask1 mask2 probe f],
             Some (rgb (wheel_index (mouse_at f (n - 1))),
                   color_distance (rgb (wheel_index (mouse_at f (n - 1)))) (rgb 90)))"
      using a by blast
    then show "response_loop rgb mask1 mask2 n probe (rgb 90) st (f # fs) =
        Inr ([shown_fill rgb mask1 mask2 probe f], Some (rgb 90, 0))"
      using h b by (simp del: response_loop.simps add: color_distance_self)
  qed
qed

theorem C8_nearest_point_and_error_witness:
  "\<forall>rgb. (0::nat) < 2 \<and> any_button (still_frame (xys ! 90) [True, False, False]) \<and>
     mouse_at (still_frame (xys ! 90) [True, False, False]) (2 - 1) = xys ! 90 \<and>
     (90::nat) < n_circ \<and>
     rgb (wheel_index (mouse_at (still_frame (xys ! 90) [True, False, False]) (2 - 1))) =
       (fst (rgb 90), fst (snd (rgb 90)), snd (snd (rgb 90))) \<and>
     response_loop rgb (disc (15 / 2)) (disc (17 / 2)) 2 0 (1, 1, - 1) (None, None)
       [still_frame (xys ! 90) [True, False, False]] =
       Inr ([shown_fill rgb (disc (15 / 2)) (disc (17 / 2)) 0 (still_frame (xys ! 90) [True, False, False])],
            Some ((fst (rgb 90), fst (snd (rgb 90)), snd (snd (rgb 90))),
                  sqrt ((fst (rgb 90) - 1)\<^sup>2 + (fst (snd (rgb 90)) - 1)\<^sup>2 + (snd (snd (rgb 90)) - (- 1))\<^sup>2))) \<and>
     xys ! 90 = (loop_radius * cos (real 90 * pi / 180), loop_radius * sin (real 90 * pi / 180)) \<and>
     point_distance (xys ! wheel_index (xys ! 90)) (xys ! 90) \<le> point_distance (xys ! 90) (xys ! 90) \<and>
     response_loop rgb (disc (15 / 2)) (disc (17 / 2)) 2 0 (rgb 90) (None, None)
       [still_frame (xys ! 90) [True, False, False]] =
       Inr ([shown_fill rgb (disc (15 / 2)) (disc (17 / 2)) 0 (still_frame (xys ! 90) [True, False, False])],
            Some (rgb 90, 0))"
proof
  fix rgb :: "nat \<Rightarrow> color_cont"
  have w: "wheel_index (xys ! 90) = 90"
    by (rule wheel_index_on_wheel) simp
  have h: "(0::nat) < 2" "any_button (still_frame (xys ! 90) [True, False, False])"
    "mouse_at (still_frame (xys ! 90) [True, False, False]) (2 - 1) = xys ! 90" "(90::nat) < n_circ"
    "rgb (wheel_index (mouse_at (still_frame (xys ! 90) [True, False, False]) (2 - 1))) =
       (fst (rgb 90), fst (snd (rgb 90)), snd (snd (rgb 90)))"
    by (simp_all add: any_button_def still_frame_def n_circ_def w)
  note c1 = C8_nearest_point_and_error [where probe = 0 and n = 2 and
      f = "still_frame (xys ! 90) [True, False, False]" and rgb = rgb and
      ?mask1.0 = "disc (15 / 2)" and ?mask2.0 = "disc (17 / 2)" and
      r = "fst (rgb 90)" and g = "fst (snd (rgb 90))" and b = "snd (snd (rgb 90))" and
      pr = 1 and pg = 1 and pb = "- 1" and st = "(None, None)" and fs = "[]" and p = "xys ! 90"]
  show "(0::nat) < 2 \<and> any_button (still_frame (xys ! 90) [True, False, False]) \<and>
     mouse_at (still_frame (xys ! 90) [True, False, False]) (2 - 1) = xys ! 90 \<and>
     (90::nat) < n_circ \<and>
     rgb (wheel_index (mouse_at (still_frame (xys ! 90) [True, False, False]) (2 - 1))) =
       (fst (rgb 90), fst (snd (rgb 90)), snd (snd (rgb 90))) \<and>
     response_loop rgb (disc (15 / 2)) (disc (17 / 2)) 2 0 (1, 1, - 1) (None, None)
       [still_frame (xys ! 90) [True, False, False]] =
       Inr ([shown_fill rgb (disc (15 / 2)) (disc (17 / 2)) 0 (still_frame (xys ! 90) [True, False, False])],
            Some ((fst (rgb 90), fst (snd (rgb 90)), snd (snd (rgb 90))),
                  sqrt ((fst (rgb 90) - 1)\<^sup>2 + (fst (snd (rgb 90)) - 1)\<^sup>2 + (snd (snd (rgb 90)) - (- 1))\<^sup>2))) \<and>
     xys ! 90 = (loop_radius * cos (real 90 * pi / 180), loop_radius * sin (real 90 * pi / 180)) \<and>
     point_distance (xys ! wheel_index (xys ! 90)) (xys ! 90) \<le> point_distance (xys ! 90) (xys ! 90) \<and>
     response_loop rgb (disc (15 / 2)) (disc (17 / 2)) 2 0 (rgb 90) (None, None)
       [still_frame (xys ! 90) [True, False, False]] =
       Inr ([shown_fill rgb (disc (15 / 2)) (disc (17 / 2)) 0 (still_frame (xys ! 90) [True, False, False])],
            Some (rgb 90, 0))"
    using c1 h by blast
qed





end
